(* ===== verification/Prelude.thy ===== *)
theory Prelude
  imports Main "HOL-Library.Word"
begin

text \<open>
  Shared vocabulary of the development.

  \<^item> Collections of facts: \<open>go_simps\<close> (unfolding of the control-flow combinators),
    \<open>frame_simps\<close> (what an operation leaves alone).
  \<^item> Go values used everywhere: machine integers, UUIDs, errors, JSON values.
  \<^item> The outcome of a Go call (\<open>res\<close>: a value, an error, or a panic) and the
    combinator \<open>bindE\<close> for the idiom \<open>x, err := f(); if err != nil { return err }\<close>.
  \<^item> The parts of the standard package \<open>strconv\<close> that the program uses, with
    their round trips.
\<close>

named_theorems go_simps
named_theorems frame_simps

subsection \<open>Scalar types\<close>

text \<open>
  \<open>uint64\<close> and the amounts built on it are 64-bit words; a conversion between
  \<open>uint64\<close> and \<open>int64\<close> keeps the bit pattern, so the same word is read with
  \<open>unat\<close> or with \<open>sint\<close>. A UUID is an array of 16 bytes, \<open>uuid.Nil\<close> is all zero.
\<close>

type_synonym uint64 = "64 word"
type_synonym uuid = "128 word"

abbreviation uuid_Nil :: uuid where
  "uuid_Nil \<equiv> 0"

text \<open>Values of Go's \<open>interface{}\<close> that come from or go to JSON; a number is its literal.\<close>

datatype json =
    JNull
  | JBool bool
  | JNum string
  | JStr string
  | JArr "json list"
  | JObj "(string \<times> json) list"

subsection \<open>Errors and outcomes\<close>

text \<open>
  Errors that the program compares by identity or by dynamic type have a constructor of
  their own; \<open>DriverError\<close> is any other error of the database driver or the network;
  \<open>GoError\<close> is an \<open>errors.New\<close> or \<open>fmt.Errorf\<close> that no code inspects, carrying the
  fixed part of its message.
\<close>

datatype go_error =
    ErrNoRows
  | UniqueViolation
  | DriverError string
  | JSONRPCError int string
  | ErrHotWalletAddressNotGeneratedYet
  | ErrNoTxWithSuchID uuid
  | ErrNoTxWithSuchTxHashAndDirection
  | ErrAlreadyMuted
  | ErrNoSuchEvent
  | ErrSyntax
  | ErrRange
  | GoError string

datatype 'a res = Ok 'a | Error go_error | Panic string

fun is_ok :: "'a res \<Rightarrow> bool" where
  "is_ok (Ok _) = True"
| "is_ok (Error _) = False"
| "is_ok (Panic _) = False"

fun is_panic :: "'a res \<Rightarrow> bool" where
  "is_panic (Panic _) = True"
| "is_panic (Ok _) = False"
| "is_panic (Error _) = False"

text \<open>A call on a state \<open>'s\<close>: it returns an outcome and the state it leaves.\<close>

type_synonym ('s, 'a) call = "'s \<Rightarrow> 'a res \<times> 's"

definition returnE :: "'a \<Rightarrow> ('s, 'a) call" where
  "returnE x s = (Ok x, s)"

definition failE :: "go_error \<Rightarrow> ('s, 'a) call" where
  "failE e s = (Error e, s)"

definition panicE :: "string \<Rightarrow> ('s, 'a) call" where
  "panicE m s = (Panic m, s)"

definition bindE :: "('s, 'a) call \<Rightarrow> ('a \<Rightarrow> ('s, 'b) call) \<Rightarrow> ('s, 'b) call" where
  "bindE m f s =
     (case m s of
        (Ok x, s') \<Rightarrow> f x s'
      | (Error e, s') \<Rightarrow> (Error e, s')
      | (Panic p, s') \<Rightarrow> (Panic p, s'))"

text \<open>A call whose error is looked at by the caller (a panic still propagates).\<close>

definition catchE :: "('s, 'a) call \<Rightarrow> (go_error + 'a \<Rightarrow> ('s, 'b) call) \<Rightarrow> ('s, 'b) call" where
  "catchE m f s =
     (case m s of
        (Ok x, s') \<Rightarrow> f (Inr x) s'
      | (Error e, s') \<Rightarrow> f (Inl e) s'
      | (Panic p, s') \<Rightarrow> (Panic p, s'))"

definition modifyE :: "('s \<Rightarrow> 's) \<Rightarrow> ('s, unit) call" where
  "modifyE f s = (Ok (), f s)"

text \<open>
  A method with a pointer argument works on the pair of the structure behind the pointer
  and the rest of the state. \<open>dropArg\<close> and \<open>keepArg\<close> run it for its result or for the
  structure it leaves; \<open>onWorld\<close> runs a call on the rest of the state only.
\<close>

definition dropArg :: "('s \<Rightarrow> 'a res \<times> 'm \<times> 's) \<Rightarrow> ('s, 'a) call" where
  "dropArg f s = (case f s of (r, _, s') \<Rightarrow> (r, s'))"

definition keepArg :: "('s \<Rightarrow> 'a res \<times> 'm \<times> 's) \<Rightarrow> ('s, 'a \<times> 'm) call" where
  "keepArg f s =
     (case f s of
        (Ok x, m, s') \<Rightarrow> (Ok (x, m), s')
      | (Error e, _, s') \<Rightarrow> (Error e, s')
      | (Panic p, _, s') \<Rightarrow> (Panic p, s'))"

definition onMem :: "('m \<Rightarrow> 's \<Rightarrow> 'a res \<times> 'm \<times> 's) \<Rightarrow> ('m \<times> 's, 'a) call" where
  "onMem f ms = f (fst ms) (snd ms)"

definition onWorld :: "('s, 'a) call \<Rightarrow> ('m \<times> 's, 'a) call" where
  "onWorld g ms = (case g (snd ms) of (r, s') \<Rightarrow> (r, fst ms, s'))"

lemmas call_defs [go_simps] = returnE_def failE_def panicE_def modifyE_def

lemma bindE_Ok [go_simps]: "m s = (Ok x, s') \<Longrightarrow> bindE m f s = f x s'"
  by (simp add: bindE_def)

lemma bindE_Error [go_simps]: "m s = (Error e, s') \<Longrightarrow> bindE m f s = (Error e, s')"
  by (simp add: bindE_def)

lemma bindE_Panic [go_simps]: "m s = (Panic e, s') \<Longrightarrow> bindE m f s = (Panic e, s')"
  by (simp add: bindE_def)

lemma bindE_return [go_simps]: "bindE (returnE x) f s = f x s"
  by (simp add: bindE_def returnE_def)

lemma catchE_Ok [go_simps]: "m s = (Ok x, s') \<Longrightarrow> catchE m f s = f (Inr x) s'"
  by (simp add: catchE_def)

lemma catchE_Error [go_simps]: "m s = (Error e, s') \<Longrightarrow> catchE m f s = f (Inl e) s'"
  by (simp add: catchE_def)

text \<open>The result of a sequence is a success only if both parts succeeded.\<close>

lemma bindE_is_Ok:
  "bindE m f s = (Ok y, t) \<longleftrightarrow> (\<exists>x s'. m s = (Ok x, s') \<and> f x s' = (Ok y, t))"
  by (auto simp: bindE_def split: prod.splits res.splits)

text \<open>
  Rules for pre- and postconditions: \<open>post Q m s\<close> says that the outcome and the final
  state of \<open>m\<close> started in \<open>s\<close> satisfy \<open>Q\<close>.
\<close>

definition post :: "('a res \<Rightarrow> 's \<Rightarrow> bool) \<Rightarrow> ('s, 'a) call \<Rightarrow> 's \<Rightarrow> bool" where
  "post Q m s = Q (fst (m s)) (snd (m s))"

lemma postI: "(\<And>r s'. m s = (r, s') \<Longrightarrow> Q r s') \<Longrightarrow> post Q m s"
  by (auto simp: post_def)

lemma postD: "post Q m s \<Longrightarrow> m s = (r, s') \<Longrightarrow> Q r s'"
  by (auto simp: post_def)

lemma post_mono: "post Q m s \<Longrightarrow> (\<And>r s'. Q r s' \<Longrightarrow> Q' r s') \<Longrightarrow> post Q' m s"
  by (auto simp: post_def)

lemma post_bindE:
  assumes "post R m s"
    and "\<And>x s'. R (Ok x) s' \<Longrightarrow> post Q (f x) s'"
    and "\<And>e s'. R (Error e) s' \<Longrightarrow> Q (Error e) s'"
    and "\<And>p s'. R (Panic p) s' \<Longrightarrow> Q (Panic p) s'"
  shows "post Q (bindE m f) s"
  using assms by (auto simp: post_def bindE_def split: prod.splits res.splits)

lemma post_catchE:
  assumes "post R m s"
    and "\<And>x s'. R (Ok x) s' \<Longrightarrow> post Q (f (Inr x)) s'"
    and "\<And>e s'. R (Error e) s' \<Longrightarrow> post Q (f (Inl e)) s'"
    and "\<And>p s'. R (Panic p) s' \<Longrightarrow> Q (Panic p) s'"
  shows "post Q (catchE m f) s"
  using assms by (auto simp: post_def catchE_def split: prod.splits res.splits)

lemma post_returnE [simp]: "post Q (returnE x) s = Q (Ok x) s"
  by (simp add: post_def returnE_def)

lemma post_failE [simp]: "post Q (failE e) s = Q (Error e) s"
  by (simp add: post_def failE_def)

lemma post_panicE [simp]: "post Q (panicE e) s = Q (Panic e) s"
  by (simp add: post_def panicE_def)

lemma post_modifyE [simp]: "post Q (modifyE f) s = Q (Ok ()) (f s)"
  by (simp add: post_def modifyE_def)

subsection \<open>Bounded channels\<close>

text \<open>
  \<open>select { case ch <- v: default: }\<close> on a channel of the given capacity: the value is
  queued if there is room and dropped otherwise.
\<close>

definition trySend :: "nat \<Rightarrow> 'a \<Rightarrow> 'a list \<Rightarrow> 'a list" where
  "trySend cap v q = (if length q < cap then q @ [v] else q)"

lemma length_trySend: "length q \<le> cap \<Longrightarrow> length (trySend cap v q) \<le> cap"
  by (simp add: trySend_def)

lemma trySend_nonempty: "0 < cap \<Longrightarrow> trySend cap v q \<noteq> []"
  by (cases q) (auto simp: trySend_def)

subsection \<open>Lists with a unique key\<close>

lemma distinct_map_inj: "distinct (map f xs) \<Longrightarrow> x \<in> set xs \<Longrightarrow> y \<in> set xs \<Longrightarrow> f x = f y \<Longrightarrow> x = y"
  by (auto simp: distinct_map inj_on_def)

lemma find_SomeD: "find P xs = Some x \<Longrightarrow> x \<in> set xs \<and> P x"
  by (induction xs) (auto split: if_splits)

lemma find_None_iff_all: "find P xs = None \<longleftrightarrow> (\<forall>x \<in> set xs. \<not> P x)"
  by (induction xs) auto

lemma find_key:
  assumes "distinct (map f xs)" and "x \<in> set xs" and "f x = k"
  shows "find (\<lambda>y. f y = k) xs = Some x"
proof (cases "find (\<lambda>y. f y = k) xs")
  case None
  with assms show ?thesis by (auto simp: find_None_iff_all)
next
  case (Some y)
  then have "y \<in> set xs" and "f y = k" by (auto dest: find_SomeD)
  with assms have "y = x" by (auto intro: distinct_map_inj)
  with Some show ?thesis by simp
qed

lemma find_append: "find P (xs @ ys) = (case find P xs of Some x \<Rightarrow> Some x | None \<Rightarrow> find P ys)"
  by (induction xs) auto

lemma find_cong_map:
  assumes "\<And>x. x \<in> set xs \<Longrightarrow> P (f x) = P x"
  shows "find P (map f xs) = map_option f (find P xs)"
  using assms by (induction xs) auto

end
