(* ===== verification/GoStd.thy ===== *)
theory GoStd
  imports Prelude
begin

text \<open>
  The functions of Go's \<open>strconv\<close> that the storages use to keep numbers in text columns
  (\<open>FormatUint\<close>, \<open>ParseUint\<close>, \<open>Itoa\<close>, \<open>Atoi\<close>), with the round trips the storages rely
  on, and the two string tables idiom of the enumerations: a table from enum values to
  names and the reversed table built from it by an \<open>init\<close> function.
\<close>

subsection \<open>Decimal text\<close>

definition digit_char :: "nat \<Rightarrow> char" where
  "digit_char d = ''0123456789'' ! d"

definition digit_val :: "char \<Rightarrow> nat option" where
  "digit_val c = map_of (zip ''0123456789'' [0..<10]) c"

lemma upt_10: "[0..<10] = [0, 1, 2, 3, 4, 5, 6, 7, 8, 9::nat]"
  by (simp add: upt_rec)

lemma digit_val_char:
  assumes "d < 10"
  shows "digit_val (digit_char d) = Some d"
proof -
  from assms have "d = 0 \<or> d = 1 \<or> d = 2 \<or> d = 3 \<or> d = 4 \<or> d = 5 \<or> d = 6 \<or> d = 7 \<or> d = 8 \<or> d = 9"
    by arith
  then show ?thesis by (elim disjE) (simp_all add: digit_val_def digit_char_def upt_10)
qed

fun formatBits :: "nat \<Rightarrow> string" where
  "formatBits n = (if n < 10 then [digit_char n] else formatBits (n div 10) @ [digit_char (n mod 10)])"

declare formatBits.simps [simp del]

definition FormatUint :: "uint64 \<Rightarrow> string" where
  "FormatUint n = formatBits (unat n)"

definition Itoa :: "int \<Rightarrow> string" where
  "Itoa i = (if i < 0 then CHR ''-'' # formatBits (nat (- i)) else formatBits (nat i))"

fun ParseUint_loop :: "nat \<Rightarrow> string \<Rightarrow> go_error + nat" where
  "ParseUint_loop n [] = Inr n"
| "ParseUint_loop n (c # cs) =
     (case digit_val c of
        None \<Rightarrow> Inl ErrSyntax
      | Some d \<Rightarrow> if 2 ^ 64 \<le> 10 * n + d then Inl ErrRange else ParseUint_loop (10 * n + d) cs)"

definition parseUint :: "string \<Rightarrow> go_error + nat" where
  "parseUint s = (if s = '''' then Inl ErrSyntax else ParseUint_loop 0 s)"

definition ParseUint :: "string \<Rightarrow> go_error + uint64" where
  "ParseUint s = (case parseUint s of Inl e \<Rightarrow> Inl e | Inr n \<Rightarrow> Inr (of_nat n))"

definition Atoi :: "string \<Rightarrow> go_error + int" where
  "Atoi s =
     (case s of
        [] \<Rightarrow> Inl ErrSyntax
      | c # cs \<Rightarrow>
          let neg = (c = CHR ''-''); t = (if c = CHR ''-'' \<or> c = CHR ''+'' then cs else s)
          in case parseUint t of
               Inl e \<Rightarrow> Inl e
             | Inr n \<Rightarrow>
                 if \<not> neg \<and> 2 ^ 63 \<le> n then Inl ErrRange
                 else if neg \<and> 2 ^ 63 < n then Inl ErrRange
                 else Inr (if neg then - int n else int n))"

text \<open>Code equations that compare with the bounds as integers, for evaluation.\<close>

lemma ParseUint_loop_code [code]:
  "ParseUint_loop n [] = Inr n"
  "ParseUint_loop n (c # cs) =
     (case digit_val c of
        None \<Rightarrow> Inl ErrSyntax
      | Some d \<Rightarrow> if 2 ^ 64 \<le> 10 * int n + int d then Inl ErrRange else ParseUint_loop (10 * n + d) cs)"
proof -
  have "(2 ^ 64 \<le> 10 * n + d) = (2 ^ 64 \<le> 10 * int n + int d)" for d
    unfolding of_nat_le_iff [symmetric, where 'a = int] by simp
  then show "ParseUint_loop n [] = Inr n"
    "ParseUint_loop n (c # cs) =
      (case digit_val c of
        None \<Rightarrow> Inl ErrSyntax
      | Some d \<Rightarrow> if 2 ^ 64 \<le> 10 * int n + int d then Inl ErrRange else ParseUint_loop (10 * n + d) cs)"
    by (simp_all split: option.splits)
qed

lemma Atoi_code [code]:
  "Atoi s =
     (case s of
        [] \<Rightarrow> Inl ErrSyntax
      | c # cs \<Rightarrow>
          let neg = (c = CHR ''-''); t = (if c = CHR ''-'' \<or> c = CHR ''+'' then cs else s)
          in case parseUint t of
               Inl e \<Rightarrow> Inl e
             | Inr n \<Rightarrow>
                 if \<not> neg \<and> 2 ^ 63 \<le> int n then Inl ErrRange
                 else if neg \<and> 2 ^ 63 < int n then Inl ErrRange
                 else Inr (if neg then - int n else int n))"
proof -
  have "(2 ^ 63 \<le> n) = (2 ^ 63 \<le> int n)" "(2 ^ 63 < n) = (2 ^ 63 < int n)" for n
    unfolding of_nat_le_iff [symmetric, where 'a = int] of_nat_less_iff [symmetric, where 'a = int]
    by simp_all
  then show ?thesis unfolding Atoi_def by presburger
qed

lemma Atoi_bounds: "Atoi s = Inr i \<Longrightarrow> - (2 ^ 63) \<le> i \<and> i < 2 ^ 63"
  by (auto simp: Atoi_def Let_def split: list.splits sum.splits if_splits)

lemma formatBits_nonempty: "formatBits n \<noteq> []"
  by (subst formatBits.simps) simp

lemma ParseUint_loop_append:
  "ParseUint_loop n (xs @ ys) =
     (case ParseUint_loop n xs of Inl e \<Rightarrow> Inl e | Inr m \<Rightarrow> ParseUint_loop m ys)"
  by (induction xs arbitrary: n) (auto split: option.splits)

lemma ParseUint_loop_formatBits: "n < 2 ^ 64 \<Longrightarrow> ParseUint_loop 0 (formatBits n) = Inr n"
proof (induction n rule: formatBits.induct)
  case (1 n)
  show ?case
  proof (cases "n < 10")
    case True
    then show ?thesis
      by (subst formatBits.simps) (simp add: digit_val_char)
  next
    case False
    with 1 have "ParseUint_loop 0 (formatBits (n div 10)) = Inr (n div 10)" by simp
    with False "1.prems" show ?thesis
      by (subst formatBits.simps) (simp add: ParseUint_loop_append digit_val_char)
  qed
qed

lemma parseUint_formatBits: "n < 2 ^ 64 \<Longrightarrow> parseUint (formatBits n) = Inr n"
  by (simp add: parseUint_def formatBits_nonempty ParseUint_loop_formatBits)

text \<open>A number written by \<open>FormatUint\<close> is read back unchanged, for every 64-bit value.\<close>

lemma ParseUint_FormatUint [simp]: "ParseUint (FormatUint n) = Inr n"
  using unsigned_less [of n, where ?'a = nat]
  by (simp add: ParseUint_def FormatUint_def parseUint_formatBits)

lemma hd_formatBits: "hd (formatBits n) \<in> set ''0123456789''"
proof (induction n rule: formatBits.induct)
  case (1 n)
  show ?case
  proof (cases "n < 10")
    case True
    then have "n < length ''0123456789''" by simp
    then have "digit_char n \<in> set ''0123456789''"
      unfolding digit_char_def by (rule nth_mem)
    with True show ?thesis by (subst formatBits.simps) simp
  next
    case False
    with 1 show ?thesis
      by (subst formatBits.simps) (simp add: formatBits_nonempty)
  qed
qed

lemma formatBits_no_sign: "formatBits n = c # cs \<Longrightarrow> c \<noteq> CHR ''-'' \<and> c \<noteq> CHR ''+''"
  using hd_formatBits [of n] by auto

lemma Atoi_Itoa:
  assumes "- (2 ^ 63) \<le> i" and "i < 2 ^ 63"
  shows "Atoi (Itoa i) = Inr i"
proof (cases "i < 0")
  case True
  with assms have "nat (- i) < 2 ^ 64" and "\<not> 2 ^ 63 < nat (- i)" by auto
  with True show ?thesis
    by (simp add: Atoi_def Itoa_def Let_def parseUint_formatBits)
next
  case False
  with assms have n: "nat i < 2 ^ 64" "\<not> 2 ^ 63 \<le> nat i" by auto
  obtain c cs where c: "formatBits (nat i) = c # cs"
    by (cases "formatBits (nat i)") (auto simp: formatBits_nonempty)
  with formatBits_no_sign have "c \<noteq> CHR ''-''" "c \<noteq> CHR ''+''" by blast+
  with False n c parseUint_formatBits [OF n(1)] show ?thesis
    by (simp add: Atoi_def Itoa_def Let_def)
qed

subsection \<open>Enumerations and their names\<close>

text \<open>
  Each enumeration of the program has a map from its values to names, and a second map
  that an \<open>init\<close> function fills with the reversed pairs. Reading a name back is correct
  because no two values share a name.
\<close>

definition reverse_table :: "('a \<times> string) list \<Rightarrow> (string \<times> 'a) list" where
  "reverse_table t = map (\<lambda>(x, s). (s, x)) t"

locale enum_names =
  fixes table :: "('a \<times> string) list"
  assumes distinct_values: "distinct (map fst table)"
    and distinct_names: "distinct (map snd table)"
begin

lemma reverse_lookup:
  assumes "map_of table x = Some s"
  shows "map_of (reverse_table table) s = Some x"
proof -
  from assms have "(x, s) \<in> set table" by (rule map_of_SomeD)
  then have "(s, x) \<in> set (reverse_table table)"
    by (force simp: reverse_table_def)
  moreover from distinct_names have "distinct (map fst (reverse_table table))"
    by (simp add: reverse_table_def comp_def case_prod_beta)
  ultimately show ?thesis by simp
qed

lemma forward_lookup:
  assumes "map_of (reverse_table table) s = Some x"
  shows "map_of table x = Some s"
proof -
  from assms have "(s, x) \<in> set (reverse_table table)" by (rule map_of_SomeD)
  then have "(x, s) \<in> set table" by (auto simp: reverse_table_def)
  with distinct_values show ?thesis by simp
qed

lemma lookup_iff: "map_of (reverse_table table) s = Some x \<longleftrightarrow> map_of table x = Some s"
  using reverse_lookup forward_lookup by blast

lemma names_injective: "map_of table x = Some s \<Longrightarrow> map_of table y = Some s \<Longrightarrow> x = y"
  by (drule reverse_lookup)+ simp

end

subsection \<open>Hexadecimal digits\<close>

definition hex_val :: "char \<Rightarrow> nat option" where
  "hex_val c = map_of (zip ''0123456789abcdefABCDEF'' ([0..<16] @ [10..<16])) c"

end
