(* ===== verification/Bitcoin.thy ===== *)
theory Bitcoin
  imports GoStd
begin

text \<open>
  Package \<open>bitcoin\<close>: the fee types (\<open>bitcoin/fee.go\<close>) and the type of
  amounts (\<open>bitcoin/formats.go\<close>), with the helpers of package \<open>util\<close> on integers.

  An amount is a number of satoshi in a \<open>uint64\<close>.
\<close>

subsection \<open>Integer helpers (package util)\<close>

definition Min :: "int \<Rightarrow> int \<Rightarrow> int" where
  "Min a b = (if a < b then a else b)"

definition Max :: "int \<Rightarrow> int \<Rightarrow> int" where
  "Max a b = (if a > b then a else b)"

definition Min64 :: "int \<Rightarrow> int \<Rightarrow> int" where
  "Min64 a b = (if a < b then a else b)"

definition Max64 :: "int \<Rightarrow> int \<Rightarrow> int" where
  "Max64 a b = (if a > b then a else b)"

text \<open>\<open>Abs64\<close> negates in two's complement, so it wraps on the least \<open>int64\<close>.\<close>

definition Abs64 :: "uint64 \<Rightarrow> uint64" where
  "Abs64 x = (if sint x < 0 then - x else x)"

lemma Min_min [simp]: "Min a b = min a b" and Min64_min [simp]: "Min64 a b = min a b"
  by (auto simp: Min_def Min64_def)

lemma Max_max [simp]: "Max a b = max a b" and Max64_max [simp]: "Max64 a b = max a b"
  by (auto simp: Max_def Max64_def)

subsection \<open>Fee types\<close>

datatype FeeType = InvalidFee | PerKBRateFee | FixedFee

definition MinimalFeeRate :: uint64 where
  "MinimalFeeRate = 1000"

definition feeTypeToStringMap :: "(FeeType \<times> string) list" where
  "feeTypeToStringMap =
     [(FixedFee, ''fixed''), (PerKBRateFee, ''per-kb-rate''), (InvalidFee, ''invalid'')]"

definition stringToFeeTypeMap :: "(string \<times> FeeType) list" where
  "stringToFeeTypeMap = reverse_table feeTypeToStringMap"

definition FeeType_String :: "FeeType \<Rightarrow> string" where
  "FeeType_String ft =
     (case map_of feeTypeToStringMap ft of None \<Rightarrow> ''invalid'' | Some s \<Rightarrow> s)"

text \<open>Both results of the Go function: the value and, separately, the error.\<close>

definition FeeTypeFromString :: "string \<Rightarrow> FeeType \<times> go_error option" where
  "FeeTypeFromString s =
     (case map_of stringToFeeTypeMap s of
        None \<Rightarrow> (InvalidFee, Some (GoError ''Failed to convert string to fee type''))
      | Some ft \<Rightarrow> (ft, None))"

interpretation fee_names: enum_names feeTypeToStringMap
  by unfold_locales (simp_all add: feeTypeToStringMap_def)

lemma FeeType_in_table: "map_of feeTypeToStringMap ft = Some (FeeType_String ft)"
  by (cases ft) (simp_all add: FeeType_String_def feeTypeToStringMap_def)

lemma FeeTypeFromString_String [simp]: "FeeTypeFromString (FeeType_String ft) = (ft, None)"
  using fee_names.reverse_lookup [OF FeeType_in_table]
  by (simp add: FeeTypeFromString_def stringToFeeTypeMap_def)

lemma FeeTypeFromString_ok:
  "snd (FeeTypeFromString s) = None \<longleftrightarrow> s = FeeType_String (fst (FeeTypeFromString s))"
proof -
  have "map_of stringToFeeTypeMap s = Some ft \<Longrightarrow> s = FeeType_String ft" for ft
    using fee_names.forward_lookup [of s ft] FeeType_in_table [of ft]
    by (simp add: stringToFeeTypeMap_def)
  then show ?thesis
    by (cases "map_of stringToFeeTypeMap s")
      (auto simp: FeeTypeFromString_def stringToFeeTypeMap_def feeTypeToStringMap_def
         FeeType_String_def reverse_table_def)
qed

subsection \<open>Amounts\<close>

type_synonym BTCAmount = uint64

subsection \<open>JSON of the fee type\<close>

text \<open>
  Reading a JSON string: \<open>null\<close> leaves the target string empty, any other kind of value
  is refused by \<open>encoding/json\<close>.
\<close>

fun unmarshal_string :: "json \<Rightarrow> go_error + string" where
  "unmarshal_string (JStr s) = Inr s"
| "unmarshal_string JNull = Inr []"
| "unmarshal_string _ = Inl (GoError ''json: cannot unmarshal into string'')"

definition FeeType_MarshalJSON :: "FeeType \<Rightarrow> json" where
  "FeeType_MarshalJSON ft = JStr (FeeType_String ft)"

definition FeeType_UnmarshalJSON :: "json \<Rightarrow> go_error + FeeType" where
  "FeeType_UnmarshalJSON j =
     (case unmarshal_string j of
        Inl e \<Rightarrow> Inl e
      | Inr s \<Rightarrow> (case FeeTypeFromString s of (ft, None) \<Rightarrow> Inr ft | (_, Some e) \<Rightarrow> Inl e))"

end
