(* ===== verification/WalletTypes.thy ===== *)
theory WalletTypes
  imports Bitcoin
begin

text \<open>
  Package \<open>wallet/types\<close>: transaction directions and statuses with their names, the
  structure \<open>Transaction\<close> and its updates, its construction from what the Bitcoin node
  reports, and the notification sent to clients; and the structure \<open>Account\<close> of package
  \<open>wallet\<close>. The pointer-receiver methods return the updated structure; a panic is an
  outcome of its own.

  \<open>Confirmations\<close> and \<open>ReportedConfirmations\<close> are \<open>int64\<close> in the code and \<open>int\<close> here:
  the only arithmetic on them is the counting loop of \<open>notifyTransaction\<close>, whose bound is
  the configured number of confirmations.
\<close>

subsection \<open>Directions and statuses\<close>

datatype TransactionDirection =
  IncomingDirection | OutgoingDirection | UnknownDirection | InvalidDirection

datatype TransactionStatus =
    NewTransaction
  | ConfirmedTransaction
  | FullyConfirmedTransaction
  | PendingTransaction
  | PendingColdStorageTransaction
  | PendingManualConfirmationTransaction
  | CancelledTransaction
  | InvalidTransaction

definition transactionDirectionToStringMap :: "(TransactionDirection \<times> string) list" where
  "transactionDirectionToStringMap =
     [(IncomingDirection, ''incoming''), (OutgoingDirection, ''outgoing''),
      (UnknownDirection, ''unknown'')]"

definition stringToTransactionDirectionMap :: "(string \<times> TransactionDirection) list" where
  "stringToTransactionDirectionMap = reverse_table transactionDirectionToStringMap"

definition transactionStatusToStringMap :: "(TransactionStatus \<times> string) list" where
  "transactionStatusToStringMap =
     [(NewTransaction, ''new''),
      (ConfirmedTransaction, ''confirmed''),
      (FullyConfirmedTransaction, ''fully-confirmed''),
      (PendingTransaction, ''pending''),
      (PendingColdStorageTransaction, ''pending-cold-storage''),
      (PendingManualConfirmationTransaction, ''pending-manual-confirmation''),
      (CancelledTransaction, ''cancelled'')]"

definition stringToTransactionStatusMap :: "(string \<times> TransactionStatus) list" where
  "stringToTransactionStatusMap = reverse_table transactionStatusToStringMap"

definition Direction_String :: "TransactionDirection \<Rightarrow> string" where
  "Direction_String td =
     (case map_of transactionDirectionToStringMap td of None \<Rightarrow> ''invalid'' | Some s \<Rightarrow> s)"

definition Status_String :: "TransactionStatus \<Rightarrow> string" where
  "Status_String ts =
     (case map_of transactionStatusToStringMap ts of None \<Rightarrow> ''invalid'' | Some s \<Rightarrow> s)"

definition TransactionDirectionFromString :: "string \<Rightarrow> go_error + TransactionDirection" where
  "TransactionDirectionFromString s =
     (case map_of stringToTransactionDirectionMap s of
        None \<Rightarrow> Inl (GoError ''Invalid transaction direction: '')
      | Some td \<Rightarrow> Inr td)"

definition TransactionStatusFromString :: "string \<Rightarrow> go_error + TransactionStatus" where
  "TransactionStatusFromString s =
     (case map_of stringToTransactionStatusMap s of
        None \<Rightarrow> Inl (GoError ''Invalid transaction status: '')
      | Some ts \<Rightarrow> Inr ts)"

definition Direction_MarshalJSON :: "TransactionDirection \<Rightarrow> json" where
  "Direction_MarshalJSON td = JStr (Direction_String td)"

definition Direction_UnmarshalJSON :: "json \<Rightarrow> go_error + TransactionDirection" where
  "Direction_UnmarshalJSON j =
     (case unmarshal_string j of Inl e \<Rightarrow> Inl e | Inr s \<Rightarrow> TransactionDirectionFromString s)"

definition Status_MarshalJSON :: "TransactionStatus \<Rightarrow> json" where
  "Status_MarshalJSON ts = JStr (Status_String ts)"

definition Status_UnmarshalJSON :: "json \<Rightarrow> go_error + TransactionStatus" where
  "Status_UnmarshalJSON j =
     (case unmarshal_string j of Inl e \<Rightarrow> Inl e | Inr s \<Rightarrow> TransactionStatusFromString s)"

text \<open>The numeric value of the enumeration constant (\<open>iota\<close>).\<close>

fun status_iota :: "TransactionStatus \<Rightarrow> int" where
  "status_iota NewTransaction = 0"
| "status_iota ConfirmedTransaction = 1"
| "status_iota FullyConfirmedTransaction = 2"
| "status_iota PendingTransaction = 3"
| "status_iota PendingColdStorageTransaction = 4"
| "status_iota PendingManualConfirmationTransaction = 5"
| "status_iota CancelledTransaction = 6"
| "status_iota InvalidTransaction = 7"

definition ToCoinpaymentsLikeType :: "TransactionDirection \<Rightarrow> string" where
  "ToCoinpaymentsLikeType td =
     (case td of
        IncomingDirection \<Rightarrow> ''deposit''
      | OutgoingDirection \<Rightarrow> ''withdrawal''
      | _ \<Rightarrow> ''unknown'')"

definition ToCoinpaymentsLikeCode :: "TransactionStatus \<Rightarrow> int" where
  "ToCoinpaymentsLikeCode ts =
     (if ts = FullyConfirmedTransaction then 100
      else if status_iota ts < 100 then status_iota ts
      else 99)"

interpretation direction_names: enum_names transactionDirectionToStringMap
  by unfold_locales (simp_all add: transactionDirectionToStringMap_def)

interpretation status_names: enum_names transactionStatusToStringMap
  by unfold_locales (simp_all add: transactionStatusToStringMap_def)

lemma Direction_in_table:
  "td \<noteq> InvalidDirection \<Longrightarrow> map_of transactionDirectionToStringMap td = Some (Direction_String td)"
  by (cases td) (simp_all add: Direction_String_def transactionDirectionToStringMap_def)

lemma Status_in_table:
  "ts \<noteq> InvalidTransaction \<Longrightarrow> map_of transactionStatusToStringMap ts = Some (Status_String ts)"
  by (cases ts) (simp_all add: Status_String_def transactionStatusToStringMap_def)

lemma DirectionFromString_String:
  "td \<noteq> InvalidDirection \<Longrightarrow> TransactionDirectionFromString (Direction_String td) = Inr td"
  using direction_names.reverse_lookup [OF Direction_in_table]
  by (simp add: TransactionDirectionFromString_def stringToTransactionDirectionMap_def)

lemma StatusFromString_String:
  "ts \<noteq> InvalidTransaction \<Longrightarrow> TransactionStatusFromString (Status_String ts) = Inr ts"
  using status_names.reverse_lookup [OF Status_in_table]
  by (simp add: TransactionStatusFromString_def stringToTransactionStatusMap_def)

lemma InvalidTransaction_no_name:
  "map_of transactionStatusToStringMap InvalidTransaction = None"
  by (simp add: transactionStatusToStringMap_def)

lemma InvalidDirection_no_name:
  "map_of transactionDirectionToStringMap InvalidDirection = None"
  by (simp add: transactionDirectionToStringMap_def)

lemma StatusFromString_iff:
  "TransactionStatusFromString s = Inr ts \<longleftrightarrow> ts \<noteq> InvalidTransaction \<and> s = Status_String ts"
  using status_names.lookup_iff [of s ts] Status_in_table [of ts] InvalidTransaction_no_name
  by (cases "ts = InvalidTransaction") (auto simp: TransactionStatusFromString_def stringToTransactionStatusMap_def
      split: option.splits)

lemma DirectionFromString_iff:
  "TransactionDirectionFromString s = Inr td \<longleftrightarrow> td \<noteq> InvalidDirection \<and> s = Direction_String td"
  using direction_names.lookup_iff [of s td] Direction_in_table [of td] InvalidDirection_no_name
  by (cases "td = InvalidDirection") (auto simp: TransactionDirectionFromString_def stringToTransactionDirectionMap_def
      split: option.splits)

lemma Status_String_inject:
  "Status_String a = Status_String b \<longleftrightarrow> a = b"
  by (cases a; cases b) (simp_all add: Status_String_def transactionStatusToStringMap_def)

lemma Direction_String_inject:
  "Direction_String a = Direction_String b \<longleftrightarrow> a = b"
  by (cases a; cases b) (simp_all add: Direction_String_def transactionDirectionToStringMap_def)

subsection \<open>Transactions and accounts\<close>

record Transaction =
  ID :: uuid
  Hash :: string
  BlockHash :: string
  Confirmations :: int
  Address :: string
  Direction :: TransactionDirection
  Status :: TransactionStatus
  Amount :: BTCAmount
  Metainfo :: json
  Fee :: BTCAmount
  FeeTypeOf :: FeeType
  ColdStorage :: bool
  Fresh :: bool
  ReportedConfirmations :: int

record TxNotification =
  tn_Transaction :: Transaction
  StatusCode :: int
  StatusStr :: string
  IpnType :: string
  Currency :: string
  IpnID :: string
  tn_Seq :: int

record Account =
  acc_Address :: string
  acc_Metainfo :: json

text \<open>\<open>tx.Update(other)\<close>: refuses (by a panic) to give a broadcast transaction another hash.\<close>

definition Transaction_Update :: "Transaction \<Rightarrow> Transaction \<Rightarrow> Transaction res" where
  "Transaction_Update tx other =
     (if Hash tx \<noteq> [] \<and> Hash tx \<noteq> Hash other
      then Panic ''Tx update called for transaction with other hash''
      else Ok (tx\<lparr>Hash := Hash other, BlockHash := BlockHash other,
                  Confirmations := Confirmations other, Status := Status other\<rparr>))"

text \<open>The fields of \<open>btcjson.GetTransactionResult\<close> and \<open>ListTransactionsResult\<close> that are read.\<close>

record GetTransactionResult =
  gt_TxID :: string
  gt_BlockHash :: string
  gt_Confirmations :: int

definition UpdateFromFullTxInfo :: "Transaction \<Rightarrow> GetTransactionResult \<Rightarrow> Transaction res" where
  "UpdateFromFullTxInfo tx other =
     (if Hash tx \<noteq> [] \<and> Hash tx \<noteq> gt_TxID other
      then Panic ''Tx update called for transaction with other hash''
      else Ok (tx\<lparr>BlockHash := gt_BlockHash other, Confirmations := gt_Confirmations other\<rparr>))"

text \<open>
  The node reports an amount as a floating-point number of bitcoins; the model keeps the
  result of \<open>btcutil.NewAmount\<close> on it, which is an \<open>int64\<close> of satoshi or an error.
\<close>

record ListTransactionsResult =
  lt_TxID :: string
  lt_BlockHash :: string
  lt_Confirmations :: int
  lt_Address :: string
  lt_Category :: string
  lt_NewAmount :: "go_error + uint64"

definition NewTransactionFromBTCJSON :: "ListTransactionsResult \<Rightarrow> Transaction" where
  "NewTransactionFromBTCJSON b =
     (let direction = (if lt_Category b = ''receive'' then IncomingDirection
                       else if lt_Category b = ''send'' then OutgoingDirection
                       else UnknownDirection);
          amount = (case lt_NewAmount b of Inl _ \<Rightarrow> 0 | Inr a \<Rightarrow> Abs64 a)
      in \<lparr>ID = uuid_Nil, Hash = lt_TxID b, BlockHash = lt_BlockHash b,
          Confirmations = lt_Confirmations b, Address = lt_Address b,
          Direction = direction, Status = NewTransaction, Amount = amount,
          Metainfo = JNull, Fee = 0, FeeTypeOf = InvalidFee, ColdStorage = False,
          Fresh = True, ReportedConfirmations = - 1\<rparr>)"

lemma Transaction_Update_Ok:
  "Transaction_Update tx other = Ok tx' \<Longrightarrow>
     ID tx' = ID tx \<and> Address tx' = Address tx \<and> Direction tx' = Direction tx \<and>
     Amount tx' = Amount tx \<and> Hash tx' = Hash other \<and> Status tx' = Status other \<and>
     Confirmations tx' = Confirmations other \<and>
     ReportedConfirmations tx' = ReportedConfirmations tx"
  by (auto simp: Transaction_Update_def split: if_splits)

text \<open>The statuses that only a withdrawal waiting to be sent can have.\<close>

definition pending_status :: "TransactionStatus \<Rightarrow> bool" where
  "pending_status ts \<longleftrightarrow>
     ts = PendingTransaction \<or> ts = PendingColdStorageTransaction \<or>
     ts = PendingManualConfirmationTransaction"

end
