(* ===== verification/EventTypes.thy ===== *)
theory EventTypes
  imports WalletTypes
begin

text \<open>
  Package \<open>events\<close>, file \<open>types.go\<close>: event types with their names, notifications and
  stored events.

  The data of an event is an \<open>interface{}\<close>; the program puts an account, a transaction
  notification or (when it reads an event whose type has no registered decoder) a decoded
  JSON value there. In the database the data is a JSONB value: the model keeps the Go value
  that was marshalled into it.
\<close>

datatype EventType =
    NewAddressEvent
  | NewIncomingTxEvent
  | IncomingTxConfirmedEvent
  | NewOutgoingTxEvent
  | OutgoingTxConfirmedEvent
  | PendingStatusUpdatedEvent
  | PendingTxCancelledEvent
  | InvalidEvent

definition eventTypeToStringMap :: "(EventType \<times> string) list" where
  "eventTypeToStringMap =
     [(NewAddressEvent, ''new-address''),
      (NewIncomingTxEvent, ''new-incoming-tx''),
      (IncomingTxConfirmedEvent, ''incoming-tx-confirmed''),
      (NewOutgoingTxEvent, ''new-outgoing-tx''),
      (OutgoingTxConfirmedEvent, ''outgoing-tx-confirmed''),
      (PendingStatusUpdatedEvent, ''tx-pending-status-updated''),
      (PendingTxCancelledEvent, ''pending-tx-cancelled'')]"

definition stringToEventTypeMap :: "(string \<times> EventType) list" where
  "stringToEventTypeMap = reverse_table eventTypeToStringMap"

definition EventType_String :: "EventType \<Rightarrow> string" where
  "EventType_String et =
     (case map_of eventTypeToStringMap et of None \<Rightarrow> ''invalid'' | Some s \<Rightarrow> s)"

definition EventTypeFromString :: "string \<Rightarrow> go_error + EventType" where
  "EventTypeFromString s =
     (case map_of stringToEventTypeMap s of
        None \<Rightarrow> Inl (GoError ''Failed to convert string to event type'')
      | Some et \<Rightarrow> Inr et)"

definition EventType_MarshalJSON :: "EventType \<Rightarrow> json" where
  "EventType_MarshalJSON et = JStr (EventType_String et)"

definition EventType_UnmarshalJSON :: "json \<Rightarrow> go_error + EventType" where
  "EventType_UnmarshalJSON j =
     (case unmarshal_string j of Inl e \<Rightarrow> Inl e | Inr s \<Rightarrow> EventTypeFromString s)"

datatype event_data =
    AccountData Account
  | TxData TxNotification
  | OtherData json

text \<open>The value of the top-level key \<open>id\<close> of the JSON form of the data, as a UUID
  (\<open>(data::jsonb)->>'id'\<close> in SQL; an account has no such key).\<close>

fun data_id :: "event_data \<Rightarrow> uuid option" where
  "data_id (TxData n) = Some (ID (tn_Transaction n))"
| "data_id (AccountData _) = None"
| "data_id (OtherData _) = None"

record Notification =
  n_Type :: EventType
  n_Data :: event_data

record NotificationWithSeq =
  ns_Type :: EventType
  ns_Data :: event_data
  ns_Seq :: int

interpretation event_names: enum_names eventTypeToStringMap
  by unfold_locales (simp_all add: eventTypeToStringMap_def)

lemma EventType_in_table:
  "et \<noteq> InvalidEvent \<Longrightarrow> map_of eventTypeToStringMap et = Some (EventType_String et)"
  by (cases et) (simp_all add: EventType_String_def eventTypeToStringMap_def)

lemma EventTypeFromString_String:
  "et \<noteq> InvalidEvent \<Longrightarrow> EventTypeFromString (EventType_String et) = Inr et"
  using event_names.reverse_lookup [OF EventType_in_table]
  by (simp add: EventTypeFromString_def stringToEventTypeMap_def)

end
