(* ===== verification/Json.thy ===== *)
theory Json
  imports GoStd
begin

text \<open>
  The reading side of \<open>encoding/json\<close> that the API uses: \<open>json.Unmarshal\<close> reads a text that
  holds one value, \<open>Decode\<close> of a \<open>json.Decoder\<close> the first value of a text. The value of a
  structure is then filled member by member, in the order of the text; names are compared
  without regard to case.

  Texts and strings are strings of bytes. The replacement of bytes that are no UTF-8 and the
  limit on the nesting depth are left out.
\<close>

subsection \<open>Lexical elements\<close>

definition skip_ws :: "string \<Rightarrow> string" where
  "skip_ws = dropWhile (\<lambda>c. c \<in> {CHR '' '', CHR 0x09, CHR 0x0A, CHR 0x0D})"

definition is_digit :: "char \<Rightarrow> bool" where
  "is_digit c \<longleftrightarrow> c \<in> set ''0123456789''"

definition starts_with :: "char set \<Rightarrow> string \<Rightarrow> bool" where
  "starts_with cs s \<longleftrightarrow> s \<noteq> [] \<and> hd s \<in> cs"

text \<open>\<open>-? (0 | [1-9][0-9]*) (. [0-9]+)? ([eE] [+-]? [0-9]+)?\<close>; the result is the rest of the text.\<close>

definition after_digits :: "string \<Rightarrow> string option" where
  "after_digits s = (if s \<noteq> [] \<and> is_digit (hd s) then Some (dropWhile is_digit s) else None)"

definition after_int :: "string \<Rightarrow> string option" where
  "after_int s = (if starts_with {CHR ''0''} s then Some (tl s) else after_digits s)"

definition after_frac :: "string \<Rightarrow> string option" where
  "after_frac s = (if starts_with {CHR ''.''} s then after_digits (tl s) else Some s)"

definition after_exp :: "string \<Rightarrow> string option" where
  "after_exp s =
     (if starts_with {CHR ''e'', CHR ''E''} s
      then after_digits (if starts_with {CHR ''+'', CHR ''-''} (tl s) then tl (tl s) else tl s)
      else Some s)"

definition parse_number :: "string \<Rightarrow> (string \<times> string) option" where
  "parse_number s =
     (case after_int (if starts_with {CHR ''-''} s then tl s else s) of
        None \<Rightarrow> None
      | Some s1 \<Rightarrow>
          (case after_frac s1 of
             None \<Rightarrow> None
           | Some s2 \<Rightarrow>
               (case after_exp s2 of
                  None \<Rightarrow> None
                | Some s3 \<Rightarrow> Some (take (length s - length s3) s, s3))))"

text \<open>A code point as UTF-8.\<close>

definition utf8 :: "nat \<Rightarrow> string" where
  "utf8 n =
     map (char_of :: nat \<Rightarrow> char)
       (if n < 0x80 then [n]
        else if n < 0x800 then [0xC0 + n div 0x40, 0x80 + n mod 0x40]
        else if n < 0x10000 then [0xE0 + n div 0x1000, 0x80 + n div 0x40 mod 0x40, 0x80 + n mod 0x40]
        else [0xF0 + n div 0x40000, 0x80 + n div 0x1000 mod 0x40, 0x80 + n div 0x40 mod 0x40,
              0x80 + n mod 0x40])"

definition hex4 :: "string \<Rightarrow> nat option" where
  "hex4 s =
     (if length s < 4 then None
      else case map hex_val (take 4 s) of
             [Some a, Some b, Some c, Some d] \<Rightarrow> Some (((a * 16 + b) * 16 + c) * 16 + d)
           | _ \<Rightarrow> None)"

definition low_surrogate :: "string \<Rightarrow> nat option" where
  "low_surrogate s =
     (if starts_with {CHR 0x5C} s \<and> starts_with {CHR ''u''} (tl s)
      then (case hex4 (drop 2 s) of
              Some n \<Rightarrow> if 0xDC00 \<le> n \<and> n < 0xE000 then Some n else None
            | None \<Rightarrow> None)
      else None)"

definition escapes :: "(char \<times> char) list" where
  "escapes = [(CHR 0x22, CHR 0x22), (CHR 0x5C, CHR 0x5C), (CHR ''/'', CHR ''/''), (CHR ''b'', CHR 0x08),
     (CHR ''f'', CHR 0x0C), (CHR ''n'', CHR 0x0A), (CHR ''r'', CHR 0x0D), (CHR ''t'', CHR 0x09)]"

text \<open>The characters of a string after its opening quote, and the text after the closing one.\<close>

function (sequential) parse_chars :: "string \<Rightarrow> (string \<times> string) option" where
  "parse_chars [] = None"
| "parse_chars (c # t) =
     (if c = CHR 0x22 then Some ([], t)
      else if c = CHR 0x5C then
        (case t of
           [] \<Rightarrow> None
         | e # u \<Rightarrow>
             if e = CHR ''u'' then
               (case hex4 u of
                  None \<Rightarrow> None
                | Some n \<Rightarrow>
                    (case (if 0xD800 \<le> n \<and> n < 0xDC00 then low_surrogate (drop 4 u) else None) of
                       Some l \<Rightarrow>
                         map_option (map_prod ((@) (utf8 (0x10000 + (n - 0xD800) * 0x400 + (l - 0xDC00)))) id)
                           (parse_chars (drop 10 u))
                     | None \<Rightarrow>
                         map_option (map_prod ((@) (utf8 (if 0xD800 \<le> n \<and> n < 0xE000 then 0xFFFD else n))) id)
                           (parse_chars (drop 4 u))))
             else (case map_of escapes e of
                     None \<Rightarrow> None
                   | Some d \<Rightarrow> map_option (map_prod ((#) d) id) (parse_chars u)))
      else if (of_char c :: nat) < 0x20 then None
      else map_option (map_prod ((#) c) id) (parse_chars t))"
  by pat_completeness auto
termination by (relation "measure length") auto

lemma parse_chars_shorter: "parse_chars s = Some (cs, r) \<Longrightarrow> length r < length s"
proof (induction s arbitrary: cs r rule: parse_chars.induct)
  case (2 c t)
  then show ?case
    by (fastforce split: if_splits list.splits option.splits)
qed simp

subsection \<open>Values\<close>

text \<open>
  The comparison of lengths always holds (\<open>parse_shorter\<close>); it is written for the recursion to
  be well-founded.
\<close>

function (sequential) parse_value :: "string \<Rightarrow> (json \<times> string) option"
  and parse_elements :: "string \<Rightarrow> (json list \<times> string) option"
  and parse_members :: "string \<Rightarrow> ((string \<times> json) list \<times> string) option" where
  "parse_value s =
     (case skip_ws s of
        [] \<Rightarrow> None
      | c # t \<Rightarrow>
          if length (c # t) \<le> length s then
          (if c = CHR ''{'' then
            (if starts_with {CHR ''}''} (skip_ws t) then Some (JObj [], tl (skip_ws t))
             else map_option (map_prod JObj id) (parse_members t))
          else if c = CHR ''['' then
            (if starts_with {CHR '']''} (skip_ws t) then Some (JArr [], tl (skip_ws t))
             else map_option (map_prod JArr id) (parse_elements t))
          else if c = CHR 0x22 then map_option (map_prod JStr id) (parse_chars t)
          else if take 4 (c # t) = ''true'' then Some (JBool True, drop 4 (c # t))
          else if take 5 (c # t) = ''false'' then Some (JBool False, drop 5 (c # t))
          else if take 4 (c # t) = ''null'' then Some (JNull, drop 4 (c # t))
          else map_option (map_prod JNum id) (parse_number (c # t)))
          else None)"
| "parse_elements s =
     (case parse_value s of
        None \<Rightarrow> None
      | Some (v, r) \<Rightarrow>
          (case skip_ws r of
             [] \<Rightarrow> None
           | c # u \<Rightarrow>
               if c = CHR '','' \<and> length u < length s
               then map_option (map_prod ((#) v) id) (parse_elements u)
               else if c = CHR '']'' then Some ([v], u)
               else None))"
| "parse_members s =
     (if starts_with {CHR 0x22} (skip_ws s) \<and> length (tl (skip_ws s)) < length s then
       (case parse_chars (tl (skip_ws s)) of
          None \<Rightarrow> None
        | Some (k, r) \<Rightarrow>
            if starts_with {CHR '':''} (skip_ws r) \<and> length (tl (skip_ws r)) < length s then
              (case parse_value (tl (skip_ws r)) of
                 None \<Rightarrow> None
               | Some (v, r2) \<Rightarrow>
                   (case skip_ws r2 of
                      [] \<Rightarrow> None
                    | c # u \<Rightarrow>
                        if c = CHR '','' \<and> length u < length s
                        then map_option (map_prod ((#) (k, v)) id) (parse_members u)
                        else if c = CHR ''}'' then Some ([(k, v)], u)
                        else None))
            else None)
      else None)"
  by pat_completeness auto
termination
  by (relation "measure (\<lambda>x. case x of Inl s \<Rightarrow> 2 * length s | Inr (Inl s) \<Rightarrow> 2 * length s + 1
        | Inr (Inr s) \<Rightarrow> 2 * length s + 1)") auto

declare parse_value.simps [simp del] parse_elements.simps [simp del] parse_members.simps [simp del]

lemma skip_ws_length: "length (skip_ws s) \<le> length s"
  by (simp add: skip_ws_def length_dropWhile_le)

lemma after_digits_shorter: "after_digits s = Some r \<Longrightarrow> length r < length s"
  by (cases s) (auto simp: after_digits_def length_dropWhile_le le_imp_less_Suc split: if_splits)

lemma after_int_shorter: "after_int s = Some r \<Longrightarrow> length r < length s"
  by (cases s) (auto simp: after_int_def starts_with_def dest: after_digits_shorter split: if_splits)

lemma after_frac_shorter: "after_frac s = Some r \<Longrightarrow> length r \<le> length s"
  by (auto simp: after_frac_def dest!: after_digits_shorter split: if_splits)

lemma after_exp_shorter: "after_exp s = Some r \<Longrightarrow> length r \<le> length s"
  by (auto simp: after_exp_def dest!: after_digits_shorter split: if_splits)

lemma parse_number_shorter: "parse_number s = Some (n, r) \<Longrightarrow> length r < length s"
  by (fastforce simp: parse_number_def dest!: after_int_shorter after_frac_shorter after_exp_shorter
      split: option.splits if_splits)

lemma length_tl_skip_ws: "starts_with cs (skip_ws s) \<Longrightarrow> length (tl (skip_ws s)) < length s"
  using skip_ws_length [of s] by (cases "skip_ws s") (auto simp: starts_with_def)

text \<open>Every value that is read takes some of the text: the comparisons above never fail.\<close>

lemma parse_shorter:
  "parse_value s = Some (v, r) \<Longrightarrow> length r < length s"
  "parse_elements s = Some (vs, r) \<Longrightarrow> length r < length s"
  "parse_members s = Some (ms, r) \<Longrightarrow> length r < length s"
proof (induction s and s and s arbitrary: v r and vs r and ms r
    rule: parse_value_parse_elements_parse_members.induct)
  case (1 s)
  note run = "1.prems" [unfolded parse_value.simps [of s]]
  obtain c t where ct: "skip_ws s = c # t" using run by (cases "skip_ws s") auto
  have t: "length t < length s" using skip_ws_length [of s] ct by simp
  have u: "length (tl (skip_ws t)) \<le> length t" using skip_ws_length [of t] by (cases "skip_ws t") auto
  have chars: "parse_chars t = Some (cs, r) \<Longrightarrow> length r < length s" for cs
    using parse_chars_shorter t by fastforce
  have number: "parse_number (c # t) = Some (n, r) \<Longrightarrow> length r < length s" for n
    using parse_number_shorter [of "c # t" n r] t by simp
  show ?case using run "1.IH"(1) [OF ct] "1.IH"(2) [OF ct] t u chars number
    by (auto simp: ct split: if_splits)
next
  case (2 s)
  note run = "2.prems" [unfolded parse_elements.simps [of s]]
  then obtain v r1 where v: "parse_value s = Some (v, r1)" by (auto split: option.splits)
  then obtain c u where cu: "skip_ws r1 = c # u" using run by (cases "skip_ws r1") auto
  have "length u < length s" using "2.IH"(1) [OF v] skip_ws_length [of r1] cu by simp
  with run v cu "2.IH"(2) [OF v _ cu] show ?case by (fastforce split: if_splits)
next
  case (3 s)
  note run = "3.prems" [unfolded parse_members.simps [of s]]
  then have s: "starts_with {CHR 0x22} (skip_ws s) \<and> length (tl (skip_ws s)) < length s"
    by (simp split: if_splits)
  then obtain k r1 where k: "parse_chars (tl (skip_ws s)) = Some (k, r1)" using run by (auto split: option.splits)
  then have r1: "starts_with {CHR '':''} (skip_ws r1) \<and> length (tl (skip_ws r1)) < length s"
    using run s by (simp split: if_splits)
  then obtain v r2 where v: "parse_value (tl (skip_ws r1)) = Some (v, r2)"
    using run s k by (auto split: option.splits)
  then obtain c u where cu: "skip_ws r2 = c # u" using run s k r1 by (cases "skip_ws r2") auto
  have "length u < length s" using "3.IH"(1) [OF s k _ r1 v] r1 skip_ws_length [of r2] cu by simp
  with run s k r1 v cu "3.IH"(2) [OF s k _ r1 v _ cu] show ?case by (fastforce split: if_splits)
qed

subsection \<open>Reading a text\<close>

definition json_Unmarshal :: "string \<Rightarrow> go_error + json" where
  "json_Unmarshal text =
     (case parse_value text of
        Some (v, r) \<Rightarrow> if skip_ws r = [] then Inr v else Inl (GoError ''invalid character after top-level value'')
      | None \<Rightarrow> Inl (GoError ''json: syntax error''))"

definition Decoder_Decode :: "string \<Rightarrow> go_error + json" where
  "Decoder_Decode text =
     (case parse_value text of Some (v, _) \<Rightarrow> Inr v | None \<Rightarrow> Inl (GoError ''json: syntax error''))"

subsection \<open>Filling a structure\<close>

definition fold_char :: "char \<Rightarrow> char" where
  "fold_char c =
     (let n = (of_char c :: nat) in if 65 \<le> n \<and> n \<le> 90 then char_of (n + 32) else c)"

definition same_name :: "string \<Rightarrow> string \<Rightarrow> bool" where
  "same_name k name \<longleftrightarrow> map fold_char k = name"

fun fill_members :: "(string \<Rightarrow> json \<Rightarrow> 'a \<Rightarrow> go_error + 'a) \<Rightarrow> (string \<times> json) list \<Rightarrow> 'a \<Rightarrow> go_error + 'a" where
  "fill_members f [] x = Inr x"
| "fill_members f ((k, j) # ms) x = (case f k j x of Inl e \<Rightarrow> Inl e | Inr y \<Rightarrow> fill_members f ms y)"

text \<open>\<open>null\<close> leaves a structure alone; any other value but an object is refused.\<close>

definition fill_struct :: "(string \<Rightarrow> json \<Rightarrow> 'a \<Rightarrow> go_error + 'a) \<Rightarrow> json \<Rightarrow> 'a \<Rightarrow> go_error + 'a" where
  "fill_struct f j x =
     (case j of
        JObj ms \<Rightarrow> fill_members f ms x
      | JNull \<Rightarrow> Inr x
      | _ \<Rightarrow> Inl (GoError ''json: cannot unmarshal into struct''))"

text \<open>Into a field of kind string: \<open>null\<close> leaves it alone.\<close>

fun fill_string :: "json \<Rightarrow> (string \<Rightarrow> 'a) \<Rightarrow> 'a \<Rightarrow> go_error + 'a" where
  "fill_string (JStr s) upd x = Inr (upd s)"
| "fill_string JNull upd x = Inr x"
| "fill_string _ upd x = Inl (GoError ''json: cannot unmarshal into string'')"

end
