(* ===== verification/Encoding.thy ===== *)
theory Encoding
  imports Json "HOL-Library.List_Lexorder" "HOL-Library.Char_ord"
begin

text \<open>
  The writing side of \<open>encoding/json\<close>: the text of a JSON value as \<open>json.Marshal\<close> writes it,
  and the proof that \<open>json.Unmarshal\<close> reads it back.

  A value that was decoded into an \<open>interface{}\<close> or a \<open>map[string]interface{}\<close> has its
  objects in Go maps, where a later member replaces an earlier one of the same name and whose
  members are written in the order of their names. Such a value is represented with its
  members in that order (\<open>interface_value\<close>).
\<close>

subsection \<open>Values in maps\<close>

text \<open>\<open>m[k] = v\<close> on a map.\<close>

fun put_member :: "string \<Rightarrow> 'a \<Rightarrow> (string \<times> 'a) list \<Rightarrow> (string \<times> 'a) list" where
  "put_member k v [] = [(k, v)]"
| "put_member k v ((k', v') # ms) =
     (if k < k' then (k, v) # (k', v') # ms
      else if k = k' then (k, v) # ms
      else (k', v') # put_member k v ms)"

definition map_members :: "(string \<times> 'a) list \<Rightarrow> (string \<times> 'a) list" where
  "map_members ms = fold (\<lambda>(k, v). put_member k v) ms []"

fun interface_value :: "json \<Rightarrow> json" where
  "interface_value (JArr vs) = JArr (map interface_value vs)"
| "interface_value (JObj ms) =
     JObj (map_members (map (map_prod id interface_value) ms))"
| "interface_value j = j"

lemma put_member_keys: "fst ` set (put_member k v ms) = insert k (fst ` set ms)"
proof (induction ms)
  case (Cons m ms)
  then show ?case by (cases m) (simp add: insert_commute)
qed simp

lemma put_member_sorted:
  "sorted_wrt (<) (map fst ms) \<Longrightarrow> sorted_wrt (<) (map fst (put_member k v ms))"
proof (induction ms)
  case (Cons m ms)
  then show ?case
    by (cases m) (auto simp: put_member_keys [unfolded image_def] image_def dest: order.strict_trans)
qed simp

lemma map_of_put_member:
  "sorted_wrt (<) (map fst ms) \<Longrightarrow> map_of (put_member k v ms) = (map_of ms)(k \<mapsto> v)"
  by (induction ms) (auto simp: fun_upd_twist)

lemma map_members_snoc: "map_members (ms @ [(k, v)]) = put_member k v (map_members ms)"
  by (simp add: map_members_def)

lemma map_members_sorted: "sorted_wrt (<) (map fst (map_members ms))"
proof (induction ms rule: rev_induct)
  case (snoc m ms)
  then show ?case by (cases m) (simp add: map_members_snoc put_member_sorted)
qed (simp add: map_members_def)

lemma map_of_map_members: "map_of (map_members ms) = map_of (rev ms)"
proof (induction ms rule: rev_induct)
  case (snoc m ms)
  then show ?case by (cases m) (simp add: map_members_snoc map_of_put_member [OF map_members_sorted])
qed (simp add: map_members_def)

lemma put_member_last: "\<forall>k' \<in> fst ` set ms. k' < k \<Longrightarrow> put_member k v ms = ms @ [(k, v)]"
  by (induction ms) auto

lemma map_members_id: "sorted_wrt (<) (map fst ms) \<Longrightarrow> map_members ms = ms"
proof (induction ms rule: rev_induct)
  case (snoc m ms)
  then have "map_members ms = ms" "\<forall>k' \<in> fst ` set ms. k' < fst m" by (auto simp: sorted_wrt_append)
  then show ?case using put_member_last [of ms "fst m" "snd m"] map_members_snoc [of ms "fst m" "snd m"] by simp
qed (simp add: map_members_def)

lemma set_put_member: "set (put_member k v ms) \<subseteq> insert (k, v) (set ms)"
  by (induction ms) (auto split: if_splits)

lemma set_map_members: "set (map_members ms) \<subseteq> set ms"
proof (induction ms rule: rev_induct)
  case (snoc m ms)
  then show ?case using set_put_member [of "fst m" "snd m" "map_members ms"] map_members_snoc [of ms "fst m" "snd m"] by auto
qed (simp add: map_members_def)

lemma interface_value_idem: "interface_value (interface_value j) = interface_value j"
proof (induction j)
  case (JObj ms)
  let ?ms = "map_members (map (map_prod id interface_value) ms)"
  have "map_prod id interface_value m = m" if "m \<in> set ?ms" for m
  proof -
    from that set_map_members obtain k v where "m = (k, interface_value v)" "(k, v) \<in> set ms" by fastforce
    with JObj show ?thesis by (auto simp: prod_set_defs)
  qed
  then have "map (map_prod id interface_value) ?ms = ?ms" by (simp add: map_idI)
  then show ?case by (simp add: map_members_id [OF map_members_sorted])
qed auto

subsection \<open>Texts\<close>

definition hex_digit :: "nat \<Rightarrow> char" where
  "hex_digit n = ''0123456789abcdef'' ! n"

definition u_escape :: "nat \<Rightarrow> string" where
  "u_escape n = [CHR 0x5C, CHR ''u'', hex_digit (n div 0x1000 mod 16), hex_digit (n div 0x100 mod 16),
     hex_digit (n div 16 mod 16), hex_digit (n mod 16)]"

text \<open>
  Quotes and backslashes, control characters, the three characters that matter to HTML, and the
  two line separators of Unicode are escaped.
\<close>

fun escape_chars :: "string \<Rightarrow> string" where
  "escape_chars [] = []"
| "escape_chars (c # s) =
     (if c = CHR 0x22 \<or> c = CHR 0x5C then CHR 0x5C # c # escape_chars s
      else if c = CHR 0x0A then CHR 0x5C # CHR ''n'' # escape_chars s
      else if c = CHR 0x0D then CHR 0x5C # CHR ''r'' # escape_chars s
      else if c = CHR 0x09 then CHR 0x5C # CHR ''t'' # escape_chars s
      else if (of_char c :: nat) < 0x20 \<or> c \<in> {CHR ''<'', CHR ''>'', CHR ''&''}
        then u_escape (of_char c) @ escape_chars s
      else if c = CHR 0xE2 \<and> take 2 s = [CHR 0x80, CHR 0xA8] then u_escape 0x2028 @ escape_chars (drop 2 s)
      else if c = CHR 0xE2 \<and> take 2 s = [CHR 0x80, CHR 0xA9] then u_escape 0x2029 @ escape_chars (drop 2 s)
      else c # escape_chars s)"

definition string_text :: "string \<Rightarrow> string" where
  "string_text s = CHR 0x22 # escape_chars s @ [CHR 0x22]"

fun commas :: "string list \<Rightarrow> string" where
  "commas [] = []"
| "commas [x] = x"
| "commas (x # y # zs) = x @ CHR '','' # commas (y # zs)"

fun json_Marshal :: "json \<Rightarrow> string" where
  "json_Marshal JNull = ''null''"
| "json_Marshal (JBool b) = (if b then ''true'' else ''false'')"
| "json_Marshal (JNum s) = s"
| "json_Marshal (JStr s) = string_text s"
| "json_Marshal (JArr vs) = CHR ''['' # commas (map json_Marshal vs) @ '']''"
| "json_Marshal (JObj ms) =
     CHR ''{'' # commas (map (\<lambda>(k, v). string_text k @ CHR '':'' # json_Marshal v) ms) @ ''}''"

text \<open>The values that have a text: a number is a JSON literal.\<close>

fun json_ok :: "json \<Rightarrow> bool" where
  "json_ok (JNum s) \<longleftrightarrow> parse_number s = Some (s, [])"
| "json_ok (JArr vs) \<longleftrightarrow> (\<forall>v \<in> set vs. json_ok v)"
| "json_ok (JObj ms) \<longleftrightarrow> (\<forall>(k, v) \<in> set ms. json_ok v)"
| "json_ok _ \<longleftrightarrow> True"

lemma json_ok_interface_value: "json_ok j \<Longrightarrow> json_ok (interface_value j)"
proof (induction j)
  case (JObj ms)
  then have "\<forall>m \<in> set (map (map_prod id interface_value) ms). json_ok (snd m)" by (auto simp: prod_set_defs)
  with set_map_members [of "map (map_prod id interface_value) ms"] show ?case by fastforce
qed auto

subsection \<open>Strings read back\<close>

lemma hex_digits: "list_all (\<lambda>n. hex_val (hex_digit n) = Some n) [0..<16]"
  by code_simp

lemma hex_digit_val: "n < 16 \<Longrightarrow> hex_val (hex_digit n) = Some n"
  using hex_digits by (simp add: list_all_iff del: upt_Suc)

lemma hex4_digits:
  "a < 16 \<Longrightarrow> b < 16 \<Longrightarrow> c < 16 \<Longrightarrow> d < 16 \<Longrightarrow>
     hex4 (hex_digit a # hex_digit b # hex_digit c # hex_digit d # t) = Some (((a * 16 + b) * 16 + c) * 16 + d)"
  by (simp add: hex4_def hex_digit_val)

lemma div16: "(n :: nat) div (16 * k) * 16 + n div k mod 16 = n div k"
  using div_mult_mod_eq [of "n div k" 16] by (simp add: div_mult2_eq mult.commute)

lemma hex4_u_escape:
  assumes "n < 0x10000"
  shows "hex4 (drop 2 (u_escape n) @ t) = Some n"
proof -
  have top: "n div 0x1000 mod 16 = n div 0x1000" using assms by simp
  then have "((n div 0x1000 mod 16 * 16 + n div 0x100 mod 16) * 16 + n div 16 mod 16) * 16 + n mod 16 = n"
    using div16 [of n "0x100"] div16 [of n 16] by simp
  moreover have "n div 0x1000 < 16" using assms by simp
  ultimately show ?thesis by (simp add: u_escape_def hex4_digits top)
qed

lemma parse_chars_u:
  "hex4 u = Some n \<Longrightarrow> n < 0xD800 \<Longrightarrow>
     parse_chars (CHR 0x5C # CHR ''u'' # u) = map_option (map_prod ((@) (utf8 n)) id) (parse_chars (drop 4 u))"
  by simp

lemma parse_chars_u_escape:
  assumes "n < 0xD800"
  shows "parse_chars (u_escape n @ t) = map_option (map_prod ((@) (utf8 n)) id) (parse_chars t)"
proof -
  have "hex4 (drop 2 (u_escape n) @ t) = Some n" using assms by (intro hex4_u_escape) simp
  from parse_chars_u [OF this assms] show ?thesis by (simp add: u_escape_def del: parse_chars.simps)
qed

lemma utf8_char: "(of_char c :: nat) < 0x80 \<Longrightarrow> utf8 (of_char c) = [c]"
  by (simp add: utf8_def)

lemma utf8_separators:
  "utf8 0x2028 = [CHR 0xE2, CHR 0x80, CHR 0xA8]" "utf8 0x2029 = [CHR 0xE2, CHR 0x80, CHR 0xA9]"
  by (simp_all add: utf8_def char_of_def bit_iff_odd)

lemma parse_chars_plain:
  "c \<noteq> CHR 0x22 \<Longrightarrow> c \<noteq> CHR 0x5C \<Longrightarrow> \<not> (of_char c :: nat) < 0x20 \<Longrightarrow>
     parse_chars (c # t) = map_option (map_prod ((#) c) id) (parse_chars t)"
  by simp

lemma parse_chars_escaped:
  "map_of escapes e = Some d \<Longrightarrow> e \<noteq> CHR ''u'' \<Longrightarrow>
     parse_chars (CHR 0x5C # e # t) = map_option (map_prod ((#) d) id) (parse_chars t)"
  by simp

lemma html_chars: "(of_char CHR ''<'' :: nat) < 0x80" "(of_char CHR ''>'' :: nat) < 0x80" "(of_char CHR ''&'' :: nat) < 0x80"
  by simp_all

lemma parse_chars_escape: "parse_chars (escape_chars s @ CHR 0x22 # r) = Some (s, r)"
proof (induction s rule: escape_chars.induct)
  case (2 c s)
  note [simp del] = parse_chars.simps
  have split: "take 2 s = [a, b] \<Longrightarrow> a # b # drop 2 s = s" for a b
    by (metis append_Cons append_Nil append_take_drop_id)
  let ?special = "{CHR 0x22, CHR 0x5C, CHR 0x0A, CHR 0x0D, CHR 0x09}"
  let ?u = "(of_char c :: nat) < 0x20 \<or> c \<in> {CHR ''<'', CHR ''>'', CHR ''&''}"
  show ?case
  proof (cases "c \<in> ?special")
    case True
    then show ?thesis using "2.IH"(1-4) by (elim insertE) (simp_all add: parse_chars_escaped escapes_def)
  next
    case ns: False
    show ?thesis
    proof (cases ?u)
      case True
      then have "(of_char c :: nat) < 0x80" using html_chars by auto
      with True ns "2.IH"(5) show ?thesis by (simp add: parse_chars_u_escape utf8_char)
    next
      case nu: False
      then have plain: "parse_chars (c # t) = map_option (map_prod ((#) c) id) (parse_chars t)" for t
        using ns by (intro parse_chars_plain) auto
      consider "c = CHR 0xE2" "take 2 s = [CHR 0x80, CHR 0xA8]" | "c = CHR 0xE2" "take 2 s = [CHR 0x80, CHR 0xA9]"
        | "\<not> (c = CHR 0xE2 \<and> take 2 s = [CHR 0x80, CHR 0xA8])" "\<not> (c = CHR 0xE2 \<and> take 2 s = [CHR 0x80, CHR 0xA9])"
        by blast
      then show ?thesis
      proof cases
        case 1
        from 1 split [of "CHR 0x80" "CHR 0xA8"] "2.IH"(6) [OF _ _ _ _ nu] ns show ?thesis
          by (simp add: parse_chars_u_escape utf8_separators)
      next
        case 2
        from 2 split [of "CHR 0x80" "CHR 0xA9"] "2.IH"(7) [OF _ _ _ _ nu] ns show ?thesis
          by (simp add: parse_chars_u_escape utf8_separators)
      next
        case 3
        from 3 nu ns "2.IH"(8) [OF _ _ _ _ nu] have "escape_chars (c # s) = c # escape_chars s"
          "parse_chars (escape_chars s @ CHR 0x22 # r) = Some (s, r)" by auto
        then show ?thesis by (simp add: plain)
      qed
    qed
  qed
qed simp

subsection \<open>Values read back\<close>

text \<open>White space, and what may follow a value in a text.\<close>

definition blank :: "string \<Rightarrow> bool" where
  "blank w \<longleftrightarrow> (\<forall>c \<in> set w. c \<in> {CHR '' '', CHR 0x09, CHR 0x0A, CHR 0x0D})"

definition ends :: "string \<Rightarrow> bool" where
  "ends r \<longleftrightarrow> r = [] \<or> hd r \<in> {CHR '','', CHR '']'', CHR ''}'', CHR '' '', CHR 0x09, CHR 0x0A, CHR 0x0D}"

lemma ends_simps [simp]: "ends []" "ends (CHR '','' # r)" "ends (CHR '']'' # r)" "ends (CHR ''}'' # r)"
  by (simp_all add: ends_def)

lemma ends_blank: "blank w \<Longrightarrow> ends r \<Longrightarrow> ends (w @ r)"
  by (cases w) (auto simp: ends_def blank_def)

lemma skip_ws_blank: "blank w \<Longrightarrow> skip_ws (w @ r) = skip_ws r"
  unfolding skip_ws_def blank_def by (simp add: dropWhile_append2)

lemma ends_no_digit: "ends r \<Longrightarrow> dropWhile is_digit r = r"
  by (cases r) (auto simp: ends_def is_digit_def)

lemma ends_starts: "ends r \<Longrightarrow> cs \<inter> {CHR '','', CHR '']'', CHR ''}'', CHR '' '', CHR 0x09, CHR 0x0A, CHR 0x0D} = {} \<Longrightarrow>
    \<not> starts_with cs r"
  by (cases r) (auto simp: ends_def starts_with_def)

lemma after_digits_append:
  "after_digits s = Some u \<Longrightarrow> ends r \<Longrightarrow> after_digits (s @ r) = Some (u @ r)"
  by (auto simp: after_digits_def dropWhile_append ends_no_digit split: if_splits)

lemma starts_with_append: "s \<noteq> [] \<Longrightarrow> starts_with cs (s @ r) = starts_with cs s"
  by (simp add: starts_with_def)

lemma after_int_append: "after_int s = Some u \<Longrightarrow> ends r \<Longrightarrow> after_int (s @ r) = Some (u @ r)"
  by (cases "s = []") (auto simp: after_int_def starts_with_append after_digits_append after_digits_def [of "[]"]
      starts_with_def [of _ "[]"] split: if_splits)

lemma after_frac_append: "after_frac s = Some u \<Longrightarrow> ends r \<Longrightarrow> after_frac (s @ r) = Some (u @ r)"
  using ends_starts [of r "{CHR ''.''}"]
  by (cases "s = []") (auto simp: after_frac_def starts_with_append after_digits_append starts_with_def [of _ "[]"]
      split: if_splits)

lemma after_exp_append: "after_exp s = Some u \<Longrightarrow> ends r \<Longrightarrow> after_exp (s @ r) = Some (u @ r)"
proof (cases s)
  case (Cons c t)
  moreover assume "after_exp s = Some u" "ends r"
  moreover have "starts_with {CHR ''+'', CHR ''-''} (t @ r) = starts_with {CHR ''+'', CHR ''-''} t"
    using ends_starts [OF \<open>ends r\<close>, of "{CHR ''+'', CHR ''-''}"] by (cases t) (auto simp: starts_with_def)
  ultimately show ?thesis
    using after_digits_append [of t u r]
    by (cases t) (auto simp: after_exp_def after_digits_append starts_with_def after_digits_def [of "[]"] split: if_splits)
qed (use ends_starts [of r "{CHR ''e'', CHR ''E''}"] in \<open>auto simp: after_exp_def starts_with_def [of _ "[]"]\<close>)

lemma parse_number_append:
  assumes "parse_number s = Some (s, [])" "ends r"
  shows "parse_number (s @ r) = Some (s, r)"
proof -
  let ?s = "if starts_with {CHR ''-''} s then tl s else s"
  from assms(1) obtain s1 s2 s3 where p: "after_int ?s = Some s1" "after_frac s1 = Some s2" "after_exp s2 = Some s3" "s3 = []"
    by (auto simp: parse_number_def split: option.splits)
  then have "s \<noteq> []" by (auto simp: after_int_def after_digits_def starts_with_def split: if_splits)
  then have "(if starts_with {CHR ''-''} (s @ r) then tl (s @ r) else s @ r) = ?s @ r"
    by (simp add: starts_with_append)
  with after_int_append [OF p(1) assms(2)] after_frac_append [OF p(2) assms(2)] after_exp_append [OF p(3) assms(2)] p(4)
  show ?thesis by (simp add: parse_number_def)
qed

lemma parse_number_hd:
  "parse_number s = Some x \<Longrightarrow> s \<noteq> [] \<and> (hd s = CHR ''-'' \<or> is_digit (hd s))"
  by (cases s) (auto simp: parse_number_def after_int_def after_digits_def starts_with_def is_digit_def
      split: if_splits option.splits)

text \<open>Every text starts with a character that tells its kind, and not with white space.\<close>

lemma skip_ws_Cons: "c \<notin> {CHR '' '', CHR 0x09, CHR 0x0A, CHR 0x0D} \<Longrightarrow> skip_ws (c # t) = c # t"
  by (simp add: skip_ws_def)

text \<open>The equations of the parser without the comparisons of lengths, and white space in front.\<close>

lemma parse_elements_eq:
  "parse_elements s =
     (case parse_value s of
        None \<Rightarrow> None
      | Some (v, r) \<Rightarrow>
          (case skip_ws r of
             [] \<Rightarrow> None
           | c # u \<Rightarrow>
               if c = CHR '','' then map_option (map_prod ((#) v) id) (parse_elements u)
               else if c = CHR '']'' then Some ([v], u) else None))"
proof -
  have "length u < length s" if "parse_value s = Some (v, r)" "skip_ws r = c # u" for v r c u
    using parse_shorter(1) [OF that(1)] skip_ws_length [of r] that(2) by simp
  then show ?thesis by (subst parse_elements.simps) (auto split: option.split list.split)
qed

lemma parse_value_blank:
  assumes "blank w"
  shows "parse_value (w @ s) = parse_value s"
proof (cases "skip_ws s")
  case Nil
  then show ?thesis using assms by (simp add: parse_value.simps [of "w @ s"] parse_value.simps [of s] skip_ws_blank)
next
  case (Cons c t)
  then have "length (c # t) \<le> length (w @ s)" "length (c # t) \<le> length s" using skip_ws_length [of s] by simp_all
  then show ?thesis using assms Cons
    by (simp only: parse_value.simps [of "w @ s"] parse_value.simps [of s] skip_ws_blank if_True list.case)
qed

definition reads_back :: "string \<Rightarrow> json \<Rightarrow> bool" where
  "reads_back t j \<longleftrightarrow> (\<forall>r. ends r \<longrightarrow> parse_value (t @ r) = Some (j, r))"

lemma reads_backD: "reads_back t j \<Longrightarrow> blank w \<Longrightarrow> ends r \<Longrightarrow> parse_value (w @ t @ r) = Some (j, r)"
  by (simp add: reads_back_def parse_value_blank)

lemma parse_number_value:
  assumes "parse_number s = Some (s, [])" "ends r"
  shows "parse_value (s @ r) = Some (JNum s, r)"
proof -
  from parse_number_hd [OF assms(1)] obtain c t where ct: "s = c # t" "c = CHR ''-'' \<or> is_digit c" by (cases s) auto
  from parse_number_append [OF assms] ct have p: "parse_number (c # t @ r) = Some (s, r)" by simp
  from ct(2) have "c \<notin> set ''{[tfn'' \<union> {CHR 0x22}" "c \<notin> {CHR '' '', CHR 0x09, CHR 0x0A, CHR 0x0D}"
    by (auto simp: is_digit_def)
  then show ?thesis using p by (subst parse_value.simps) (auto simp: ct(1) skip_ws_Cons)
qed

text \<open>One member of an object, between white space.\<close>

lemma parse_members_first:
  assumes "reads_back t v" "blank w" "blank sp" "ends r"
  shows "parse_members (w @ string_text k @ CHR '':'' # sp @ t @ r) =
    (case skip_ws r of
       [] \<Rightarrow> None
     | c # u \<Rightarrow>
         if c = CHR '','' then map_option (map_prod ((#) (k, v)) id) (parse_members u)
         else if c = CHR ''}'' then Some ([(k, v)], u) else None)"
proof -
  let ?u = "CHR '':'' # sp @ t @ r"
  let ?t = "escape_chars k @ CHR 0x22 # ?u"
  have s: "w @ string_text k @ ?u = w @ CHR 0x22 # ?t" by (simp add: string_text_def)
  have "skip_ws (w @ CHR 0x22 # ?t) = CHR 0x22 # ?t" using assms(2) by (simp add: skip_ws_blank skip_ws_Cons)
  moreover have "parse_chars ?t = Some (k, ?u)" using parse_chars_escape [of k ?u] by simp
  moreover have "skip_ws ?u = ?u" by (rule skip_ws_Cons) simp
  moreover have "parse_value (sp @ t @ r) = Some (v, r)" using assms by (simp add: reads_backD)
  moreover have "skip_ws r = c # u \<Longrightarrow> length u < length r" for c u using skip_ws_length [of r] by simp
  ultimately show ?thesis unfolding s
    by (subst parse_members.simps) (fastforce simp: starts_with_def split: list.split)
qed

text \<open>
  The text of a value with white space \<open>br d\<close> before each part of an array or object at depth \<open>d\<close>
  and \<open>sp\<close> after each name.
\<close>

fun json_text :: "(nat \<Rightarrow> string) \<Rightarrow> string \<Rightarrow> nat \<Rightarrow> json \<Rightarrow> string" where
  "json_text br sp d JNull = ''null''"
| "json_text br sp d (JBool b) = (if b then ''true'' else ''false'')"
| "json_text br sp d (JNum s) = s"
| "json_text br sp d (JStr s) = string_text s"
| "json_text br sp d (JArr vs) =
     (if vs = [] then ''[]''
      else CHR ''['' # commas (map (\<lambda>v. br (Suc d) @ json_text br sp (Suc d) v) vs) @ br d @ '']'')"
| "json_text br sp d (JObj ms) =
     (if ms = [] then ''{}''
      else CHR ''{'' # commas (map (\<lambda>(k, v). br (Suc d) @ string_text k @ CHR '':'' # sp @ json_text br sp (Suc d) v) ms)
             @ br d @ ''}'')"

lemma json_text_hd:
  assumes "json_ok j"
  shows "\<exists>c t. json_text br sp d j = c # t \<and> c \<notin> {CHR '' '', CHR 0x09, CHR 0x0A, CHR 0x0D, CHR '']'', CHR ''}''}"
proof (cases j)
  case (JNum s)
  with assms parse_number_hd [of s] obtain c t where "s = c # t" "c = CHR ''-'' \<or> is_digit c" by (cases s) auto
  with JNum show ?thesis by (auto simp: is_digit_def)
qed (simp_all add: string_text_def)

lemma commas_Cons: "commas (x # xs) = x @ (if xs = [] then [] else CHR '','' # commas xs)"
  by (cases xs) simp_all

locale json_layout =
  fixes br :: "nat \<Rightarrow> string" and sp :: string
  assumes br: "blank (br d)" and sp: "blank sp"
begin

lemma elements_read:
  assumes "vs \<noteq> []" "\<forall>v \<in> set vs. reads_back (f v) v"
  shows "parse_elements (commas (map (\<lambda>v. br d' @ f v) vs) @ br d @ CHR '']'' # r) = Some (vs, r)"
  using assms
proof (induction vs)
  case (Cons v vs)
  let ?close = "br d @ CHR '']'' # r"
  let ?rest = "if vs = [] then ?close else CHR '','' # commas (map (\<lambda>v. br d' @ f v) vs) @ ?close"
  have "ends ?rest" using br by (simp add: ends_blank)
  with Cons.prems(2) br have v: "parse_value (br d' @ f v @ ?rest) = Some (v, ?rest)" by (intro reads_backD) auto
  have "commas (map (\<lambda>v. br d' @ f v) (v # vs)) @ ?close = br d' @ f v @ ?rest"
    by (simp add: commas_Cons)
  with v Cons.IH Cons.prems(2) br show ?case
    by (subst parse_elements_eq) (auto simp: skip_ws_blank skip_ws_Cons split: if_splits)
qed simp

lemma members_read:
  assumes "ms \<noteq> []" "\<forall>m \<in> set ms. reads_back (f (snd m)) (snd m)"
  shows "parse_members (commas (map (\<lambda>(k, v). br d' @ string_text k @ CHR '':'' # sp @ f v) ms) @ br d @ CHR ''}'' # r) = Some (ms, r)"
  using assms
proof (induction ms)
  case (Cons m ms)
  obtain k v where m: "m = (k, v)" by (cases m)
  let ?text = "\<lambda>(k, v). br d' @ string_text k @ CHR '':'' # sp @ f v"
  let ?close = "br d @ CHR ''}'' # r"
  let ?rest = "if ms = [] then ?close else CHR '','' # commas (map ?text ms) @ ?close"
  have v: "reads_back (f v) v" using Cons.prems(2) m by simp
  have "ends ?rest" using br by (simp add: ends_blank)
  note first = parse_members_first [OF v br sp this, of d' k]
  have "commas (map ?text (m # ms)) @ ?close = br d' @ string_text k @ CHR '':'' # sp @ f v @ ?rest"
    by (simp add: commas_Cons m)
  with first Cons.IH Cons.prems(2) br show ?case
    by (auto simp: m skip_ws_blank skip_ws_Cons split: if_splits)
qed simp

lemma text_reads_back: "json_ok j \<Longrightarrow> reads_back (json_text br sp d j) j"
proof (induction j arbitrary: d)
  case (JNum s)
  then show ?case by (simp add: reads_back_def parse_number_value)
next
  case (JStr s)
  have "parse_value (CHR 0x22 # escape_chars s @ CHR 0x22 # r) = Some (JStr s, r)" for r
    by (subst parse_value.simps) (simp add: skip_ws_Cons parse_chars_escape)
  then show ?case by (simp add: reads_back_def string_text_def)
next
  case (JArr vs)
  show ?case
  proof (cases vs)
    case Nil
    then show ?thesis by (simp add: reads_back_def parse_value.simps skip_ws_def starts_with_def)
  next
    case (Cons v vs')
    let ?body = "\<lambda>r. commas (map (\<lambda>v. br (Suc d) @ json_text br sp (Suc d) v) vs) @ br d @ CHR '']'' # r"
    from json_text_hd [of v br sp "Suc d"] JArr.prems Cons obtain c t where
      c: "json_text br sp (Suc d) v = c # t" "c \<notin> {CHR '' '', CHR 0x09, CHR 0x0A, CHR 0x0D, CHR '']'', CHR ''}''}" by auto
    then have "\<not> starts_with {CHR '']''} (skip_ws (?body r))" for r
      using br by (simp add: Cons commas_Cons skip_ws_blank skip_ws_Cons starts_with_def)
    moreover have "parse_elements (?body r) = Some (vs, r)" for r
      using JArr Cons by (intro elements_read) auto
    ultimately show ?thesis unfolding reads_back_def
      by (subst parse_value.simps) (simp add: Cons skip_ws_Cons)
  qed
next
  case (JObj ms)
  show ?case
  proof (cases ms)
    case Nil
    then show ?thesis by (simp add: reads_back_def parse_value.simps skip_ws_def starts_with_def)
  next
    case (Cons m ms')
    let ?body = "\<lambda>r. commas (map (\<lambda>(k, v). br (Suc d) @ string_text k @ CHR '':'' # sp @ json_text br sp (Suc d) v) ms)
      @ br d @ CHR ''}'' # r"
    have "\<not> starts_with {CHR ''}''} (skip_ws (?body r))" for r
      using br by (cases m) (simp add: Cons commas_Cons skip_ws_blank skip_ws_Cons starts_with_def string_text_def)
    moreover have "parse_members (?body r) = Some (ms, r)" for r
    proof (rule members_read)
      show "\<forall>m \<in> set ms. reads_back (json_text br sp (Suc d) (snd m)) (snd m)"
        using JObj by (auto simp: prod_set_defs)
    qed (simp add: Cons)
    ultimately show ?thesis unfolding reads_back_def
      by (subst parse_value.simps) (simp add: Cons skip_ws_Cons)
  qed
qed (simp_all add: reads_back_def parse_value.simps skip_ws_def)

lemma text_reads:
  assumes "json_ok j"
  shows "json_Unmarshal (json_text br sp d j) = Inr j" "Decoder_Decode (json_text br sp d j) = Inr j"
  using text_reads_back [OF assms, unfolded reads_back_def, rule_format, of "[]"]
  by (simp_all add: json_Unmarshal_def Decoder_Decode_def skip_ws_def)

end

interpretation compact: json_layout "\<lambda>_. []" "[]"
  by unfold_locales (simp_all add: blank_def)

lemma json_Marshal_text: "json_Marshal j = json_text (\<lambda>_. []) [] d j"
proof (induction j arbitrary: d)
  case (JObj ms)
  then have "map (\<lambda>(k, v). string_text k @ CHR '':'' # json_Marshal v) ms =
      map (\<lambda>(k, v). string_text k @ CHR '':'' # json_text (\<lambda>_. []) [] (Suc d) v) ms"
    by (auto simp: prod_set_defs)
  then show ?case by (simp del: map_eq_conv)
qed (auto cong: map_cong)

lemma json_Marshal_hd:
  "json_ok j \<Longrightarrow> \<exists>c t. json_Marshal j = c # t \<and> c \<notin> {CHR '' '', CHR 0x09, CHR 0x0A, CHR 0x0D, CHR '']'', CHR ''}''}"
  unfolding json_Marshal_text [of _ 0] by (rule json_text_hd)

text \<open>What \<open>json.Marshal\<close> writes, \<open>json.Unmarshal\<close> and a decoder read as the same value.\<close>

lemma json_roundtrip:
  assumes "json_ok j"
  shows "json_Unmarshal (json_Marshal j) = Inr j" "Decoder_Decode (json_Marshal j) = Inr j"
  using compact.text_reads [OF assms] by (simp_all add: json_Marshal_text [of _ 0])

lemma json_Marshal_nonempty: "json_ok j \<Longrightarrow> json_Marshal j \<noteq> []"
  using json_Marshal_hd by fastforce

subsection \<open>What was read can be written\<close>

text \<open>
  A value that was read from a text is one that has a text: the literal of a number is a number
  without the text that follows it.
\<close>

definition takes :: "(string \<Rightarrow> string option) \<Rightarrow> string \<Rightarrow> string \<Rightarrow> bool" where
  "takes f a r \<longleftrightarrow> (\<forall>k. f (a @ take k r) = Some (take k r))"

lemma after_digits_takes: "after_digits s = Some r \<Longrightarrow> \<exists>a. s = a @ r \<and> takes after_digits a r"
proof -
  assume "after_digits s = Some r"
  then have s: "s \<noteq> []" "is_digit (hd s)" "r = dropWhile is_digit s" by (auto simp: after_digits_def split: if_splits)
  let ?a = "takeWhile is_digit s"
  have "?a \<noteq> []" "is_digit (hd ?a)" using s(1,2) by (cases s; simp)+
  moreover have "dropWhile is_digit (?a @ take k r) = take k r" for k
  proof -
    have "take k r = [] \<or> \<not> is_digit (hd (take k r))"
      using hd_dropWhile [of is_digit s] s(3) by (cases r; cases k) auto
    then have "dropWhile is_digit (take k r) = take k r" by (cases "take k r") auto
    then show ?thesis by (subst dropWhile_append2) (auto dest: set_takeWhileD)
  qed
  ultimately have "takes after_digits ?a r" by (simp add: takes_def after_digits_def)
  moreover have "s = ?a @ r" using s(3) by simp
  ultimately show ?thesis by blast
qed

lemma starts_with_cases: "starts_with cs s \<longleftrightarrow> (\<exists>c t. s = c # t \<and> c \<in> cs)"
  by (cases s) (auto simp: starts_with_def)

lemma after_int_takes:
  assumes "after_int s = Some r"
  shows "\<exists>a. s = a @ r \<and> takes after_int a r"
proof (cases "starts_with {CHR ''0''} s")
  case True
  with assms have "s = [CHR ''0''] @ r" by (auto simp: after_int_def starts_with_cases)
  then show ?thesis by (auto simp: takes_def after_int_def starts_with_def)
next
  case False
  with assms after_digits_takes [of s r] obtain a where a: "s = a @ r" "takes after_digits a r"
    by (auto simp: after_int_def)
  from a(2) have "a \<noteq> []" by (auto simp: takes_def after_digits_def dest: spec [of _ 0])
  with a False show ?thesis by (auto simp: takes_def after_int_def starts_with_append)
qed

lemma after_frac_takes:
  assumes "after_frac s = Some r"
  shows "\<exists>a. s = a @ r \<and> takes after_frac a r"
proof (cases "starts_with {CHR ''.''} s")
  case True
  then obtain t where t: "s = CHR ''.'' # t" by (auto simp: starts_with_cases)
  with assms after_digits_takes [of t r] obtain a where "t = a @ r" "takes after_digits a r"
    by (auto simp: after_frac_def starts_with_def)
  with t show ?thesis by (intro exI [of _ "CHR ''.'' # a"]) (auto simp: takes_def after_frac_def starts_with_def)
next
  case False
  with assms have "s = r" by (simp add: after_frac_def)
  moreover have "\<not> starts_with {CHR ''.''} (take k r)" for k
    using False \<open>s = r\<close> by (cases r; cases k) (auto simp: starts_with_def)
  ultimately show ?thesis by (intro exI [of _ "[]"]) (simp add: takes_def after_frac_def)
qed

lemma after_exp_takes:
  assumes "after_exp s = Some r"
  shows "\<exists>a. s = a @ r \<and> takes after_exp a r"
proof (cases "starts_with {CHR ''e'', CHR ''E''} s")
  case True
  then obtain c t where t: "s = c # t" "c \<in> {CHR ''e'', CHR ''E''}" by (auto simp: starts_with_cases)
  show ?thesis
  proof (cases "starts_with {CHR ''+'', CHR ''-''} t")
    case sign: True
    then obtain d u where u: "t = d # u" "d \<in> {CHR ''+'', CHR ''-''}" by (auto simp: starts_with_cases)
    with assms t sign True after_digits_takes [of u r] obtain a where "u = a @ r" "takes after_digits a r"
      by (auto simp: after_exp_def)
    with t u show ?thesis by (intro exI [of _ "c # d # a"]) (auto simp: takes_def after_exp_def starts_with_def)
  next
    case False
    with assms t True after_digits_takes [of t r] obtain a where a: "t = a @ r" "takes after_digits a r"
      by (auto simp: after_exp_def)
    from a(2) have "a \<noteq> []" by (auto simp: takes_def after_digits_def dest: spec [of _ 0])
    with a t False show ?thesis
      by (intro exI [of _ "c # a"]) (auto simp: takes_def after_exp_def starts_with_append starts_with_def [of _ "c # _"])
  qed
next
  case False
  with assms have "s = r" by (simp add: after_exp_def)
  moreover have "\<not> starts_with {CHR ''e'', CHR ''E''} (take k r)" for k
    using False \<open>s = r\<close> by (cases r; cases k) (auto simp: starts_with_def)
  ultimately show ?thesis by (intro exI [of _ "[]"]) (simp add: takes_def after_exp_def)
qed

lemma takesD: "takes f a (b @ r) \<Longrightarrow> f (a @ b) = Some b"
  using spec [of "\<lambda>k. f (a @ take k (b @ r)) = Some (take k (b @ r))" "length b"] by (simp add: takes_def)

lemma parse_number_literal:
  assumes "parse_number s = Some (n, r)"
  shows "parse_number n = Some (n, [])"
proof -
  let ?s = "if starts_with {CHR ''-''} s then tl s else s"
  from assms obtain s1 s2 where p: "after_int ?s = Some s1" "after_frac s1 = Some s2" "after_exp s2 = Some r"
    "n = take (length s - length r) s"
    by (auto simp: parse_number_def split: option.splits)
  from after_int_takes [OF p(1)] obtain a where a: "?s = a @ s1" "takes after_int a s1" by blast
  from after_frac_takes [OF p(2)] obtain b where b: "s1 = b @ s2" "takes after_frac b s2" by blast
  from after_exp_takes [OF p(3)] obtain c where c: "s2 = c @ r" "takes after_exp c r" by blast
  let ?m = "if starts_with {CHR ''-''} s then ''-'' else []"
  have "s = ?m @ a @ b @ c @ r" using a(1) b(1) c(1) by (auto simp: starts_with_cases split: if_splits)
  then have n: "n = ?m @ a @ b @ c" using p(4) by (metis add_diff_cancel_right' append.assoc append_eq_conv_conj length_append)
  have i: "after_int (a @ b @ c) = Some (b @ c)" using a(2) b(1) c(1) by (intro takesD [of _ _ _ r]) simp
  have f: "after_frac (b @ c) = Some c" using b(2) c(1) by (intro takesD [of _ _ _ r]) simp
  have e: "after_exp c = Some []" using takesD [of after_exp c "[]" r] c(2) by simp
  have "a \<noteq> []" using a(2) by (auto simp: takes_def after_int_def after_digits_def starts_with_def dest: spec [of _ 0])
  then have "(if starts_with {CHR ''-''} n then tl n else n) = a @ b @ c"
    using n a(1) by (cases "starts_with {CHR ''-''} s") (simp_all add: starts_with_append starts_with_def [of _ "_ # _"])
  with i f e show ?thesis by (simp add: parse_number_def)
qed


lemma parsed_ok:
  "parse_value s = Some (v, r) \<Longrightarrow> json_ok v"
  "parse_elements s = Some (vs, r) \<Longrightarrow> list_all json_ok vs"
  "parse_members s = Some (ms, r) \<Longrightarrow> list_all (\<lambda>(k, v). json_ok v) ms"
proof (induction s and s and s arbitrary: v r and vs r and ms r
    rule: parse_value_parse_elements_parse_members.induct)
  case (1 s)
  note run = "1.prems" [unfolded parse_value.simps [of s]]
  obtain c t where ct: "skip_ws s = c # t" using run by (cases "skip_ws s") auto
  show ?case using run "1.IH"(1) [OF ct] "1.IH"(2) [OF ct] parse_number_literal [of "c # t"]
    by (auto simp: ct list_all_iff split: if_splits)
next
  case (2 s)
  note run = "2.prems" [unfolded parse_elements.simps [of s]]
  then obtain v r1 where v: "parse_value s = Some (v, r1)" by (auto split: option.splits)
  then obtain c u where cu: "skip_ws r1 = c # u" using run by (cases "skip_ws r1") auto
  from run v cu "2.IH"(1) [OF v] "2.IH"(2) [OF v _ cu] show ?case by (fastforce split: if_splits)
next
  case (3 s)
  note run = "3.prems" [unfolded parse_members.simps [of s]]
  then have s: "starts_with {CHR 0x22} (skip_ws s) \<and> length (tl (skip_ws s)) < length s"
    by (simp split: if_splits)
  then obtain k r1 where k: "parse_chars (tl (skip_ws s)) = Some (k, r1)" using run by (auto split: option.splits)
  then have r1: "starts_with {CHR '':''} (skip_ws r1) \<and> length (tl (skip_ws r1)) < length s"
    using run s by (simp split: if_splits)
  then obtain v r2 where v: "parse_value (tl (skip_ws r1)) = Some (v, r2)"
    using run s k by (auto split: option.splits)
  then obtain c u where cu: "skip_ws r2 = c # u" using run s k r1 by (cases "skip_ws r2") auto
  from run s k r1 v cu "3.IH"(1) [OF s k _ r1 v] "3.IH"(2) [OF s k _ r1 v _ cu] show ?case
    by (fastforce split: if_splits)
qed

lemma json_Unmarshal_ok: "json_Unmarshal text = Inr j \<Longrightarrow> json_ok j"
  by (auto simp: json_Unmarshal_def dest: parsed_ok(1) split: option.splits if_splits)

lemma Decoder_Decode_ok: "Decoder_Decode text = Inr j \<Longrightarrow> json_ok j"
  by (auto simp: Decoder_Decode_def dest: parsed_ok(1) split: option.splits)

subsection \<open>Numbers\<close>

lemma formatBits_hd_nonzero: "0 < n \<Longrightarrow> hd (formatBits n) \<noteq> CHR ''0''"
proof (induction n rule: formatBits.induct)
  case (1 n)
  have digit: "\<forall>d \<in> {1..9}. digit_char d \<noteq> CHR ''0''" by code_simp
  show ?case
  proof (cases "n < 10")
    case True
    with 1 digit show ?thesis by (subst formatBits.simps) auto
  next
    case False
    with 1 show ?thesis by (subst formatBits.simps) (simp add: formatBits_nonempty)
  qed
qed

lemma formatBits_digits: "\<forall>c \<in> set (formatBits n). is_digit c"
proof (induction n rule: formatBits.induct)
  case (1 n)
  have digit: "\<forall>d \<in> {0..9}. is_digit (digit_char d)" by code_simp
  show ?case
  proof (cases "n < 10")
    case True
    with digit show ?thesis by (subst formatBits.simps) auto
  next
    case False
    with 1 digit show ?thesis by (subst formatBits.simps) auto
  qed
qed

lemma after_int_formatBits: "after_int (formatBits n) = Some []"
proof (cases "n = 0")
  case True
  have "after_int (formatBits 0) = Some []" by code_simp
  with True show ?thesis by simp
next
  case False
  then have "\<not> starts_with {CHR ''0''} (formatBits n)" using formatBits_hd_nonzero [of n] by (auto simp: starts_with_def)
  then show ?thesis using formatBits_digits [of n] formatBits_nonempty [of n]
    by (simp add: after_int_def after_digits_def dropWhile_eq_Nil_conv)
qed

lemma parse_number_Itoa: "parse_number (Itoa i) = Some (Itoa i, [])"
proof -
  have "\<not> starts_with {CHR ''-''} (formatBits n)" for n
    using formatBits_no_sign [of n] by (cases "formatBits n") (auto simp: starts_with_def)
  then show ?thesis
    by (auto simp: parse_number_def Itoa_def after_int_formatBits after_frac_def after_exp_def starts_with_def)
qed

end
