(* ===== verification/Amounts.thy ===== *)
theory Amounts
  imports Bitcoin Complex_Main
begin

text \<open>
  Conversions of amounts: \<open>bitcoin/formats.go\<close>. The package \<open>shopspring/decimal\<close> is a
  parameter: \<open>'d\<close> is its type \<open>Decimal\<close> and the record \<open>decimal_api\<close> holds the functions that
  \<open>formats.go\<close> calls. A \<open>float64\<close> is represented by its JSON literal.
\<close>

type_synonym float64 = string

record 'd decimal_api =
  dec_New :: "int \<Rightarrow> int \<Rightarrow> 'd"
  dec_String :: "'d \<Rightarrow> string"
  dec_Float64 :: "'d \<Rightarrow> float64 \<times> bool"
  dec_NewFromString :: "string \<Rightarrow> go_error + 'd"
  dec_NewFromFloat :: "float64 \<Rightarrow> 'd"
  dec_Mul :: "'d \<Rightarrow> 'd \<Rightarrow> 'd"
  dec_IntPart :: "'d \<Rightarrow> uint64"

definition satoshiInBTCDecimal :: "'d decimal_api \<Rightarrow> 'd" where
  "satoshiInBTCDecimal D = dec_New D 1 8"

text \<open>The conversion \<open>int64(amount)\<close> reads the word as a signed number.\<close>

definition ToStringedFloat :: "'d decimal_api \<Rightarrow> BTCAmount \<Rightarrow> string" where
  "ToStringedFloat D amount = dec_String D (dec_New D (sint amount) (- 8))"

text \<open>A conversion that is not exact is only logged.\<close>

definition BTCAmount_Float64 :: "'d decimal_api \<Rightarrow> BTCAmount \<Rightarrow> float64" where
  "BTCAmount_Float64 D amount = fst (dec_Float64 D (dec_New D (sint amount) (- 8)))"

definition BTCAmount_ToBTC :: "'d decimal_api \<Rightarrow> BTCAmount \<Rightarrow> float64" where
  "BTCAmount_ToBTC D amount = BTCAmount_Float64 D amount"

definition BTCAmount_String :: "'d decimal_api \<Rightarrow> BTCAmount \<Rightarrow> string" where
  "BTCAmount_String D amount = ToStringedFloat D amount"

definition BTCAmount_MarshalJSON :: "'d decimal_api \<Rightarrow> BTCAmount \<Rightarrow> json" where
  "BTCAmount_MarshalJSON D amount = JStr (ToStringedFloat D amount)"

definition BTCAmountFromFloat :: "'d decimal_api \<Rightarrow> float64 \<Rightarrow> BTCAmount" where
  "BTCAmountFromFloat D amountF64 =
     dec_IntPart D (dec_Mul D (dec_NewFromFloat D amountF64) (satoshiInBTCDecimal D))"

definition BTCAmountFromStringedFloat :: "'d decimal_api \<Rightarrow> string \<Rightarrow> go_error + BTCAmount" where
  "BTCAmountFromStringedFloat D amountSF =
     (case dec_NewFromString D amountSF of
        Inl e \<Rightarrow> Inl e
      | Inr d \<Rightarrow> Inr (dec_IntPart D (dec_Mul D d (satoshiInBTCDecimal D))))"

definition BTCAmount_UnmarshalJSON :: "'d decimal_api \<Rightarrow> json \<Rightarrow> go_error + BTCAmount" where
  "BTCAmount_UnmarshalJSON D b =
     (case unmarshal_string b of
        Inl e \<Rightarrow> Inl e
      | Inr j \<Rightarrow> BTCAmountFromStringedFloat D j)"

definition Must :: "go_error + BTCAmount \<Rightarrow> BTCAmount res" where
  "Must r = (case r of Inl _ \<Rightarrow> Panic ''Must'' | Inr amount \<Rightarrow> Ok amount)"

subsection \<open>Round trip\<close>

text \<open>
  What the documentation of the library promises and \<open>formats.go\<close> relies on. \<open>val\<close> is the
  number a decimal stands for: \<open>New(v, e)\<close> is \<open>v * 10 ^ e\<close>, the text of such a number reads back
  as the same number, multiplication is exact, and \<open>IntPart\<close> of an integer in the range of
  \<open>int64\<close> is that integer.
\<close>

definition decimal_ok :: "'d decimal_api \<Rightarrow> ('d \<Rightarrow> rat) \<Rightarrow> bool" where
  "decimal_ok D val \<longleftrightarrow>
     (\<forall>v e. val (dec_New D v e) = of_int v * 10 powi e) \<and>
     (\<forall>v. - (2 ^ 63) \<le> v \<longrightarrow> v < 2 ^ 63 \<longrightarrow>
        (\<exists>d. dec_NewFromString D (dec_String D (dec_New D v (- 8))) = Inr d \<and>
             val d = of_int v * 10 powi (- 8))) \<and>
     (\<forall>a b. val (dec_Mul D a b) = val a * val b) \<and>
     (\<forall>d i. val d = of_int i \<longrightarrow> - (2 ^ 63) \<le> i \<longrightarrow> i < 2 ^ 63 \<longrightarrow> dec_IntPart D d = of_int i)"

lemma BTCAmount_parse_print:
  assumes "decimal_ok D val"
  shows "BTCAmountFromStringedFloat D (ToStringedFloat D amount) = Inr amount"
proof -
  have range: "- (2 ^ 63) \<le> sint amount" "sint amount < 2 ^ 63"
    using sint_ge [of amount] sint_lt [of amount] by simp_all
  with assms obtain d where d: "dec_NewFromString D (dec_String D (dec_New D (sint amount) (- 8))) = Inr d"
    "val d = of_int (sint amount) * 10 powi (- 8)"
    unfolding decimal_ok_def by blast
  from assms d(2) have "val (dec_Mul D d (satoshiInBTCDecimal D)) = of_int (sint amount)"
    by (simp add: decimal_ok_def satoshiInBTCDecimal_def power_int_def power_one_over)
  with assms range have "dec_IntPart D (dec_Mul D d (satoshiInBTCDecimal D)) = of_int (sint amount)"
    unfolding decimal_ok_def by blast
  with d(1) show ?thesis by (simp add: BTCAmountFromStringedFloat_def ToStringedFloat_def)
qed

text \<open>A concrete decimal arithmetic: a number is its coefficient and its exponent.\<close>

definition example_decimal :: "(int \<times> int) decimal_api" where
  "example_decimal =
     \<lparr>dec_New = (\<lambda>v e. (v, e)), dec_String = (\<lambda>(v, e). Itoa v), dec_Float64 = (\<lambda>(v, e). (Itoa v, True)),
      dec_NewFromString = (\<lambda>s. case Atoi s of Inl e \<Rightarrow> Inl e | Inr v \<Rightarrow> Inr (v, - 8)),
      dec_NewFromFloat = (\<lambda>f. (0, 0)),
      dec_Mul = (\<lambda>(v, e) (v', e'). (v * v', e + e')),
      dec_IntPart = (\<lambda>(v, e). of_int (if 0 \<le> e then v * 10 ^ nat e else v div 10 ^ nat (- e)))\<rparr>"

definition example_val :: "int \<times> int \<Rightarrow> rat" where
  "example_val d = of_int (fst d) * 10 powi snd d"

lemma example_decimal_ok: "decimal_ok example_decimal example_val"
proof -
  have "dec_IntPart example_decimal (v, e) = of_int i" if "of_int v * 10 powi e = (of_int i :: rat)" for v e i
  proof (cases "0 \<le> e")
    case True
    with that have "of_int (v * 10 ^ nat e) = (of_int i :: rat)" by (simp add: power_int_def)
    then have "v * 10 ^ nat e = i" by (simp only: of_int_eq_iff)
    with True show ?thesis by (simp add: example_decimal_def)
  next
    case False
    with that have "of_int v = of_int i * (10 :: rat) ^ nat (- e)" by (simp add: power_int_def field_simps)
    then have "of_int v = (of_int (i * 10 ^ nat (- e)) :: rat)" by simp
    then have "v = i * 10 ^ nat (- e)" by (simp only: of_int_eq_iff)
    with False show ?thesis by (simp add: example_decimal_def)
  qed
  then show ?thesis
    by (auto simp: decimal_ok_def example_decimal_def example_val_def power_int_add Atoi_Itoa)
qed

text \<open>
  C39: Amounts survive their text form. An amount printed as a decimal number of bitcoins, as
  the API and the event data do, reads back as the same number of satoshi, for every 64-bit
  value.
\<close>

theorem BTCAmount_roundtrip:
  assumes "decimal_ok D val"
  shows "BTCAmount_UnmarshalJSON D (BTCAmount_MarshalJSON D amount) = Inr amount"
  using BTCAmount_parse_print [OF assms, of amount]
  by (simp add: BTCAmount_UnmarshalJSON_def BTCAmount_MarshalJSON_def)

theorem BTCAmount_roundtrip_witness:
  "BTCAmount_UnmarshalJSON example_decimal (BTCAmount_MarshalJSON example_decimal 150000000) = Inr 150000000"
  by (rule BTCAmount_roundtrip [OF example_decimal_ok])

end
