(* ===== verification/Wire.thy ===== *)
theory Wire
  imports EventTypes Encoding Amounts
begin

text \<open>
  The JSON forms of the structures that the program stores and sends: transactions, transaction
  notifications, accounts and events, with the decoding of events (\<open>events/types.go\<close>,
  \<open>wallet/types\<close>, \<open>wallet/accounts.go\<close>, \<open>wallet/notify.go\<close>).

  A structure is written member by member in the order of its fields, the fields of an embedded
  structure first; a field of the embedding structure hides one of the same name, so the member
  \<open>status\<close> of a notification is its numeric code and the status of the transaction is left out.

  The text forms of a UUID and of a decimal number belong to the packages \<open>gofrs/uuid\<close> and
  \<open>shopspring/decimal\<close>. They are parameters, collected in the record \<open>lib\<close>; a decimal number is
  represented by its coefficient and its exponent.
\<close>

record lib =
  uuid_String :: "uuid \<Rightarrow> string"
  uuid_UnmarshalText :: "string \<Rightarrow> go_error + uuid"
  lib_decimal :: "(int \<times> int) decimal_api"

subsection \<open>Encoding\<close>

definition marshal_uuid :: "lib \<Rightarrow> uuid \<Rightarrow> json" where
  "marshal_uuid L i = JStr (uuid_String L i)"

definition marshal_int :: "int \<Rightarrow> json" where
  "marshal_int n = JNum (Itoa n)"

definition marshal_Transaction :: "lib \<Rightarrow> Transaction \<Rightarrow> json" where
  "marshal_Transaction L tx = JObj
     [(''id'', marshal_uuid L (ID tx)), (''hash'', JStr (Hash tx)), (''blockhash'', JStr (BlockHash tx)),
      (''confirmations'', marshal_int (Confirmations tx)), (''address'', JStr (Address tx)),
      (''direction'', Direction_MarshalJSON (Direction tx)), (''status'', Status_MarshalJSON (Status tx)),
      (''amount'', BTCAmount_MarshalJSON (lib_decimal L) (Amount tx)), (''metainfo'', Metainfo tx),
      (''fee'', BTCAmount_MarshalJSON (lib_decimal L) (Fee tx)), (''fee_type'', FeeType_MarshalJSON (FeeTypeOf tx)),
      (''cold_storage'', JBool (ColdStorage tx))]"

text \<open>\<open>seq\<close> is left out when it is zero.\<close>

definition marshal_TxNotification :: "lib \<Rightarrow> TxNotification \<Rightarrow> json" where
  "marshal_TxNotification L n = (let tx = tn_Transaction n in JObj
     ([(''id'', marshal_uuid L (ID tx)), (''hash'', JStr (Hash tx)), (''blockhash'', JStr (BlockHash tx)),
       (''confirmations'', marshal_int (Confirmations tx)), (''address'', JStr (Address tx)),
       (''direction'', Direction_MarshalJSON (Direction tx)),
       (''amount'', BTCAmount_MarshalJSON (lib_decimal L) (Amount tx)), (''metainfo'', Metainfo tx),
       (''fee'', BTCAmount_MarshalJSON (lib_decimal L) (Fee tx)), (''fee_type'', FeeType_MarshalJSON (FeeTypeOf tx)),
       (''cold_storage'', JBool (ColdStorage tx)),
       (''status'', marshal_int (StatusCode n)), (''status_name'', JStr (StatusStr n)), (''ipn_type'', JStr (IpnType n)),
       (''currency'', JStr (Currency n)), (''ipn_id'', JStr (IpnID n))] @
      (if tn_Seq n = 0 then [] else [(''seq'', marshal_int (tn_Seq n))])))"

definition marshal_Account :: "Account \<Rightarrow> json" where
  "marshal_Account a = JObj [(''address'', JStr (acc_Address a)), (''metainfo'', acc_Metainfo a)]"

fun marshal_data :: "lib \<Rightarrow> event_data \<Rightarrow> json" where
  "marshal_data L (AccountData a) = marshal_Account a"
| "marshal_data L (TxData n) = marshal_TxNotification L n"
| "marshal_data L (OtherData j) = j"

definition marshal_event :: "lib \<Rightarrow> NotificationWithSeq \<Rightarrow> json" where
  "marshal_event L ev = JObj
     [(''type'', EventType_MarshalJSON (ns_Type ev)), (''data'', marshal_data L (ns_Data ev)),
      (''seq'', marshal_int (ns_Seq ev))]"

subsection \<open>Decoding\<close>

fun fill_uuid :: "lib \<Rightarrow> json \<Rightarrow> (uuid \<Rightarrow> 'a) \<Rightarrow> 'a \<Rightarrow> go_error + 'a" where
  "fill_uuid L (JStr s) upd x = (case uuid_UnmarshalText L s of Inl e \<Rightarrow> Inl e | Inr i \<Rightarrow> Inr (upd i))"
| "fill_uuid L JNull upd x = Inr x"
| "fill_uuid L _ upd x = Inl (GoError ''json: cannot unmarshal into uuid.UUID'')"

fun fill_int :: "json \<Rightarrow> (int \<Rightarrow> 'a) \<Rightarrow> 'a \<Rightarrow> go_error + 'a" where
  "fill_int (JNum s) upd x = (case Atoi s of Inl e \<Rightarrow> Inl e | Inr n \<Rightarrow> Inr (upd n))"
| "fill_int JNull upd x = Inr x"
| "fill_int _ upd x = Inl (GoError ''json: cannot unmarshal into int'')"

fun fill_bool :: "json \<Rightarrow> (bool \<Rightarrow> 'a) \<Rightarrow> 'a \<Rightarrow> go_error + 'a" where
  "fill_bool (JBool b) upd x = Inr (upd b)"
| "fill_bool JNull upd x = Inr x"
| "fill_bool _ upd x = Inl (GoError ''json: cannot unmarshal into bool'')"

text \<open>A field whose type has a method \<open>UnmarshalJSON\<close>.\<close>

definition fill_by :: "(json \<Rightarrow> go_error + 'b) \<Rightarrow> json \<Rightarrow> ('b \<Rightarrow> 'a) \<Rightarrow> go_error + 'a" where
  "fill_by dec j upd = (case dec j of Inl e \<Rightarrow> Inl e | Inr y \<Rightarrow> Inr (upd y))"

definition zero_Transaction :: Transaction where
  "zero_Transaction =
     \<lparr>ID = uuid_Nil, Hash = [], BlockHash = [], Confirmations = 0, Address = [], Direction = IncomingDirection,
      Status = NewTransaction, Amount = 0, Metainfo = JNull, Fee = 0, FeeTypeOf = InvalidFee, ColdStorage = False,
      Fresh = False, ReportedConfirmations = 0\<rparr>"

definition zero_TxNotification :: TxNotification where
  "zero_TxNotification =
     \<lparr>tn_Transaction = zero_Transaction, StatusCode = 0, StatusStr = [], IpnType = [], Currency = [], IpnID = [], tn_Seq = 0\<rparr>"

abbreviation on_tx :: "(Transaction \<Rightarrow> Transaction) \<Rightarrow> TxNotification \<Rightarrow> TxNotification" where
  "on_tx f n \<equiv> n\<lparr>tn_Transaction := f (tn_Transaction n)\<rparr>"

definition unmarshal_TxNotification :: "lib \<Rightarrow> json \<Rightarrow> go_error + TxNotification" where
  "unmarshal_TxNotification L j =
     fill_struct (\<lambda>k v n.
       if same_name k ''id'' then fill_uuid L v (\<lambda>x. on_tx (\<lambda>t. t\<lparr>ID := x\<rparr>) n) n
       else if same_name k ''hash'' then fill_string v (\<lambda>x. on_tx (\<lambda>t. t\<lparr>Hash := x\<rparr>) n) n
       else if same_name k ''blockhash'' then fill_string v (\<lambda>x. on_tx (\<lambda>t. t\<lparr>BlockHash := x\<rparr>) n) n
       else if same_name k ''confirmations'' then fill_int v (\<lambda>x. on_tx (\<lambda>t. t\<lparr>Confirmations := x\<rparr>) n) n
       else if same_name k ''address'' then fill_string v (\<lambda>x. on_tx (\<lambda>t. t\<lparr>Address := x\<rparr>) n) n
       else if same_name k ''direction'' then fill_by Direction_UnmarshalJSON v (\<lambda>x. on_tx (\<lambda>t. t\<lparr>Direction := x\<rparr>) n)
       else if same_name k ''amount''
         then fill_by (BTCAmount_UnmarshalJSON (lib_decimal L)) v (\<lambda>x. on_tx (\<lambda>t. t\<lparr>Amount := x\<rparr>) n)
       else if same_name k ''metainfo'' then Inr (on_tx (\<lambda>t. t\<lparr>Metainfo := interface_value v\<rparr>) n)
       else if same_name k ''fee''
         then fill_by (BTCAmount_UnmarshalJSON (lib_decimal L)) v (\<lambda>x. on_tx (\<lambda>t. t\<lparr>Fee := x\<rparr>) n)
       else if same_name k ''fee_type'' then fill_by FeeType_UnmarshalJSON v (\<lambda>x. on_tx (\<lambda>t. t\<lparr>FeeTypeOf := x\<rparr>) n)
       else if same_name k ''cold_storage'' then fill_bool v (\<lambda>x. on_tx (\<lambda>t. t\<lparr>ColdStorage := x\<rparr>) n) n
       else if same_name k ''status'' then fill_int v (\<lambda>x. n\<lparr>StatusCode := x\<rparr>) n
       else if same_name k ''status_name'' then fill_string v (\<lambda>x. n\<lparr>StatusStr := x\<rparr>) n
       else if same_name k ''ipn_type'' then fill_string v (\<lambda>x. n\<lparr>IpnType := x\<rparr>) n
       else if same_name k ''currency'' then fill_string v (\<lambda>x. n\<lparr>Currency := x\<rparr>) n
       else if same_name k ''ipn_id'' then fill_string v (\<lambda>x. n\<lparr>IpnID := x\<rparr>) n
       else if same_name k ''seq'' then fill_int v (\<lambda>x. n\<lparr>tn_Seq := x\<rparr>) n
       else Inr n) j zero_TxNotification"

text \<open>The metainfo of an account is a map: \<open>null\<close> or an object.\<close>

definition unmarshal_Account :: "json \<Rightarrow> go_error + Account" where
  "unmarshal_Account j =
     fill_struct (\<lambda>k v a.
       if same_name k ''address'' then fill_string v (\<lambda>x. a\<lparr>acc_Address := x\<rparr>) a
       else if same_name k ''metainfo'' then
         (case v of
            JObj _ \<Rightarrow> Inr (a\<lparr>acc_Metainfo := interface_value v\<rparr>)
          | JNull \<Rightarrow> Inr (a\<lparr>acc_Metainfo := JNull\<rparr>)
          | _ \<Rightarrow> Inl (GoError ''json: cannot unmarshal into map''))
       else Inr a) j \<lparr>acc_Address = [], acc_Metainfo = JNull\<rparr>"

text \<open>
  The decoders that \<open>RegisterNotificationUnmarshaler\<close> has registered by the time \<open>main\<close> runs, and
  the choice among them in \<open>genericNodificationData.UnmarshalJSON\<close>.
\<close>

definition notificationUnmarshalers :: "lib \<Rightarrow> EventType \<rightharpoonup> (json \<Rightarrow> go_error + event_data)" where
  "notificationUnmarshalers L et =
     (if et = NewAddressEvent then Some (\<lambda>j. fill_by unmarshal_Account j AccountData)
      else if et \<in> {NewIncomingTxEvent, IncomingTxConfirmedEvent, NewOutgoingTxEvent, OutgoingTxConfirmedEvent,
                    PendingStatusUpdatedEvent, PendingTxCancelledEvent}
      then Some (\<lambda>j. fill_by (unmarshal_TxNotification L) j TxData)
      else None)"

definition genericNotificationData_UnmarshalJSON :: "lib \<Rightarrow> EventType \<Rightarrow> json \<Rightarrow> go_error + event_data" where
  "genericNotificationData_UnmarshalJSON L et j =
     (case notificationUnmarshalers L et of
        None \<Rightarrow> Inr (OtherData (interface_value j))
      | Some unmarshaler \<Rightarrow> unmarshaler j)"

text \<open>First the type and the number, then, with the type known, the data.\<close>

definition NotificationWithSeq_UnmarshalJSON :: "lib \<Rightarrow> json \<Rightarrow> go_error + NotificationWithSeq" where
  "NotificationWithSeq_UnmarshalJSON L j =
     (case fill_struct (\<lambda>k v (et, seq).
             if same_name k ''type'' then fill_by EventType_UnmarshalJSON v (\<lambda>x. (x, seq))
             else if same_name k ''seq'' then fill_int v (\<lambda>x. (et, x)) (et, seq)
             else Inr (et, seq)) j (NewAddressEvent, 0) of
        Inl e \<Rightarrow> Inl e
      | Inr (et, seq) \<Rightarrow>
          (case fill_struct (\<lambda>k v d.
                  if same_name k ''data'' then genericNotificationData_UnmarshalJSON L et v else Inr d)
                  j (OtherData JNull) of
             Inl e \<Rightarrow> Inl e
           | Inr d \<Rightarrow> Inr \<lparr>ns_Type = et, ns_Data = d, ns_Seq = seq\<rparr>))"

subsection \<open>What a reader of the JSON form sees\<close>

text \<open>What the program relies on: the text of a UUID or of a decimal number reads back.\<close>

definition lib_ok :: "lib \<Rightarrow> (int \<times> int \<Rightarrow> rat) \<Rightarrow> bool" where
  "lib_ok L val \<longleftrightarrow> (\<forall>i. uuid_UnmarshalText L (uuid_String L i) = Inr i) \<and> decimal_ok (lib_decimal L) val"

text \<open>A value of an \<open>interface{}\<close> that has a JSON text.\<close>

definition plain_json :: "json \<Rightarrow> bool" where
  "plain_json j \<longleftrightarrow> interface_value j = j \<and> json_ok j"

definition int64_range :: "int \<Rightarrow> bool" where
  "int64_range n \<longleftrightarrow> - (2 ^ 63) \<le> n \<and> n < 2 ^ 63"

text \<open>A value of type \<open>map[string]interface{}\<close>.\<close>

fun json_map :: "json \<Rightarrow> bool" where
  "json_map JNull = True"
| "json_map (JObj _) = True"
| "json_map _ = False"

fun data_ok :: "event_data \<Rightarrow> bool" where
  "data_ok (TxData n) \<longleftrightarrow>
     Direction (tn_Transaction n) \<noteq> InvalidDirection \<and> plain_json (Metainfo (tn_Transaction n)) \<and>
     int64_range (Confirmations (tn_Transaction n)) \<and> int64_range (StatusCode n) \<and> int64_range (tn_Seq n)"
| "data_ok (AccountData a) \<longleftrightarrow> json_map (acc_Metainfo a) \<and> plain_json (acc_Metainfo a)"
| "data_ok (OtherData j) \<longleftrightarrow> plain_json j"

text \<open>The fields that are not sent have their zero values.\<close>

fun wire_view :: "event_data \<Rightarrow> event_data" where
  "wire_view (TxData n) =
     TxData (on_tx (\<lambda>t. t\<lparr>Status := NewTransaction, Fresh := False, ReportedConfirmations := 0\<rparr>) n)"
| "wire_view d = d"

lemma fold_letters [simp]:
  "fold_char CHR ''a'' = CHR ''a''" "fold_char CHR ''b'' = CHR ''b''" "fold_char CHR ''c'' = CHR ''c''" "fold_char CHR ''d'' = CHR ''d''" "fold_char CHR ''e'' = CHR ''e''"
  "fold_char CHR ''f'' = CHR ''f''" "fold_char CHR ''g'' = CHR ''g''" "fold_char CHR ''h'' = CHR ''h''" "fold_char CHR ''i'' = CHR ''i''" "fold_char CHR ''j'' = CHR ''j''"
  "fold_char CHR ''k'' = CHR ''k''" "fold_char CHR ''l'' = CHR ''l''" "fold_char CHR ''m'' = CHR ''m''" "fold_char CHR ''n'' = CHR ''n''" "fold_char CHR ''o'' = CHR ''o''"
  "fold_char CHR ''p'' = CHR ''p''" "fold_char CHR ''q'' = CHR ''q''" "fold_char CHR ''r'' = CHR ''r''" "fold_char CHR ''s'' = CHR ''s''" "fold_char CHR ''t'' = CHR ''t''"
  "fold_char CHR ''u'' = CHR ''u''" "fold_char CHR ''v'' = CHR ''v''" "fold_char CHR ''w'' = CHR ''w''" "fold_char CHR ''x'' = CHR ''x''" "fold_char CHR ''y'' = CHR ''y''" "fold_char CHR ''z'' = CHR ''z''"
  "fold_char CHR ''_'' = CHR ''_''"
  by (simp_all add: fold_char_def)

lemma fill_int_marshal: "int64_range n \<Longrightarrow> fill_int (marshal_int n) upd x = Inr (upd n)"
  by (simp add: marshal_int_def int64_range_def Atoi_Itoa)

lemma unmarshal_parts:
  "td \<noteq> InvalidDirection \<Longrightarrow> Direction_UnmarshalJSON (Direction_MarshalJSON td) = Inr td"
  "FeeType_UnmarshalJSON (FeeType_MarshalJSON ft) = Inr ft"
  "et \<noteq> InvalidEvent \<Longrightarrow> EventType_UnmarshalJSON (EventType_MarshalJSON et) = Inr et"
  by (simp_all add: Direction_UnmarshalJSON_def Direction_MarshalJSON_def DirectionFromString_String
      FeeType_UnmarshalJSON_def FeeType_MarshalJSON_def EventType_UnmarshalJSON_def EventType_MarshalJSON_def
      EventTypeFromString_String)

lemma unmarshal_amount:
  assumes "lib_ok L val"
  shows "BTCAmount_UnmarshalJSON (lib_decimal L) (BTCAmount_MarshalJSON (lib_decimal L) a) = Inr a"
  using BTCAmount_parse_print [of "lib_decimal L" val a] assms
  by (simp add: lib_ok_def BTCAmount_UnmarshalJSON_def BTCAmount_MarshalJSON_def)

lemma fill_uuid_marshal: "lib_ok L val \<Longrightarrow> fill_uuid L (marshal_uuid L i) upd x = Inr (upd i)"
  by (simp add: lib_ok_def marshal_uuid_def)

lemma unmarshal_TxNotification_marshal:
  assumes "lib_ok L val" "data_ok (TxData n)"
  shows "unmarshal_TxNotification L (marshal_TxNotification L n) =
    Inr (on_tx (\<lambda>t. t\<lparr>Status := NewTransaction, Fresh := False, ReportedConfirmations := 0\<rparr>) n)"
  using assms unmarshal_amount [OF assms(1)]
  by (simp add: unmarshal_TxNotification_def marshal_TxNotification_def Let_def fill_struct_def same_name_def
      fill_by_def fill_int_marshal fill_uuid_marshal unmarshal_parts plain_json_def zero_TxNotification_def
      zero_Transaction_def)

lemma unmarshal_Account_marshal:
  "data_ok (AccountData a) \<Longrightarrow> unmarshal_Account (marshal_Account a) = Inr a"
  by (cases a; cases "acc_Metainfo a")
    (auto simp: unmarshal_Account_def marshal_Account_def fill_struct_def same_name_def plain_json_def)

lemma marshal_data_ok: "data_ok d \<Longrightarrow> json_ok (marshal_data L d)"
  by (cases d) (auto simp: marshal_TxNotification_def Let_def marshal_Account_def marshal_uuid_def marshal_int_def
      Direction_MarshalJSON_def FeeType_MarshalJSON_def BTCAmount_MarshalJSON_def plain_json_def parse_number_Itoa)

text \<open>The data of an event is stored as a JSON text; what is read from it is the JSON form of the data.\<close>

lemma stored_data_reads: "data_ok d \<Longrightarrow> json_Unmarshal (json_Marshal (marshal_data L d)) = Inr (marshal_data L d)"
  by (rule json_roundtrip(1) [OF marshal_data_ok])

text \<open>The data that belongs to an event of a type.\<close>

fun data_fits :: "EventType \<Rightarrow> event_data \<Rightarrow> bool" where
  "data_fits et (AccountData _) \<longleftrightarrow> et = NewAddressEvent"
| "data_fits et (TxData _) \<longleftrightarrow> et \<noteq> NewAddressEvent \<and> et \<noteq> InvalidEvent"
| "data_fits et (OtherData _) \<longleftrightarrow> False"

lemma genericNotificationData_marshal:
  assumes "lib_ok L val" "data_ok d" "data_fits et d"
  shows "genericNotificationData_UnmarshalJSON L et (marshal_data L d) = Inr (wire_view d)"
proof (cases d)
  case (AccountData a)
  with assms unmarshal_Account_marshal [of a] show ?thesis
    by (simp add: genericNotificationData_UnmarshalJSON_def notificationUnmarshalers_def fill_by_def)
next
  case (TxData n)
  with assms unmarshal_TxNotification_marshal [of L val n] show ?thesis
    by (cases et) (simp_all add: genericNotificationData_UnmarshalJSON_def notificationUnmarshalers_def fill_by_def)
qed (use assms in simp)

lemma unmarshal_event_marshal:
  assumes "lib_ok L val" "data_ok d" "data_fits et d" "int64_range seq"
  shows "NotificationWithSeq_UnmarshalJSON L (marshal_event L \<lparr>ns_Type = et, ns_Data = d, ns_Seq = seq\<rparr>) =
    Inr \<lparr>ns_Type = et, ns_Data = wire_view d, ns_Seq = seq\<rparr>"
proof -
  have "et \<noteq> InvalidEvent" using assms(3) by (cases d) auto
  then show ?thesis using assms(4) genericNotificationData_marshal [OF assms(1-3)]
    by (simp add: NotificationWithSeq_UnmarshalJSON_def marshal_event_def fill_struct_def same_name_def fill_by_def
        fill_int_marshal unmarshal_parts)
qed

subsection \<open>Concrete libraries\<close>

definition digits_value :: "string \<Rightarrow> nat" where
  "digits_value = foldl (\<lambda>n c. 10 * n + (of_char c - 48)) 0"

lemma digits_value_formatBits: "digits_value (formatBits n) = n"
proof (induction n rule: formatBits.induct)
  case (1 n)
  have digit: "\<forall>d \<in> set [0..<10]. (of_char (digit_char d) :: nat) - 48 = d" by code_simp
  then have digit: "d < 10 \<Longrightarrow> (of_char (digit_char d) :: nat) - 48 = d" for d by (simp del: upt_rec_numeral)
  show ?case
  proof (cases "n < 10")
    case True
    then show ?thesis by (subst formatBits.simps) (simp add: digits_value_def digit)
  next
    case False
    with 1 have "digits_value (formatBits (n div 10)) = n div 10" by simp
    then show ?thesis using False by (subst formatBits.simps) (simp add: digits_value_def digit)
  qed
qed

text \<open>A UUID as a decimal number.\<close>

definition example_lib :: lib where
  "example_lib =
     \<lparr>uuid_String = (\<lambda>i. formatBits (unat i)), uuid_UnmarshalText = (\<lambda>s. Inr (of_nat (digits_value s))),
      lib_decimal = example_decimal\<rparr>"

lemma example_lib_ok: "lib_ok example_lib example_val"
  by (simp add: lib_ok_def example_lib_def example_decimal_ok digits_value_formatBits)

subsection \<open>Events survive their text form\<close>

text \<open>
  C16: Clients read the event that was stored. The JSON text of an event, as it is sent over a
  websocket and in the answer to a query, decodes to the same type, number and data; of a
  transaction only the fields that are not part of the text (its status, which is sent as a code
  and a name, and the two private fields) have their zero values.
\<close>

theorem event_json_roundtrip:
  assumes "lib_ok L val" "data_ok (ns_Data ev)" "data_fits (ns_Type ev) (ns_Data ev)" "int64_range (ns_Seq ev)"
  shows "\<exists>j. json_Unmarshal (json_Marshal (marshal_event L ev)) = Inr j \<and>
    NotificationWithSeq_UnmarshalJSON L j = Inr (ev\<lparr>ns_Data := wire_view (ns_Data ev)\<rparr>)"
proof -
  have "json_ok (marshal_event L ev)" using marshal_data_ok [OF assms(2)]
    by (simp add: marshal_event_def EventType_MarshalJSON_def marshal_int_def parse_number_Itoa)
  from json_roundtrip(1) [OF this] unmarshal_event_marshal [OF assms] show ?thesis by (cases ev) simp
qed

definition example_event :: NotificationWithSeq where
  "example_event = \<lparr>ns_Type = NewIncomingTxEvent, ns_Data = TxData
     \<lparr>tn_Transaction = zero_Transaction\<lparr>ID := 5, Hash := ''h'', Amount := 150000000, Status := ConfirmedTransaction,
        Metainfo := JObj [(''user'', JStr ''7'')]\<rparr>,
      StatusCode = 1, StatusStr = ''confirmed'', IpnType = ''deposit'', Currency = ''BTC'', IpnID = ''5'', tn_Seq = 0\<rparr>,
      ns_Seq = 12\<rparr>"

theorem event_json_roundtrip_witness:
  "\<exists>j. json_Unmarshal (json_Marshal (marshal_event example_lib example_event)) = Inr j \<and>
    NotificationWithSeq_UnmarshalJSON example_lib j = Inr (example_event\<lparr>ns_Data := wire_view (ns_Data example_event)\<rparr>)"
  by (rule event_json_roundtrip [OF example_lib_ok])
    (simp_all add: example_event_def zero_Transaction_def plain_json_def int64_range_def map_members_def)

end
