(* ===== verification/Database.thy ===== *)
theory Database
  imports Wire
begin

text \<open>
  The PostgreSQL database and the rest of the world the daemon acts on
  (\<open>storage/storage.go\<close>, with the schema of \<open>tools/init-db.sql\<close>).

  A table is a list of rows. The SQL statements of the program are applied to the tables by
  the storage theories; here are the execution of one statement, which may fail, and
  \<open>MakeTransactIfAvailable\<close>, which runs a function inside a database transaction.

  Everything the program asks of its surroundings (does this statement succeed, what does
  the node answer, which UUID comes out of the generator) is a parameter: the record \<open>env\<close>
  holds one function per kind of question, and the argument \<open>nat\<close> is the number of questions
  asked so far, so that a quantification over \<open>env\<close> covers every sequence of answers.

  The field \<open>trace\<close> of the world lists, latest first, what survives a crash of the process:
  every database state that was committed, every payment handed to the Bitcoin node and
  every HTTP notification posted.
\<close>

subsection \<open>Tables\<close>

record tx_row =
  r_id :: uuid
  r_hash :: string
  r_block_hash :: string
  r_confirmations :: int
  r_address :: string
  r_direction :: string
  r_status :: string
  r_amount :: BTCAmount
  r_metainfo :: "json option"
  r_fee :: BTCAmount
  r_fee_type :: string
  r_cold_storage :: bool
  r_reported_confirmations :: int

record event_row =
  ev_seq :: int
  ev_type :: string
  ev_data :: event_data

record database =
  events_t :: "event_row list"
  accounts_t :: "(string \<times> json) list"
  transactions_t :: "tx_row list"
  metadata_t :: "string \<rightharpoonup> string"
  muted_t :: "uuid list"

subsection \<open>The world\<close>

datatype outcome = Succeeds | FailsBefore string | FailsAfter string

text \<open>
  \<open>FailsBefore\<close>: the statement or commit failed and had no effect; \<open>FailsAfter\<close>: it took
  effect on the server and the error was reported all the same (a lost connection).
\<close>

datatype effect =
    EffCommit database
  | EffSend uuid string BTCAmount BTCAmount "go_error + string"
  | EffPost int "go_error option"

datatype timer = PendingUpdateTimer | HTTPSendTimer | HTTPRetryTimer | WSTimer

record AddressInfo =
  IsMine :: bool

record env =
  e_sql :: "nat \<Rightarrow> outcome"
  e_uuid :: "nat \<Rightarrow> uuid"
  e_CreateNewAddress :: "nat \<Rightarrow> go_error + string"
  e_ListTransactionsSinceBlock :: "nat \<Rightarrow> string \<Rightarrow> go_error + ListTransactionsResult list \<times> string"
  e_GetTransaction :: "nat \<Rightarrow> string \<Rightarrow> go_error + GetTransactionResult"
  e_Send :: "nat \<Rightarrow> FeeType \<Rightarrow> string \<Rightarrow> BTCAmount \<Rightarrow> BTCAmount \<Rightarrow> bool \<Rightarrow> go_error + string"
  e_GetAddressInfo :: "nat \<Rightarrow> string \<Rightarrow> go_error + AddressInfo"
  e_Balance :: "nat \<Rightarrow> go_error + uint64 \<times> uint64"
  e_Post :: "nat \<Rightarrow> string \<Rightarrow> go_error + nat"
  e_sortByAmount :: "Transaction list \<Rightarrow> Transaction list"
  e_lib :: lib

record world =
  db :: database
  events_seq :: int
  intx :: bool
  now :: nat
  trace :: "effect list"
  pendingTxUpdateTrigger :: "unit list"
  externalTxNotifications :: "unit list"
  wsNotificationTrigger :: "unit list"
  httpCallbackNotificationTrigger :: "bool list"
  timers :: "timer list"
  txnsWaitingManualConfirmationCount :: int
  txnsWaitingBlockchainConfirmationCount :: int

type_synonym 'a M = "(world, 'a) call"

definition tick :: "world \<Rightarrow> world" where
  "tick w = w\<lparr>now := Suc (now w)\<rparr>"

lemma tick_simps [simp]:
  "db (tick w) = db w" "events_seq (tick w) = events_seq w" "intx (tick w) = intx w"
  "trace (tick w) = trace w" "now (tick w) = Suc (now w)"
  "pendingTxUpdateTrigger (tick w) = pendingTxUpdateTrigger w"
  "timers (tick w) = timers w"
  "txnsWaitingManualConfirmationCount (tick w) = txnsWaitingManualConfirmationCount w"
  by (simp_all add: tick_def)

text \<open>A question to the surroundings that changes nothing in the world.\<close>

definition ask :: "(nat \<Rightarrow> go_error + 'a) \<Rightarrow> 'a M" where
  "ask q w = (case q (now w) of Inl e \<Rightarrow> (Error e, tick w) | Inr x \<Rightarrow> (Ok x, tick w))"

subsection \<open>Statements\<close>

text \<open>Outside a transaction every statement is committed on its own.\<close>

definition persist :: "database \<Rightarrow> world \<Rightarrow> world" where
  "persist d w = (if intx w then w\<lparr>db := d\<rparr> else w\<lparr>db := d, trace := EffCommit d # trace w\<rparr>)"

definition sql_query :: "env \<Rightarrow> (database \<Rightarrow> 'a) \<Rightarrow> 'a M" where
  "sql_query E g w =
     (case e_sql E (now w) of
        Succeeds \<Rightarrow> (Ok (g (db w)), tick w)
      | FailsBefore s \<Rightarrow> (Error (DriverError s), tick w)
      | FailsAfter s \<Rightarrow> (Error (DriverError s), tick w))"

definition sql_exec :: "env \<Rightarrow> (database \<Rightarrow> go_error + database) \<Rightarrow> unit M" where
  "sql_exec E f w =
     (case e_sql E (now w) of
        Succeeds \<Rightarrow>
          (case f (db w) of
             Inl e \<Rightarrow> (Error e, tick w)
           | Inr d \<Rightarrow> (Ok (), persist d (tick w)))
      | FailsBefore s \<Rightarrow> (Error (DriverError s), tick w)
      | FailsAfter s \<Rightarrow>
          (case f (db w) of
             Inl e \<Rightarrow> (Error e, tick w)
           | Inr d \<Rightarrow> (Error (DriverError s), persist d (tick w))))"

definition GetMeta :: "env \<Rightarrow> string \<Rightarrow> string \<Rightarrow> string M" where
  "GetMeta E name defaultVal =
     bindE (sql_query E (\<lambda>d. metadata_t d name)) (\<lambda>r.
       case r of Some v \<Rightarrow> returnE v | None \<Rightarrow> returnE defaultVal)"

definition SetMeta :: "env \<Rightarrow> string \<Rightarrow> string \<Rightarrow> unit M" where
  "SetMeta E name v =
     sql_exec E (\<lambda>d. Inr (d\<lparr>metadata_t := (metadata_t d)(name \<mapsto> v)\<rparr>))"

subsection \<open>Transactions\<close>

definition db_Begin :: "env \<Rightarrow> unit M" where
  "db_Begin E w =
     (case e_sql E (now w) of
        Succeeds \<Rightarrow> (Ok (), (tick w)\<lparr>intx := True\<rparr>)
      | FailsBefore s \<Rightarrow> (Error (DriverError s), tick w)
      | FailsAfter s \<Rightarrow> (Error (DriverError s), tick w))"

definition db_Commit :: "env \<Rightarrow> database \<Rightarrow> unit M" where
  "db_Commit E saved w =
     (let done = (tick w)\<lparr>intx := False, trace := EffCommit (db w) # trace w\<rparr>
      in case e_sql E (now w) of
           Succeeds \<Rightarrow> (Ok (), done)
         | FailsBefore s \<Rightarrow> (Error (DriverError s), (tick w)\<lparr>intx := False, db := saved\<rparr>)
         | FailsAfter s \<Rightarrow> (Error (DriverError s), done))"

definition db_Rollback :: "database \<Rightarrow> world \<Rightarrow> world" where
  "db_Rollback saved w = w\<lparr>intx := False, db := saved\<rparr>"

text \<open>
  \<open>f\<close> runs inside the transaction. An error or a panic rolls the tables back (the deferred
  function of the code), but neither the sequence behind \<open>events.seq\<close> nor the Go variables
  \<open>'m\<close> that \<open>f\<close> has captured and changed.
\<close>

definition MakeTransactIfAvailable ::
  "env \<Rightarrow> ('m \<Rightarrow> world \<Rightarrow> 'a res \<times> 'm \<times> world) \<Rightarrow> 'm \<Rightarrow> world \<Rightarrow> 'a res \<times> 'm \<times> world" where
  "MakeTransactIfAvailable E f m w =
     (case db_Begin E w of
        (Error e, w1) \<Rightarrow> (Error e, m, w1)
      | (Panic p, w1) \<Rightarrow> (Panic p, m, w1)
      | (Ok _, w1) \<Rightarrow>
          (case f m w1 of
             (Error e, m', w2) \<Rightarrow> (Error e, m', db_Rollback (db w) w2)
           | (Panic p, m', w2) \<Rightarrow> (Panic p, m', db_Rollback (db w) w2)
           | (Ok x, m', w2) \<Rightarrow>
               (case db_Commit E (db w) w2 of
                  (Ok _, w3) \<Rightarrow> (Ok x, m', w3)
                | (Error e, w3) \<Rightarrow> (Error e, m', w3)
                | (Panic p, w3) \<Rightarrow> (Panic p, m', w3))))"

text \<open>The same for a function that captures no variable it changes.\<close>

definition transact :: "env \<Rightarrow> 'a M \<Rightarrow> 'a M" where
  "transact E f w =
     (case MakeTransactIfAvailable E (\<lambda>_ v. case f v of (r, v') \<Rightarrow> (r, (), v')) () w of
        (r, _, w') \<Rightarrow> (r, w'))"

subsection \<open>What transactions guarantee\<close>

text \<open>
  Either nothing was committed and the tables and the trace are as before, or the function
  ran to a success and exactly the state it left was committed.
\<close>

lemma MakeTransactIfAvailable_cases:
  assumes "MakeTransactIfAvailable E f m w = (r, m', w')" and "\<not> intx w"
    and quiet: "\<And>v r n v'. f m v = (r, n, v') \<Longrightarrow> intx v \<Longrightarrow> trace v' = trace v"
  obtains
    (aborted) "db w' = db w" "trace w' = trace w" "\<not> intx w'" "\<not> is_ok r"
  | (committed) x v where "f m ((tick w)\<lparr>intx := True\<rparr>) = (Ok x, m', v)"
      "db w' = db v" "trace w' = EffCommit (db v) # trace w" "\<not> intx w'"
      "r = Ok x \<or> (\<exists>e. r = Error e)"
proof (cases "e_sql E (now w)")
  case Succeeds
  let ?w1 = "(tick w)\<lparr>intx := True\<rparr>"
  obtain r1 m1 v where f: "f m ?w1 = (r1, m1, v)" by (metis prod_cases3)
  from quiet [OF f] have tr: "trace v = trace w" by simp
  show thesis
  proof (cases r1)
    case (Ok x)
    with assms(1) f tr Succeeds that show thesis
      by (auto simp: MakeTransactIfAvailable_def db_Begin_def db_Commit_def Let_def
          split: outcome.splits)
  qed (use assms(1) f tr Succeeds that(1) in
        \<open>auto simp: MakeTransactIfAvailable_def db_Begin_def db_Rollback_def\<close>)
qed (use assms that(1) in \<open>auto simp: MakeTransactIfAvailable_def db_Begin_def\<close>)

lemma transact_cases:
  assumes "transact E f w = (r, w')" and "\<not> intx w"
    and quiet: "\<And>v r v'. f v = (r, v') \<Longrightarrow> intx v \<Longrightarrow> trace v' = trace v"
  obtains
    (aborted) "db w' = db w" "trace w' = trace w" "\<not> intx w'" "\<not> is_ok r"
  | (committed) x v where "f ((tick w)\<lparr>intx := True\<rparr>) = (Ok x, v)"
      "db w' = db v" "trace w' = EffCommit (db v) # trace w" "\<not> intx w'"
      "r = Ok x \<or> (\<exists>e. r = Error e)"
proof -
  let ?g = "\<lambda>_ v. case f v of (r, v') \<Rightarrow> (r, (), v')"
  from assms(1) have "MakeTransactIfAvailable E ?g () w = (r, (), w')"
    by (auto simp: transact_def split: prod.splits)
  then show thesis
    by (rule MakeTransactIfAvailable_cases)
      (use assms(2) that in \<open>auto dest: quiet split: prod.splits\<close>)
qed

lemma GetMeta_frame:
  "GetMeta E k d w = (r, w') \<Longrightarrow> w' = tick w"
  by (auto simp: GetMeta_def bindE_def sql_query_def returnE_def
      split: outcome.splits option.splits prod.splits res.splits)

end
