(* ===== verification/EventStorage.thy ===== *)
theory EventStorage
  imports Database
begin

text \<open>
  \<open>PostgresEventStorage\<close> (\<open>events/postgresstorage.go\<close>): the events table with its serial
  number, the muted transactions, and the metadata entries of the HTTP callback sender.
\<close>

subsection \<open>Operations\<close>

text \<open>
  The serial number comes from a sequence, which is not transactional: a rollback leaves a
  gap. The number is consumed even if the statement reports an error afterwards.
\<close>

definition StoreEvent :: "env \<Rightarrow> Notification \<Rightarrow> NotificationWithSeq M" where
  "StoreEvent E event w =
     (let seq = events_seq w;
          row = \<lparr>ev_seq = seq, ev_type = EventType_String (n_Type event), ev_data = n_Data event\<rparr>;
          stored = persist ((db w)\<lparr>events_t := events_t (db w) @ [row]\<rparr>)
                     ((tick w)\<lparr>events_seq := seq + 1\<rparr>)
      in case e_sql E (now w) of
           Succeeds \<Rightarrow> (Ok \<lparr>ns_Type = n_Type event, ns_Data = n_Data event, ns_Seq = seq\<rparr>, stored)
         | FailsBefore s \<Rightarrow> (Error (DriverError s), tick w)
         | FailsAfter s \<Rightarrow> (Error (DriverError s), stored))"

text \<open>\<open>LEFT JOIN muted_events ON data.id = tx_id ... WHERE seq >= $1 AND tx_id IS NULL ORDER BY seq\<close>\<close>

definition row_muted :: "database \<Rightarrow> event_row \<Rightarrow> bool" where
  "row_muted d r = (case data_id (ev_data r) of None \<Rightarrow> False | Some i \<Rightarrow> i \<in> set (muted_t d))"

definition select_events :: "int \<Rightarrow> database \<Rightarrow> event_row list" where
  "select_events seq d =
     sort_key ev_seq (filter (\<lambda>r. seq \<le> ev_seq r \<and> \<not> row_muted d r) (events_t d))"

text \<open>
  The column \<open>data\<close> holds the JSON text of the data, which always reads back
  (\<open>stored_data_reads\<close>). A query for many events decodes it into an \<open>interface{}\<close>; the query for
  one event writes the three columns as one JSON object and decodes that as an event.
\<close>

definition generic_data :: "lib \<Rightarrow> event_data \<Rightarrow> event_data" where
  "generic_data L d = OtherData (interface_value (marshal_data L d))"

fun decode_events :: "lib \<Rightarrow> event_row list \<Rightarrow> go_error + NotificationWithSeq list" where
  "decode_events L [] = Inr []"
| "decode_events L (r # rs) =
     (case EventTypeFromString (ev_type r) of
        Inl e \<Rightarrow> Inl e
      | Inr et \<Rightarrow>
          (case decode_events L rs of
             Inl e \<Rightarrow> Inl e
           | Inr es \<Rightarrow> Inr (\<lparr>ns_Type = et, ns_Data = generic_data L (ev_data r), ns_Seq = ev_seq r\<rparr> # es)))"

definition GetEventsFromSeq :: "env \<Rightarrow> int \<Rightarrow> NotificationWithSeq list M" where
  "GetEventsFromSeq E seq =
     bindE (sql_query E (select_events seq)) (\<lambda>rows.
       case decode_events (e_lib E) rows of Inl e \<Rightarrow> failE e | Inr es \<Rightarrow> returnE es)"

definition GetNextEventFromSeq :: "env \<Rightarrow> int \<Rightarrow> NotificationWithSeq M" where
  "GetNextEventFromSeq E seq =
     bindE (sql_query E (\<lambda>d. take 1 (select_events seq d))) (\<lambda>rows.
       case rows of
         [] \<Rightarrow> failE ErrNoSuchEvent
       | r # _ \<Rightarrow>
           (case NotificationWithSeq_UnmarshalJSON (e_lib E)
                   (JObj [(''seq'', marshal_int (ev_seq r)), (''type'', JStr (ev_type r)),
                          (''data'', marshal_data (e_lib E) (ev_data r))]) of
              Inl e \<Rightarrow> failE e
            | Inr event \<Rightarrow> returnE event))"

definition GetLastHTTPSentSeq :: "env \<Rightarrow> int M" where
  "GetLastHTTPSentSeq E =
     bindE (GetMeta E ''last_http_sent_seq'' ''0'') (\<lambda>s.
       case Atoi s of Inl e \<Rightarrow> failE e | Inr n \<Rightarrow> returnE n)"

definition StoreLastHTTPSentSeq :: "env \<Rightarrow> int \<Rightarrow> unit M" where
  "StoreLastHTTPSentSeq E seq = SetMeta E ''last_http_sent_seq'' (Itoa seq)"

definition GetLastWSSentSeq :: "env \<Rightarrow> int M" where
  "GetLastWSSentSeq E =
     bindE (GetMeta E ''last_ws_sent_seq'' ''0'') (\<lambda>s.
       case Atoi s of Inl e \<Rightarrow> failE e | Inr n \<Rightarrow> returnE n)"

definition StoreLastWSSentSeq :: "env \<Rightarrow> int \<Rightarrow> unit M" where
  "StoreLastWSSentSeq E seq = SetMeta E ''last_ws_sent_seq'' (Itoa seq)"

text \<open>The operation recorded is the sequence number, as JSON text.\<close>

definition LockHTTPCallback :: "env \<Rightarrow> int \<Rightarrow> unit M" where
  "LockHTTPCallback E seq = SetMeta E ''http_callback_operation'' (Itoa seq)"

definition ClearHTTPCallback :: "env \<Rightarrow> unit M" where
  "ClearHTTPCallback E = SetMeta E ''http_callback_operation'' []"

definition CheckHTTPCallbackLock :: "env \<Rightarrow> (bool \<times> string) M" where
  "CheckHTTPCallbackLock E =
     bindE (GetMeta E ''http_callback_operation'' []) (\<lambda>operation.
       returnE (operation = [], operation))"

text \<open>\<open>INSERT INTO muted_events\<close>, whose column is the primary key.\<close>

definition add_muted :: "uuid \<Rightarrow> database \<Rightarrow> go_error + database" where
  "add_muted i d =
     (if i \<in> set (muted_t d) then Inl UniqueViolation else Inr (d\<lparr>muted_t := muted_t d @ [i]\<rparr>))"

definition MuteEventsWithTxID :: "env \<Rightarrow> uuid \<Rightarrow> unit M" where
  "MuteEventsWithTxID E i =
     catchE (sql_exec E (add_muted i))
       (\<lambda>r. case r of
              Inr _ \<Rightarrow> returnE ()
            | Inl UniqueViolation \<Rightarrow> failE ErrAlreadyMuted
            | Inl e \<Rightarrow> failE e)"

subsection \<open>The event table\<close>

text \<open>Sequence numbers are unique, increase along the table and stay below the sequence.\<close>

definition events_ok :: "event_row list \<Rightarrow> int \<Rightarrow> bool" where
  "events_ok es next \<longleftrightarrow> sorted_wrt (<) (map ev_seq es) \<and> (\<forall>r \<in> set es. ev_seq r < next)"

lemma events_ok_append:
  "events_ok es next \<Longrightarrow> ev_seq r = next \<Longrightarrow> events_ok (es @ [r]) (next + 1)"
  by (fastforce simp: events_ok_def sorted_wrt_append)

lemma events_ok_mono: "events_ok es next \<Longrightarrow> next \<le> next' \<Longrightarrow> events_ok es next'"
  by (auto simp: events_ok_def)

lemma sorted_wrt_less_sort_key:
  assumes "sorted_wrt (<) (map f xs)"
  shows "sort_key (f :: 'a \<Rightarrow> int) xs = xs"
proof -
  from assms have "sorted (map f xs)" by (simp add: strict_sorted_iff)
  then show ?thesis by (simp add: sorted_sort_id sort_key_id_if_sorted)
qed

lemma sorted_wrt_map_filter: "sorted_wrt P (map f xs) \<Longrightarrow> sorted_wrt P (map f (filter Q xs))"
  by (induction xs) auto

lemma select_events_filter:
  assumes "events_ok (events_t d) next"
  shows "select_events seq d = filter (\<lambda>r. seq \<le> ev_seq r \<and> \<not> row_muted d r) (events_t d)"
  using assms unfolding select_events_def events_ok_def
  by (intro sorted_wrt_less_sort_key sorted_wrt_map_filter) simp

lemma decode_events_seqs: "decode_events L rs = Inr es \<Longrightarrow> map ns_Seq es = map ev_seq rs"
  by (induction rs arbitrary: es) (auto split: sum.splits)

lemma decode_events_data: "decode_events L rs = Inr es \<Longrightarrow> map ns_Data es = map (generic_data L \<circ> ev_data) rs"
  by (induction rs arbitrary: es) (auto split: sum.splits)

lemma StoreEvent_cases:
  assumes "StoreEvent E n w = (r, w')"
  obtains (failed) s where "r = Error (DriverError s)" "w' = tick w"
  | (stored) row where "row = \<lparr>ev_seq = events_seq w, ev_type = EventType_String (n_Type n),
        ev_data = n_Data n\<rparr>"
      "w' = persist ((db w)\<lparr>events_t := events_t (db w) @ [row]\<rparr>)
              ((tick w)\<lparr>events_seq := events_seq w + 1\<rparr>)"
      "r = Ok \<lparr>ns_Type = n_Type n, ns_Data = n_Data n, ns_Seq = events_seq w\<rparr> \<or>
       (\<exists>s. r = Error (DriverError s))"
  using assms by (auto simp: StoreEvent_def Let_def split: outcome.splits)

lemma MuteEventsWithTxID_exec:
  "MuteEventsWithTxID E i w = (r, w') \<Longrightarrow> \<exists>r1. sql_exec E (add_muted i) w = (r1, w')"
  by (auto simp: MuteEventsWithTxID_def catchE_def go_simps
      split: prod.splits res.splits sum.splits go_error.splits)

end
