(* ===== verification/WalletStorage.thy ===== *)
theory WalletStorage
  imports EventStorage
begin

text \<open>
  \<open>PostgresWalletStorage\<close> (\<open>wallet/postgresstorage.go\<close>): transactions, accounts and the
  metadata entries of the wallet, as the SQL statements of the code act on the tables.

  A method that changes the structure behind the pointer it was given returns that
  structure as a second result: \<open>StoreTransaction\<close> writes a generated identifier into it,
  \<open>updateReportedConfirmations\<close> the number reported. These changes stay when the database
  transaction around the call is rolled back.
\<close>

subsection \<open>Rows and transactions\<close>

definition transactionFromDatabaseRow :: "tx_row \<Rightarrow> go_error + Transaction" where
  "transactionFromDatabaseRow r =
     (case TransactionDirectionFromString (r_direction r) of
        Inl e \<Rightarrow> Inl e
      | Inr direction \<Rightarrow>
          (case TransactionStatusFromString (r_status r) of
             Inl e \<Rightarrow> Inl e
           | Inr status \<Rightarrow>
               Inr \<lparr>ID = r_id r, Hash = r_hash r, BlockHash = r_block_hash r,
                    Confirmations = r_confirmations r, Address = r_address r,
                    Direction = direction, Status = status, Amount = r_amount r,
                    Metainfo = (case r_metainfo r of None \<Rightarrow> JNull | Some j \<Rightarrow> j),
                    Fee = r_fee r, FeeTypeOf = fst (FeeTypeFromString (r_fee_type r)),
                    ColdStorage = r_cold_storage r, Fresh = False,
                    ReportedConfirmations = r_reported_confirmations r\<rparr>))"

text \<open>The values of the \<open>INSERT\<close> statement of \<open>StoreTransaction\<close>.\<close>

definition row_of_tx :: "Transaction \<Rightarrow> tx_row" where
  "row_of_tx tx =
     \<lparr>r_id = ID tx, r_hash = Hash tx, r_block_hash = BlockHash tx,
      r_confirmations = Confirmations tx, r_address = Address tx,
      r_direction = Direction_String (Direction tx), r_status = Status_String (Status tx),
      r_amount = Amount tx, r_metainfo = Some (Metainfo tx), r_fee = Fee tx,
      r_fee_type = FeeType_String (FeeTypeOf tx), r_cold_storage = ColdStorage tx,
      r_reported_confirmations = ReportedConfirmations tx\<rparr>"

text \<open>\<open>UPDATE transactions SET hash, block_hash, confirmations, status WHERE id\<close>\<close>

definition update_row :: "Transaction \<Rightarrow> uuid \<Rightarrow> tx_row \<Rightarrow> tx_row" where
  "update_row tx i r =
     (if r_id r = i
      then r\<lparr>r_hash := Hash tx, r_block_hash := BlockHash tx,
             r_confirmations := Confirmations tx, r_status := Status_String (Status tx)\<rparr>
      else r)"

definition first_row :: "tx_row list \<Rightarrow> go_error + Transaction" where
  "first_row rs = (case rs of [] \<Rightarrow> Inl ErrNoRows | r # _ \<Rightarrow> transactionFromDatabaseRow r)"

fun decode_rows :: "tx_row list \<Rightarrow> go_error + Transaction list" where
  "decode_rows [] = Inr []"
| "decode_rows (r # rs) =
     (case transactionFromDatabaseRow r of
        Inl e \<Rightarrow> Inl e
      | Inr t \<Rightarrow> (case decode_rows rs of Inl e \<Rightarrow> Inl e | Inr ts \<Rightarrow> Inr (t # ts)))"

definition query_one :: "env \<Rightarrow> (tx_row \<Rightarrow> bool) \<Rightarrow> Transaction M" where
  "query_one E P =
     bindE (sql_query E (\<lambda>d. filter P (transactions_t d))) (\<lambda>rs.
       case first_row rs of Inl e \<Rightarrow> failE e | Inr t \<Rightarrow> returnE t)"

definition query_many :: "env \<Rightarrow> (tx_row \<Rightarrow> bool) \<Rightarrow> Transaction list M" where
  "query_many E P =
     bindE (sql_query E (\<lambda>d. filter P (transactions_t d))) (\<lambda>rs.
       case decode_rows rs of Inl e \<Rightarrow> failE e | Inr ts \<Rightarrow> returnE ts)"

subsection \<open>Transactions\<close>

definition GetTransactionByHash :: "env \<Rightarrow> string \<Rightarrow> Transaction M" where
  "GetTransactionByHash E hash = query_one E (\<lambda>r. r_hash r = hash)"

definition GetTransactionByHashDirectionAndAddress :: "env \<Rightarrow> Transaction \<Rightarrow> Transaction M" where
  "GetTransactionByHashDirectionAndAddress E tx =
     query_one E (\<lambda>r. r_hash r = Hash tx \<and> r_direction r = Direction_String (Direction tx) \<and>
                       r_address r = Address tx)"

definition GetTransactionByID :: "env \<Rightarrow> uuid \<Rightarrow> Transaction M" where
  "GetTransactionByID E i = query_one E (\<lambda>r. r_id r = i)"

text \<open>A lookup in which \<open>sql.ErrNoRows\<close> means that the transaction is new.\<close>

definition lookup_existing :: "Transaction M \<Rightarrow> Transaction option M" where
  "lookup_existing q =
     catchE q (\<lambda>r. case r of
                      Inr t \<Rightarrow> returnE (Some t)
                    | Inl ErrNoRows \<Rightarrow> returnE None
                    | Inl e \<Rightarrow> failE e)"

definition existing_transaction :: "env \<Rightarrow> Transaction \<Rightarrow> Transaction option M" where
  "existing_transaction E tx =
     bindE (if ID tx \<noteq> uuid_Nil then lookup_existing (GetTransactionByID E (ID tx))
            else returnE None)
       (\<lambda>found. case found of
           Some t \<Rightarrow> returnE (Some t)
         | None \<Rightarrow>
             if Hash tx \<noteq> [] then lookup_existing (GetTransactionByHashDirectionAndAddress E tx)
             else returnE None)"

definition insert_tx :: "Transaction \<Rightarrow> database \<Rightarrow> go_error + database" where
  "insert_tx tx d =
     (if ID tx \<in> r_id ` set (transactions_t d) then Inl UniqueViolation
      else Inr (d\<lparr>transactions_t := transactions_t d @ [row_of_tx tx]\<rparr>))"

definition StoreTransaction ::
  "env \<Rightarrow> Transaction \<Rightarrow> world \<Rightarrow> Transaction res \<times> Transaction \<times> world" where
  "StoreTransaction E tx w =
     (case existing_transaction E tx w of
        (Error e, w1) \<Rightarrow> (Error e, tx, w1)
      | (Panic p, w1) \<Rightarrow> (Panic p, tx, w1)
      | (Ok (Some old), w1) \<Rightarrow>
          (case sql_exec E (\<lambda>d. Inr (d\<lparr>transactions_t :=
                               map (update_row tx (ID old)) (transactions_t d)\<rparr>)) w1 of
             (Ok _, w2) \<Rightarrow> (Transaction_Update old tx, tx, w2)
           | (Error e, w2) \<Rightarrow> (Error (GoError ''Update of tx data in DB failed''), tx, w2)
           | (Panic p, w2) \<Rightarrow> (Panic p, tx, w2))
      | (Ok None, w1) \<Rightarrow>
          (let (tx1, w2) = (if ID tx = uuid_Nil
                            then (tx\<lparr>ID := e_uuid E (now w1)\<rparr>, tick w1) else (tx, w1))
           in case sql_exec E (insert_tx tx1) w2 of
                (Ok _, w3) \<Rightarrow> (Ok tx1, tx1, w3)
              | (Error e, w3) \<Rightarrow> (Error (GoError ''Failed to insert new tx into DB''), tx1, w3)
              | (Panic p, w3) \<Rightarrow> (Panic p, tx1, w3)))"

definition GetBroadcastedTransactionsWithLessConfirmations :: "env \<Rightarrow> int \<Rightarrow> Transaction list M" where
  "GetBroadcastedTransactionsWithLessConfirmations E confirmations =
     query_many E (\<lambda>r. r_confirmations r < confirmations \<and> r_hash r \<noteq> [])"

definition updateReportedConfirmations ::
  "env \<Rightarrow> Transaction \<Rightarrow> int \<Rightarrow> world \<Rightarrow> unit res \<times> Transaction \<times> world" where
  "updateReportedConfirmations E tx n w =
     (case sql_exec E (\<lambda>d. Inr (d\<lparr>transactions_t :=
          map (\<lambda>r. if r_id r = ID tx then r\<lparr>r_reported_confirmations := n\<rparr> else r)
            (transactions_t d)\<rparr>)) w of
        (Ok _, w') \<Rightarrow> (Ok (), tx\<lparr>ReportedConfirmations := n\<rparr>, w')
      | (Error e, w') \<Rightarrow> (Error e, tx, w')
      | (Panic p, w') \<Rightarrow> (Panic p, tx, w'))"

definition GetPendingTransactions :: "env \<Rightarrow> Transaction list M" where
  "GetPendingTransactions E =
     query_many E (\<lambda>r. r_status r = Status_String PendingTransaction \<or>
                        r_status r = Status_String PendingColdStorageTransaction)"

definition GetTransactionsWithFilter :: "env \<Rightarrow> string \<Rightarrow> string \<Rightarrow> Transaction list M" where
  "GetTransactionsWithFilter E directionFilter statusFilter =
     query_many E (\<lambda>r. (directionFilter \<noteq> [] \<longrightarrow> r_direction r = directionFilter) \<and>
                        (statusFilter \<noteq> [] \<longrightarrow> r_status r = statusFilter))"

subsection \<open>Accounts and metadata\<close>

definition GetAccountByAddress :: "env \<Rightarrow> string \<Rightarrow> Account option M" where
  "GetAccountByAddress E address =
     bindE (sql_query E (\<lambda>d. map_of (accounts_t d) address)) (\<lambda>r.
       case r of
         None \<Rightarrow> returnE None
       | Some m \<Rightarrow> returnE (Some \<lparr>acc_Address = address, acc_Metainfo = m\<rparr>))"

definition StoreAccount :: "env \<Rightarrow> Account \<Rightarrow> unit M" where
  "StoreAccount E account =
     sql_exec E (\<lambda>d. if acc_Address account \<in> fst ` set (accounts_t d) then Inl UniqueViolation
       else Inr (d\<lparr>accounts_t := accounts_t d @ [(acc_Address account, acc_Metainfo account)]\<rparr>))"

definition GetLastSeenBlockHash :: "env \<Rightarrow> string M" where
  "GetLastSeenBlockHash E = GetMeta E ''last_seen_block_hash'' []"

definition SetLastSeenBlockHash :: "env \<Rightarrow> string \<Rightarrow> unit M" where
  "SetLastSeenBlockHash E hash = SetMeta E ''last_seen_block_hash'' hash"

definition GetHotWalletAddress :: "env \<Rightarrow> string M" where
  "GetHotWalletAddress E =
     bindE (GetMeta E ''hot_wallet_address'' []) (\<lambda>address.
       if address = [] then failE ErrHotWalletAddressNotGeneratedYet else returnE address)"

definition setHotWalletAddress :: "env \<Rightarrow> string \<Rightarrow> unit M" where
  "setHotWalletAddress E address = SetMeta E ''hot_wallet_address'' address"

definition GetMoneyRequiredFromColdStorage :: "env \<Rightarrow> uint64 M" where
  "GetMoneyRequiredFromColdStorage E =
     bindE (GetMeta E ''money_required_from_cold_storage'' ''0'') (\<lambda>s.
       case ParseUint s of Inl e \<Rightarrow> failE e | Inr n \<Rightarrow> returnE n)"

definition SetMoneyRequiredFromColdStorage :: "env \<Rightarrow> uint64 \<Rightarrow> unit M" where
  "SetMoneyRequiredFromColdStorage E amount =
     SetMeta E ''money_required_from_cold_storage'' (FormatUint amount)"

text \<open>
  \<open>LockWallet\<close> stores the JSON text of the operation.
\<close>

definition LockWallet :: "env \<Rightarrow> json \<Rightarrow> unit M" where
  "LockWallet E operation = SetMeta E ''wallet_operation'' (json_Marshal operation)"

definition ClearWallet :: "env \<Rightarrow> unit M" where
  "ClearWallet E = SetMeta E ''wallet_operation'' []"

definition CheckWalletLock :: "env \<Rightarrow> (bool \<times> string) M" where
  "CheckWalletLock E =
     bindE (GetMeta E ''wallet_operation'' []) (\<lambda>operation.
       returnE (operation = [], operation))"

end
