(* ===== verification/Notify.thy ===== *)
theory Notify
  imports WalletStorage
begin

text \<open>
  Notifications and the processing of one reported transaction: \<open>wallet/notify.go\<close>, the
  first half of \<open>wallet/updates.go\<close> and \<open>setTxStatusByConfirmations\<close>.
\<close>

subsection \<open>Wallet configuration\<close>

record walletData =
  hotWalletAddress :: string
  coldWalletAddress :: string
  minWithdraw :: BTCAmount
  minFeePerKb :: BTCAmount
  minFeeFixed :: BTCAmount
  minWithdrawWithoutManualConfirmation :: BTCAmount
  maxConfirmations :: int

definition unknownAccountError :: json where
  "unknownAccountError = JObj [(''error'', JStr ''account not found'')]"

definition hotStorageMeta :: json where
  "hotStorageMeta = JObj [(''kind'', JStr ''input to hot storage'')]"

subsection \<open>Triggers\<close>

text \<open>The triggers are channels of capacity 3; a trigger that finds no room is dropped.\<close>

definition triggerWSNotificationSending :: "world \<Rightarrow> world" where
  "triggerWSNotificationSending w =
     w\<lparr>wsNotificationTrigger := trySend 3 () (wsNotificationTrigger w)\<rparr>"

definition triggerHTTPNotificationSending :: "world \<Rightarrow> world" where
  "triggerHTTPNotificationSending w =
     w\<lparr>httpCallbackNotificationTrigger := trySend 3 False (httpCallbackNotificationTrigger w)\<rparr>"

definition SendNotifications :: "unit M" where
  "SendNotifications =
     modifyE (\<lambda>w. triggerHTTPNotificationSending (triggerWSNotificationSending w))"

definition schedulePendingTxUpdate :: "unit M" where
  "schedulePendingTxUpdate =
     modifyE (\<lambda>w. w\<lparr>pendingTxUpdateTrigger := trySend 3 () (pendingTxUpdateTrigger w)\<rparr>)"

lemma trigger_frame [simp]:
  "db (triggerHTTPNotificationSending (triggerWSNotificationSending w)) = db w"
  "trace (triggerHTTPNotificationSending (triggerWSNotificationSending w)) = trace w"
  "intx (triggerHTTPNotificationSending (triggerWSNotificationSending w)) = intx w"
  "events_seq (triggerHTTPNotificationSending (triggerWSNotificationSending w)) = events_seq w"
  by (simp_all add: triggerHTTPNotificationSending_def triggerWSNotificationSending_def)

subsection \<open>One notification\<close>

definition getTransactionNotificationType :: "int \<Rightarrow> Transaction \<Rightarrow> EventType res" where
  "getTransactionNotificationType confirmations tx =
     (case Direction tx of
        IncomingDirection \<Rightarrow>
          (if confirmations = 0 then Ok NewIncomingTxEvent else Ok IncomingTxConfirmedEvent)
      | OutgoingDirection \<Rightarrow>
          (if confirmations = 0 then Ok NewOutgoingTxEvent else Ok OutgoingTxConfirmedEvent)
      | _ \<Rightarrow> Panic ''Unexpected tx direction'')"

definition setTxStatusByConfirmations :: "walletData \<Rightarrow> Transaction \<Rightarrow> Transaction" where
  "setTxStatusByConfirmations W tx =
     (if Status tx \<noteq> NewTransaction \<and> Status tx \<noteq> ConfirmedTransaction \<and>
         Status tx \<noteq> FullyConfirmedTransaction then tx
      else if Confirmations tx \<le> 0 then tx\<lparr>Status := NewTransaction\<rparr>
      else if Confirmations tx > 0 \<and> Confirmations tx < maxConfirmations W
        then tx\<lparr>Status := ConfirmedTransaction\<rparr>
      else if Confirmations tx \<ge> maxConfirmations W
        then tx\<lparr>Status := FullyConfirmedTransaction\<rparr>
      else tx)"

definition tx_notification :: "lib \<Rightarrow> Transaction \<Rightarrow> TxNotification" where
  "tx_notification L tx =
     \<lparr>tn_Transaction = tx, StatusCode = ToCoinpaymentsLikeCode (Status tx),
      StatusStr = Status_String (Status tx), IpnType = ToCoinpaymentsLikeType (Direction tx),
      Currency = ''BTC'', IpnID = uuid_String L (ID tx), tn_Seq = 0\<rparr>"

text \<open>\<open>eventBroker.Notify\<close> stores the event; \<open>NotifyTransaction\<close> builds its data.\<close>

definition broker_Notify :: "env \<Rightarrow> EventType \<Rightarrow> event_data \<Rightarrow> unit M" where
  "broker_Notify E et d = bindE (StoreEvent E \<lparr>n_Type = et, n_Data = d\<rparr>) (\<lambda>_. returnE ())"

definition NotifyTransaction :: "env \<Rightarrow> EventType \<Rightarrow> Transaction \<Rightarrow> unit M" where
  "NotifyTransaction E et tx = broker_Notify E et (TxData (tx_notification (e_lib E) tx))"

subsection \<open>Sequential notifications\<close>

text \<open>The copy of the transaction that reports \<open>i\<close> confirmations.\<close>

definition notification_for :: "walletData \<Rightarrow> int \<Rightarrow> Transaction \<Rightarrow> Transaction" where
  "notification_for W i tx =
     (let n1 = tx\<lparr>Confirmations := i\<rparr>;
          n2 = (if i = 0 then n1\<lparr>BlockHash := []\<rparr> else n1)
      in setTxStatusByConfirmations W n2)"

definition notify_step ::
  "env \<Rightarrow> walletData \<Rightarrow> int \<Rightarrow> Transaction \<Rightarrow> world \<Rightarrow> unit res \<times> Transaction \<times> world" where
  "notify_step E W i tx w =
     (case getTransactionNotificationType i tx of
        Panic p \<Rightarrow> (Panic p, tx, w)
      | Error e \<Rightarrow> (Error e, tx, w)
      | Ok eventType \<Rightarrow>
          (case NotifyTransaction E eventType (notification_for W i tx) w of
             (Ok _, w1) \<Rightarrow> updateReportedConfirmations E tx i w1
           | (Error e, w1) \<Rightarrow> (Error e, tx, w1)
           | (Panic p, w1) \<Rightarrow> (Panic p, tx, w1)))"

fun notify_loop ::
  "env \<Rightarrow> walletData \<Rightarrow> int list \<Rightarrow> Transaction \<Rightarrow> world \<Rightarrow> unit res \<times> Transaction \<times> world" where
  "notify_loop E W [] tx w = (Ok (), tx, w)"
| "notify_loop E W (i # is) tx w =
     (case notify_step E W i tx w of
        (Ok _, tx', w') \<Rightarrow> notify_loop E W is tx' w'
      | (Error e, tx', w') \<Rightarrow> (Error e, tx', w')
      | (Panic p, tx', w') \<Rightarrow> (Panic p, tx', w'))"

definition notifyTransaction ::
  "env \<Rightarrow> walletData \<Rightarrow> Transaction \<Rightarrow> world \<Rightarrow> unit res \<times> Transaction \<times> world" where
  "notifyTransaction E W tx w =
     (let confirmationsToNotify = Min64 (Confirmations tx) (maxConfirmations W)
      in notify_loop E W [ReportedConfirmations tx + 1 .. confirmationsToNotify] tx w)"

subsection \<open>One reported transaction\<close>

definition getAccountMetainfo :: "env \<Rightarrow> Transaction \<Rightarrow> json M" where
  "getAccountMetainfo E tx =
     bindE (GetAccountByAddress E (Address tx)) (\<lambda>account.
       case account of
         None \<Rightarrow> returnE unknownAccountError
       | Some a \<Rightarrow> returnE (acc_Metainfo a))"

text \<open>
  The second result is the status that the caller of \<open>updateTxInfo\<close> finds in the structure
  it passed: the one set from the confirmations.
\<close>

definition updateTxInfo :: "env \<Rightarrow> walletData \<Rightarrow> Transaction \<Rightarrow> (bool \<times> TransactionStatus) M" where
  "updateTxInfo E W tx =
     (let isHotStorageTx = (Address tx = hotWalletAddress W) in
      bindE (if Direction tx = IncomingDirection
             then (if \<not> isHotStorageTx then getAccountMetainfo E tx else returnE hotStorageMeta)
             else returnE (Metainfo tx)) (\<lambda>metainfo.
      let tx1 = setTxStatusByConfirmations W (tx\<lparr>Metainfo := metainfo\<rparr>) in
      bindE (dropArg (StoreTransaction E tx1)) (\<lambda>stored.
      let txInfoChanged = (Fresh stored \<or> Status tx \<noteq> Status stored) in
      bindE (if \<not> isHotStorageTx \<and> \<not> ColdStorage stored
             then dropArg (notifyTransaction E W stored) else returnE ()) (\<lambda>_.
      returnE (txInfoChanged, Status tx1)))))"

end
