(* ===== verification/Withdraw.thy ===== *)
theory Withdraw
  imports Notify
begin

text \<open>
  Withdrawals: \<open>wallet/withdraw.go\<close>, and \<open>updatePendingTxStatus\<close> of \<open>wallet/pending.go\<close>.

  Sending money is the one step the database cannot undo. The code brackets it with a
  lock in the metadata: the lock is committed before the node is called and cleared in the
  same database transaction that stores the result; the process refuses to start while it
  is set.
\<close>

subsection \<open>Requests and limits\<close>

record WithdrawRequest =
  req_ID :: uuid
  req_Address :: string
  req_Amount :: BTCAmount
  req_Fee :: BTCAmount
  req_FeeType :: string
  req_Metainfo :: json

record internalWithdrawRequest =
  iw_tx :: Transaction
  iw_hold :: bool

fun isInsufficientFundsError :: "go_error \<Rightarrow> bool" where
  "isInsufficientFundsError (JSONRPCError _ message) = (message = ''Insufficient funds'')"
| "isInsufficientFundsError _ = False"

definition checkWithdrawLimits :: "walletData \<Rightarrow> WithdrawRequest \<Rightarrow> FeeType \<Rightarrow> go_error + bool" where
  "checkWithdrawLimits W request feeType =
     (if req_Amount request < minWithdraw W
      then Inl (GoError ''Error: refusing to withdraw: less than min withdraw amount'')
      else if feeType = PerKBRateFee \<and> req_Fee request < minFeePerKb W
      then Inl (GoError ''Error: refusing to withdraw: less than min withdraw fee'')
      else if feeType = FixedFee \<and> req_Fee request < minFeeFixed W
      then Inl (GoError ''Error: refusing to withdraw: less than min withdraw fee'')
      else if minWithdrawWithoutManualConfirmation W < req_Amount request then Inr True
      else Inr False)"

definition ensureTxIDIsFree :: "env \<Rightarrow> uuid \<Rightarrow> unit M" where
  "ensureTxIDIsFree E i =
     catchE (GetTransactionByID E i) (\<lambda>r.
       case r of
         Inl ErrNoRows \<Rightarrow> returnE ()
       | Inr _ \<Rightarrow> failE (GoError ''Tx with id already exists'')
       | Inl (ErrNoTxWithSuchID _) \<Rightarrow> returnE ()
       | Inl e \<Rightarrow> failE e)"

subsection \<open>Status changes of pending transactions\<close>

definition updatePendingTxStatus :: "env \<Rightarrow> Transaction \<Rightarrow> TransactionStatus \<Rightarrow> unit M" where
  "updatePendingTxStatus E tx status =
     (if status = Status tx then returnE ()
      else bindE (keepArg (StoreTransaction E (tx\<lparr>Status := status\<rparr>))) (\<lambda>(_, tx').
        NotifyTransaction E
          (if status = CancelledTransaction then PendingTxCancelledEvent
           else PendingStatusUpdatedEvent) tx'))"

subsection \<open>Transfers between accounts of the wallet\<close>

text \<open>The incoming side of an internal transfer, made from the outgoing transaction.\<close>

definition incoming_part :: "Account \<Rightarrow> Transaction \<Rightarrow> Transaction" where
  "incoming_part account tx =
     tx\<lparr>ReportedConfirmations := - 1, Direction := IncomingDirection,
        Metainfo := acc_Metainfo account, ID := uuid_Nil, Amount := Amount tx - Fee tx\<rparr>"

definition internal_transfer :: "env \<Rightarrow> walletData \<Rightarrow> Account \<Rightarrow> Transaction \<Rightarrow> unit M" where
  "internal_transfer E W account tx =
     (let tx1 = tx\<lparr>Confirmations := maxConfirmations W, Status := FullyConfirmedTransaction\<rparr> in
      bindE (if \<not> ColdStorage tx1
             then bindE (keepArg (StoreTransaction E tx1)) (\<lambda>(stored, tx2).
                  bindE (dropArg (notifyTransaction E W stored)) (\<lambda>_. returnE tx2))
             else returnE tx1) (\<lambda>tx2.
      bindE (dropArg (StoreTransaction E (incoming_part account tx2))) (\<lambda>stored.
      dropArg (notifyTransaction E W stored))))"

definition internalWithdrawBetweenOurAccounts ::
  "env \<Rightarrow> walletData \<Rightarrow> Transaction \<Rightarrow> Account \<Rightarrow> unit M" where
  "internalWithdrawBetweenOurAccounts E W tx account =
     (let tx0 = (if FeeTypeOf tx \<noteq> FixedFee then tx\<lparr>Fee := 0\<rparr> else tx) in
      if Amount tx0 < Fee tx0
      then failE (GoError ''Internal withdraw fee is larger than withdraw amount'')
      else bindE (transact E (internal_transfer E W account tx0)) (\<lambda>_. schedulePendingTxUpdate))"

subsection \<open>Storing the result of a payment\<close>

text \<open>
  The retry loop: the function is tried again after each error, the last of the
  \<open>withdrawSaveRetries\<close> retries failing is a panic. The variables \<open>'m\<close> are those the
  function has captured; what a failed attempt did to them is seen by the next one.
\<close>

definition withdrawSaveRetries :: nat where
  "withdrawSaveRetries = 10"

fun persistWithRetry ::
  "nat \<Rightarrow> ('m \<Rightarrow> world \<Rightarrow> unit res \<times> 'm \<times> world) \<Rightarrow> 'm \<Rightarrow> world \<Rightarrow> unit res \<times> 'm \<times> world" where
  "persistWithRetry 0 f m w =
     (case f m w of
        (Ok _, m', w') \<Rightarrow> (Ok (), m', w')
      | (Error _, m', w') \<Rightarrow> (Panic ''FATAL: given up, aborting wallet'', m', w')
      | (Panic p, m', w') \<Rightarrow> (Panic p, m', w'))"
| "persistWithRetry (Suc retries) f m w =
     (case f m w of
        (Ok _, m', w') \<Rightarrow> (Ok (), m', w')
      | (Error _, m', w') \<Rightarrow> persistWithRetry retries f m' w'
      | (Panic p, m', w') \<Rightarrow> (Panic p, m', w'))"

definition persistWithdrawResultWithRetry ::
  "('m \<Rightarrow> world \<Rightarrow> unit res \<times> 'm \<times> world) \<Rightarrow> 'm \<Rightarrow> unit M" where
  "persistWithdrawResultWithRetry f m w = dropArg (persistWithRetry withdrawSaveRetries f m) w"

definition persist_success :: "env \<Rightarrow> walletData \<Rightarrow> Transaction \<Rightarrow> world \<Rightarrow> unit res \<times> Transaction \<times> world" where
  "persist_success E W tx w =
     bindE (onMem (StoreTransaction E)) (\<lambda>_.
     bindE (onMem (\<lambda>t v. if \<not> ColdStorage t then notifyTransaction E W t v else (Ok (), t, v))) (\<lambda>_.
     onWorld (ClearWallet E))) (tx, w)"

definition handleWithdrawalSuccess :: "env \<Rightarrow> walletData \<Rightarrow> Transaction \<Rightarrow> string \<Rightarrow> unit M" where
  "handleWithdrawalSuccess E W tx txHash =
     persistWithdrawResultWithRetry (MakeTransactIfAvailable E (persist_success E W))
       (tx\<lparr>Status := NewTransaction, Hash := txHash\<rparr>)"

text \<open>Here each attempt works on a fresh copy of the transaction.\<close>

definition persist_failure :: "env \<Rightarrow> bool \<Rightarrow> Transaction \<Rightarrow> unit M" where
  "persist_failure E makePending tx =
     bindE (if makePending then updatePendingTxStatus E tx PendingTransaction else returnE ())
       (\<lambda>_. ClearWallet E)"

definition handleWithdrawalError :: "env \<Rightarrow> go_error \<Rightarrow> Transaction \<Rightarrow> unit M" where
  "handleWithdrawalError E err tx =
     (let makePending = (isInsufficientFundsError err \<and> \<not> ColdStorage tx) in
      bindE (persistWithdrawResultWithRetry
               (\<lambda>m w. case transact E (persist_failure E makePending tx) w of (r, w') \<Rightarrow> (r, m, w')) ())
        (\<lambda>_. if \<not> makePending then failE err else returnE ()))"

subsection \<open>Sending\<close>

text \<open>The call of \<open>SendWithPerKBFee\<close> or \<open>SendWithFixedFee\<close>; the recipient pays the fee.\<close>

definition sendMoney :: "env \<Rightarrow> Transaction \<Rightarrow> (go_error + string) M" where
  "sendMoney E tx w =
     (let r = e_Send E (now w) (FeeTypeOf tx) (Address tx) (Amount tx) (Fee tx) True
      in (Ok r, (tick w)\<lparr>trace :=
            EffSend (ID tx) (Address tx) (Amount tx) (Fee tx) r # trace w\<rparr>))"

definition withdraw_operation :: "lib \<Rightarrow> Transaction \<Rightarrow> json" where
  "withdraw_operation L tx = JObj [(''operation'', JStr ''withdraw''), (''tx'', marshal_Transaction L tx)]"

definition sendWithdrawal :: "env \<Rightarrow> walletData \<Rightarrow> Transaction \<Rightarrow> bool \<Rightarrow> unit M" where
  "sendWithdrawal E W tx updatePending =
     bindE (GetAccountByAddress E (Address tx)) (\<lambda>ourAccount.
       case ourAccount of
         Some account \<Rightarrow> internalWithdrawBetweenOurAccounts E W tx account
       | None \<Rightarrow>
           if FeeTypeOf tx \<noteq> PerKBRateFee \<and> FeeTypeOf tx \<noteq> FixedFee
           then failE (GoError ''Fee type not supported: '')
           else bindE (transact E (LockWallet E (withdraw_operation (e_lib E) tx))) (\<lambda>_.
                bindE (sendMoney E tx) (\<lambda>sent.
                bindE (case sent of
                         Inl err \<Rightarrow> handleWithdrawalError E err tx
                       | Inr txHash \<Rightarrow> handleWithdrawalSuccess E W tx txHash) (\<lambda>_.
                bindE SendNotifications (\<lambda>_.
                if updatePending then schedulePendingTxUpdate else returnE ())))))"

definition holdWithdrawalUntilConfirmed :: "env \<Rightarrow> Transaction \<Rightarrow> unit M" where
  "holdWithdrawalUntilConfirmed E tx =
     bindE (transact E (updatePendingTxStatus E tx PendingManualConfirmationTransaction)) (\<lambda>_.
     bindE (modifyE (\<lambda>w. w\<lparr>txnsWaitingManualConfirmationCount :=
                            txnsWaitingManualConfirmationCount w + 1\<rparr>)) (\<lambda>_.
     SendNotifications))"

text \<open>\<open>withdraw\<close> of the wallet updater goroutine.\<close>

definition wallet_withdraw :: "env \<Rightarrow> walletData \<Rightarrow> Transaction \<Rightarrow> bool \<Rightarrow> unit M" where
  "wallet_withdraw E W tx hold =
     bindE (ensureTxIDIsFree E (ID tx)) (\<lambda>_.
       if hold then holdWithdrawalUntilConfirmed E tx else sendWithdrawal E W tx True)"

subsection \<open>The public method\<close>

text \<open>
  \<open>Withdraw\<close> checks a request and queues it for the updater goroutine; the result is the
  queued request. The transaction built from the request has the zero value of every field
  that is not set, so its status is \<open>NewTransaction\<close>.
\<close>

definition outgoing_tx :: "WithdrawRequest \<Rightarrow> FeeType \<Rightarrow> string \<Rightarrow> bool \<Rightarrow> Transaction" where
  "outgoing_tx request feeType address toColdStorage =
     \<lparr>ID = req_ID request, Hash = [], BlockHash = [], Confirmations = 0, Address = address,
      Direction = OutgoingDirection, Status = NewTransaction, Amount = req_Amount request,
      Metainfo = req_Metainfo request, Fee = req_Fee request, FeeTypeOf = feeType,
      ColdStorage = toColdStorage, Fresh = True, ReportedConfirmations = - 1\<rparr>"

definition Withdraw :: "walletData \<Rightarrow> WithdrawRequest \<Rightarrow> bool \<Rightarrow> go_error + internalWithdrawRequest" where
  "Withdraw W request toColdStorage =
     (case FeeTypeFromString (req_FeeType request) of
        (_, Some e) \<Rightarrow> Inl e
      | (feeType, None) \<Rightarrow>
          (case (if \<not> toColdStorage then checkWithdrawLimits W request feeType else Inr False) of
             Inl e \<Rightarrow> Inl e
           | Inr needManualConfirmation \<Rightarrow>
               if req_Address request = [] \<and> \<not> toColdStorage
               then Inl (GoError ''Cannot process withdraw: address is empty'')
               else if req_Address request = [] \<and> coldWalletAddress W = []
               then Inl (GoError ''Withdraw to cold storage failed: address is not given'')
               else
                 (let address = (if req_Address request = [] then coldWalletAddress W
                                 else req_Address request) in
                  if address = hotWalletAddress W
                  then Inl (GoError ''Refusing to withdraw to hot wallet address'')
                  else Inr \<lparr>iw_tx = outgoing_tx request feeType address toColdStorage,
                            iw_hold = (\<not> toColdStorage \<and> needManualConfirmation)\<rparr>)))"

end
