(* ===== verification/Example.thy ===== *)
theory Example
  imports Database
begin

text \<open>
  Concrete surroundings on which the definitions are evaluated: every statement succeeds,
  the node accepts every payment and names it by the number of the question, the balance is
  1000000 satoshi. \<open>example_db\<close> is the database that \<open>tools/init-db.sql\<close> creates, and
  \<open>example_world\<close> the world before the first start.
\<close>

definition example_env :: env where
  "example_env =
     \<lparr>e_sql = (\<lambda>_. Succeeds), e_uuid = (\<lambda>_. 77),
      e_CreateNewAddress = (\<lambda>_. Inr ''address''),
      e_ListTransactionsSinceBlock = (\<lambda>_ _. Inr ([], ''block'')),
      e_GetTransaction = (\<lambda>_ h. Inr \<lparr>gt_TxID = h, gt_BlockHash = [], gt_Confirmations = 0\<rparr>),
      e_Send = (\<lambda>n _ _ _ _ _. Inr (''hash'' @ replicate n CHR ''x'')),
      e_GetAddressInfo = (\<lambda>_ _. Inr \<lparr>IsMine = True\<rparr>),
      e_Balance = (\<lambda>_. Inr (1000000, 0)),
      e_Post = (\<lambda>_ _. Inr 200),
      e_sortByAmount = sort_key (\<lambda>t. unat (Amount t)), e_lib = example_lib\<rparr>"

definition example_db :: database where
  "example_db =
     \<lparr>events_t = [], accounts_t = [], transactions_t = [], metadata_t = (\<lambda>_. None), muted_t = []\<rparr>"

definition example_world :: world where
  "example_world =
     \<lparr>db = example_db, events_seq = 1, intx = False, now = 0, trace = [],
      pendingTxUpdateTrigger = [], externalTxNotifications = [], wsNotificationTrigger = [],
      httpCallbackNotificationTrigger = [], timers = [],
      txnsWaitingManualConfirmationCount = 0, txnsWaitingBlockchainConfirmationCount = 0\<rparr>"

end
