(* ===== verification/Broadcaster.thy ===== *)
theory Broadcaster
  imports EventStorage Example
begin

text \<open>
  Delivery of events to websocket subscribers: \<open>broadcasterWithStorage\<close>
  (\<open>events/broadcaster.go\<close>) and \<open>InMemoryEventStorage\<close> (\<open>events/memorystorage.go\<close>).

  A channel is named by a number and holds the slices that were sent and not yet received.
  The map of subscriptions is an association list; Go iterates over it in an unspecified
  order, which does not matter because every subscription has a channel of its own.

  What the broadcaster relies on is the locale \<open>event_log\<close>: a store that keeps its events
  ordered by sequence number and appends with a larger one. The guarantee to a subscriber is
  proved there, for any such store, and holds for both implementations.
\<close>

subsection \<open>The in-memory event storage\<close>

record InMemoryEventStorage =
  mem_events :: "NotificationWithSeq list"
  mem_lastHTTPSentSeq :: int
  mem_httpCallbackOperation :: string

definition mem_StoreEvent ::
  "Notification \<Rightarrow> InMemoryEventStorage \<Rightarrow> NotificationWithSeq \<times> InMemoryEventStorage" where
  "mem_StoreEvent event s =
     (let eventWithSeq = \<lparr>ns_Type = n_Type event, ns_Data = n_Data event,
                          ns_Seq = int (length (mem_events s))\<rparr>
      in (eventWithSeq, s\<lparr>mem_events := mem_events s @ [eventWithSeq]\<rparr>))"

text \<open>The slice expression panics when the index is negative.\<close>

definition mem_GetEventsFromSeq :: "int \<Rightarrow> InMemoryEventStorage \<Rightarrow> NotificationWithSeq list res" where
  "mem_GetEventsFromSeq seq s =
     (let i = Min seq (int (length (mem_events s)))
      in if i < 0 then Panic ''slice bounds out of range'' else Ok (drop (nat i) (mem_events s)))"

definition mem_GetNextEventFromSeq :: "int \<Rightarrow> InMemoryEventStorage \<Rightarrow> NotificationWithSeq res" where
  "mem_GetNextEventFromSeq seq s =
     (if int (length (mem_events s)) \<le> seq then Error ErrNoSuchEvent
      else if seq < 0 then Panic ''index out of range''
      else Ok (mem_events s ! nat seq))"

definition mem_GetLastHTTPSentSeq :: "InMemoryEventStorage \<Rightarrow> int" where
  "mem_GetLastHTTPSentSeq s = mem_lastHTTPSentSeq s"

definition mem_StoreLastHTTPSentSeq :: "int \<Rightarrow> InMemoryEventStorage \<Rightarrow> InMemoryEventStorage" where
  "mem_StoreLastHTTPSentSeq seq s = s\<lparr>mem_lastHTTPSentSeq := seq\<rparr>"

definition mem_LockHTTPCallback :: "int \<Rightarrow> InMemoryEventStorage \<Rightarrow> InMemoryEventStorage" where
  "mem_LockHTTPCallback seq s = s\<lparr>mem_httpCallbackOperation := Itoa seq\<rparr>"

definition mem_ClearHTTPCallback :: "InMemoryEventStorage \<Rightarrow> InMemoryEventStorage" where
  "mem_ClearHTTPCallback s = s\<lparr>mem_httpCallbackOperation := []\<rparr>"

definition mem_CheckHTTPCallbackLock :: "InMemoryEventStorage \<Rightarrow> bool \<times> string" where
  "mem_CheckHTTPCallbackLock s =
     (mem_httpCallbackOperation s = [], mem_httpCallbackOperation s)"

definition mem_MuteEventsWithTxID :: "uuid \<Rightarrow> InMemoryEventStorage \<Rightarrow> unit res" where
  "mem_MuteEventsWithTxID i s =
     Panic ''In-memory storage does not support muting events for now''"

definition newInMemoryEventStorage :: InMemoryEventStorage where
  "newInMemoryEventStorage =
     \<lparr>mem_events = [], mem_lastHTTPSentSeq = 0, mem_httpCallbackOperation = []\<rparr>"

subsection \<open>The broadcaster\<close>

definition channelSize :: nat where
  "channelSize = 10000"

record broadcasterWithStorage =
  subs :: "(nat \<times> int) list"
  minSeq :: int
  chans :: "nat \<Rightarrow> NotificationWithSeq list list"
  closed :: "nat list"
  nextChan :: nat

definition newBroadcasterWithStorage :: broadcasterWithStorage where
  "newBroadcasterWithStorage =
     \<lparr>subs = [], minSeq = 0, chans = (\<lambda>_. []), closed = [], nextChan = 0\<rparr>"

text \<open>One iteration of the loop over the subscriptions: send or disconnect.\<close>

definition broadcast_to ::
  "NotificationWithSeq list \<Rightarrow> int \<Rightarrow> nat \<times> int \<Rightarrow> broadcasterWithStorage \<Rightarrow> broadcasterWithStorage" where
  "broadcast_to events nextSeq sub b =
     (case sub of (ch, seq) \<Rightarrow>
        (case dropWhile (\<lambda>e. ns_Seq e < seq) events of
           [] \<Rightarrow> b
         | part \<Rightarrow>
             if length (chans b ch) < channelSize
             then b\<lparr>chans := (chans b)(ch := chans b ch @ [part]),
                    subs := map (\<lambda>(c, q). if c = ch then (c, nextSeq) else (c, q)) (subs b)\<rparr>
             else b\<lparr>closed := ch # closed b, subs := filter (\<lambda>(c, q). c \<noteq> ch) (subs b)\<rparr>))"

definition Broadcast :: "NotificationWithSeq list \<Rightarrow> broadcasterWithStorage \<Rightarrow> broadcasterWithStorage" where
  "Broadcast events b =
     (if events = [] then b
      else let nextSeq = ns_Seq (last events) + 1
           in (fold (broadcast_to events nextSeq) (subs b) b)\<lparr>minSeq := nextSeq\<rparr>)"

definition SubscribeFromSeq :: "int \<Rightarrow> broadcasterWithStorage \<Rightarrow> nat \<times> broadcasterWithStorage" where
  "SubscribeFromSeq seq b =
     (let ch = nextChan b
      in (ch, b\<lparr>subs := (ch, seq) # subs b, minSeq := Min seq (minSeq b),
                chans := (chans b)(ch := []), nextChan := ch + 1\<rparr>))"

definition Unsubscribe :: "nat \<Rightarrow> broadcasterWithStorage \<Rightarrow> broadcasterWithStorage" where
  "Unsubscribe ch b =
     (if ch \<notin> fst ` set (subs b) then b
      else b\<lparr>closed := ch # closed b, subs := filter (\<lambda>(c, q). c \<noteq> ch) (subs b)\<rparr>)"

definition Close :: "broadcasterWithStorage \<Rightarrow> broadcasterWithStorage" where
  "Close b = b\<lparr>closed := map fst (subs b) @ closed b, subs := []\<rparr>"

text \<open>The websocket goroutine takes the oldest slice of its channel.\<close>

definition receive :: "nat \<Rightarrow> broadcasterWithStorage \<Rightarrow> NotificationWithSeq list \<times> broadcasterWithStorage" where
  "receive ch b =
     (case chans b ch of
        [] \<Rightarrow> ([], b)
      | part # parts \<Rightarrow> (part, b\<lparr>chans := (chans b)(ch := parts)\<rparr>))"

subsection \<open>The effect of one broadcast\<close>

text \<open>Every subscription is treated on its own; the loop is a map over the subscriptions.\<close>

definition next_seq_of :: "NotificationWithSeq list \<Rightarrow> int \<Rightarrow> int" where
  "next_seq_of events q =
     (if dropWhile (\<lambda>e. ns_Seq e < q) events = [] then q else ns_Seq (last events) + 1)"

lemma broadcast_to_subs:
  "ch' \<noteq> ch \<Longrightarrow> (ch', q') \<in> set (subs (broadcast_to es n (ch, q) b)) \<longleftrightarrow> (ch', q') \<in> set (subs b)"
  by (cases "dropWhile (\<lambda>e. ns_Seq e < q) es")
    (force simp: broadcast_to_def simp del: dropWhile_eq_Nil_conv split: if_splits)+

lemma broadcast_to_chans:
  "ch' \<noteq> ch \<Longrightarrow> chans (broadcast_to es n (ch, q) b) ch' = chans b ch'"
  by (auto simp: broadcast_to_def split: list.splits)

lemma broadcast_to_frame [simp]:
  "minSeq (broadcast_to es n s b) = minSeq b" "nextChan (broadcast_to es n s b) = nextChan b"
  by (auto simp: broadcast_to_def split: list.splits prod.splits)

lemma broadcast_to_own:
  assumes "(ch, q') \<in> set (subs (broadcast_to es n (ch, q) b))" and "\<And>p. (ch, p) \<in> set (subs b) \<Longrightarrow> p = q"
  shows "concat (chans (broadcast_to es n (ch, q) b) ch) =
      concat (chans b ch) @ dropWhile (\<lambda>e. ns_Seq e < q) es \<and>
    q' = (if dropWhile (\<lambda>e. ns_Seq e < q) es = [] then q else n)"
proof (cases "dropWhile (\<lambda>e. ns_Seq e < q) es")
  case Nil
  with assms show ?thesis by (simp add: broadcast_to_def del: dropWhile_eq_Nil_conv)
next
  case (Cons x xs)
  with assms(1) show ?thesis by (auto simp: broadcast_to_def split: if_splits)
qed

lemma fold_broadcast_to_other:
  "ch \<notin> fst ` set ss \<Longrightarrow>
     ((ch, q) \<in> set (subs (fold (broadcast_to es n) ss b)) \<longleftrightarrow> (ch, q) \<in> set (subs b)) \<and>
     chans (fold (broadcast_to es n) ss b) ch = chans b ch"
proof (induction ss arbitrary: b)
  case (Cons s ss)
  obtain c p where s: "s = (c, p)" by (cases s)
  with Cons.prems have "c \<noteq> ch" by auto
  with Cons s show ?case by (simp add: broadcast_to_subs broadcast_to_chans)
qed simp

lemma fold_broadcast_to_frame [simp]:
  "minSeq (fold (broadcast_to es n) ss b) = minSeq b"
  "nextChan (fold (broadcast_to es n) ss b) = nextChan b"
  by (induction ss arbitrary: b) simp_all

lemma fold_broadcast_to:
  assumes "distinct (map fst ss)" and "(ch, q) \<in> set ss"
    and "\<And>p. (ch, p) \<in> set (subs b) \<Longrightarrow> p = q"
    and "(ch, q') \<in> set (subs (fold (broadcast_to es n) ss b))"
  shows "concat (chans (fold (broadcast_to es n) ss b) ch) =
      concat (chans b ch) @ dropWhile (\<lambda>e. ns_Seq e < q) es \<and>
    q' = (if dropWhile (\<lambda>e. ns_Seq e < q) es = [] then q else n)"
  using assms
proof (induction ss arbitrary: b)
  case (Cons s ss)
  obtain c p where s: "s = (c, p)" by (cases s)
  show ?case
  proof (cases "c = ch")
    case True
    with Cons.prems s have p: "p = q" and o: "ch \<notin> fst ` set ss" by (auto simp: rev_image_eqI)
    from fold_broadcast_to_other [OF o] Cons.prems(4) s p True
    have "(ch, q') \<in> set (subs (broadcast_to es n (ch, q) b))" by simp
    from broadcast_to_own [OF this Cons.prems(3)] fold_broadcast_to_other [OF o] s p True
    show ?thesis by simp
  next
    case False
    with Cons.prems s have "(ch, q) \<in> set ss" "distinct (map fst ss)" by auto
    with Cons.IH [of "broadcast_to es n s b"] Cons.prems(3,4) s False show ?thesis
      by (simp add: broadcast_to_subs broadcast_to_chans)
  qed
qed simp

lemma fst_map_sub [simp]: "fst \<circ> (\<lambda>(c, q). if c = ch then (c, n) else (c, q)) = fst"
  by auto

lemma distinct_filter_sub: "distinct (map fst xs) \<Longrightarrow> distinct (map fst (filter P xs))"
  by (rule distinct_map_filter)

lemma broadcast_to_keys:
  "distinct (map fst (subs b)) \<Longrightarrow>
     distinct (map fst (subs (broadcast_to es n s b))) \<and>
     fst ` set (subs (broadcast_to es n s b)) \<subseteq> fst ` set (subs b)"
  by (auto simp: broadcast_to_def distinct_filter_sub image_image [symmetric] image_comp
      split: list.splits prod.splits if_splits intro: rev_image_eqI)

lemma fold_broadcast_to_keys:
  "distinct (map fst (subs b)) \<Longrightarrow>
     distinct (map fst (subs (fold (broadcast_to es n) ss b))) \<and>
     fst ` set (subs (fold (broadcast_to es n) ss b)) \<subseteq> fst ` set (subs b)"
proof (induction ss arbitrary: b)
  case (Cons s ss)
  note k = broadcast_to_keys [OF Cons.prems, of es n s]
  with Cons.IH [of "broadcast_to es n s b"] show ?case by (simp, blast)
qed simp

subsection \<open>What the broadcaster relies on\<close>

text \<open>
  A run of the broadcaster on a log that starts in a state satisfying \<open>ok\<close>. \<open>starts\<close>
  remembers the number each subscriber asked for and \<open>got\<close> what it has received; \<open>reads q s es\<close>
  says that reading from \<open>q\<close> on may return \<open>es\<close>, and \<open>adds n s s'\<close> that storing \<open>n\<close> may
  lead to \<open>s'\<close> (a storage operation may also fail).
\<close>

inductive delivery :: "('s \<Rightarrow> bool) \<Rightarrow> (int \<Rightarrow> 's \<Rightarrow> NotificationWithSeq list \<Rightarrow> bool) \<Rightarrow>
    (Notification \<Rightarrow> 's \<Rightarrow> 's \<Rightarrow> bool) \<Rightarrow> 's \<Rightarrow> broadcasterWithStorage \<Rightarrow> (nat \<Rightarrow> int) \<Rightarrow>
    (nat \<Rightarrow> NotificationWithSeq list) \<Rightarrow> bool"
  for ok reads adds where
  init: "ok s \<Longrightarrow> delivery ok reads adds s newBroadcasterWithStorage starts (\<lambda>_. [])"
| store: "delivery ok reads adds s b starts got \<Longrightarrow> n_Type n \<noteq> InvalidEvent \<Longrightarrow> adds n s s' \<Longrightarrow>
    delivery ok reads adds s' b starts got"
| broadcast: "delivery ok reads adds s b starts got \<Longrightarrow> reads (minSeq b) s es \<Longrightarrow>
    delivery ok reads adds s (Broadcast es b) starts got"
| subscribe: "delivery ok reads adds s b starts got \<Longrightarrow> 0 \<le> q \<Longrightarrow> SubscribeFromSeq q b = (ch, b') \<Longrightarrow>
    delivery ok reads adds s b' (starts(ch := q)) (got(ch := []))"
| unsubscribe: "delivery ok reads adds s b starts got \<Longrightarrow>
    delivery ok reads adds s (Unsubscribe ch b) starts got"
| receive: "delivery ok reads adds s b starts got \<Longrightarrow> receive ch b = (part, b') \<Longrightarrow>
    delivery ok reads adds s b' starts (got(ch := got ch @ part))"

text \<open>
  The interface: the events \<open>evs\<close> a reader can see are ordered by their numbers, a read
  returns those from a number on, and storing appends one with a larger number.
\<close>

locale event_log =
  fixes ok :: "'s \<Rightarrow> bool"
    and evs :: "'s \<Rightarrow> NotificationWithSeq list"
    and reads :: "int \<Rightarrow> 's \<Rightarrow> NotificationWithSeq list \<Rightarrow> bool"
    and adds :: "Notification \<Rightarrow> 's \<Rightarrow> 's \<Rightarrow> bool"
    and shown :: "event_data \<Rightarrow> event_data"
  assumes increasing: "ok s \<Longrightarrow> sorted_wrt (<) (map ns_Seq (evs s))"
    and reading: "ok s \<Longrightarrow> 0 \<le> q \<Longrightarrow> reads q s es \<Longrightarrow> es = filter (\<lambda>e. q \<le> ns_Seq e) (evs s)"
    and adding: "ok s \<Longrightarrow> n_Type n \<noteq> InvalidEvent \<Longrightarrow> adds n s s' \<Longrightarrow> ok s' \<and>
      (evs s' = evs s \<or>
       (\<exists>e. ns_Type e = n_Type n \<and> ns_Data e = shown (n_Data n) \<and>
            (\<forall>e' \<in> set (evs s). ns_Seq e' < ns_Seq e) \<and> evs s' = evs s @ [e]))"
begin

text \<open>The position \<open>q\<close> of a subscriber: everything before it was handed over, in order.\<close>

definition place :: "'s \<Rightarrow> int \<Rightarrow> int \<Rightarrow> NotificationWithSeq list \<Rightarrow> int \<Rightarrow> bool" where
  "place s m start seen q \<longleftrightarrow> m \<le> q \<and>
     seen = filter (\<lambda>e. start \<le> ns_Seq e \<and> ns_Seq e < q) (evs s) \<and>
     (q = start \<or> (\<exists>e \<in> set (evs s). q = ns_Seq e + 1 \<and> start \<le> q))"

definition served :: "'s \<Rightarrow> broadcasterWithStorage \<Rightarrow> (nat \<Rightarrow> int) \<Rightarrow>
    (nat \<Rightarrow> NotificationWithSeq list) \<Rightarrow> bool" where
  "served s b starts got \<longleftrightarrow> ok s \<and> distinct (map fst (subs b)) \<and> 0 \<le> minSeq b \<and>
     (\<forall>ch q. (ch, q) \<in> set (subs b) \<longrightarrow> ch < nextChan b \<and>
        place s (minSeq b) (starts ch) (got ch @ concat (chans b ch)) q)"

lemma filter_split:
  assumes "sorted_wrt (<) (map ns_Seq xs)" "a \<le> q"
  shows "filter (\<lambda>e. a \<le> ns_Seq e) xs =
    filter (\<lambda>e. a \<le> ns_Seq e \<and> ns_Seq e < q) xs @ filter (\<lambda>e. q \<le> ns_Seq e) xs"
  using assms
proof (induction xs)
  case (Cons x xs)
  show ?case
  proof (cases "ns_Seq x < q")
    case False
    with Cons.prems have "filter (\<lambda>e. a \<le> ns_Seq e \<and> ns_Seq e < q) xs = []"
      by (auto simp: filter_empty_conv)
    moreover from False Cons.prems have "filter (\<lambda>e. a \<le> ns_Seq e) xs = xs" "filter (\<lambda>e. q \<le> ns_Seq e) xs = xs"
      by (auto intro!: filter_True)
    ultimately show ?thesis using False Cons.prems by auto
  qed (use Cons in auto)
qed simp

lemma dropWhile_filter:
  assumes "sorted_wrt (<) (map ns_Seq xs)" "m \<le> q"
  shows "dropWhile (\<lambda>e. ns_Seq e < q) (filter (\<lambda>e. m \<le> ns_Seq e) xs) =
    filter (\<lambda>e. q \<le> ns_Seq e) xs"
  using assms
proof (induction xs)
  case (Cons x xs)
  show ?case
  proof (cases "ns_Seq x < q")
    case False
    with Cons.prems have "filter (\<lambda>e. q \<le> ns_Seq e) xs = xs" "filter (\<lambda>e. m \<le> ns_Seq e) xs = xs"
      by (auto intro!: filter_True)
    with False Cons.prems show ?thesis by simp
  qed (use Cons in auto)
qed simp

lemma filter_below_last:
  assumes "sorted_wrt (<) (map ns_Seq xs)" "e \<in> set xs"
  shows "filter (\<lambda>x. q \<le> ns_Seq x) xs \<noteq> [] \<Longrightarrow>
    ns_Seq e \<le> ns_Seq (last (filter (\<lambda>x. q \<le> ns_Seq x) xs))"
  using assms
proof (induction xs rule: rev_induct)
  case (snoc x xs)
  show ?case
  proof (cases "q \<le> ns_Seq x")
    case True
    with snoc.prems show ?thesis by (auto simp: sorted_wrt_append)
  next
    case False
    with snoc.prems show ?thesis by (auto simp: sorted_wrt_append filter_empty_conv)
  qed
qed simp

text \<open>A subscriber that is handed everything from its position on moves behind the last event.\<close>

lemma place_advance:
  assumes "ok s" "place s m start seen q" "l \<in> set (evs s)" "n = ns_Seq l + 1"
    and top: "\<And>e. e \<in> set (evs s) \<Longrightarrow> ns_Seq e < n"
    and q': "q' = (if filter (\<lambda>e. q \<le> ns_Seq e) (evs s) = [] then q else n)"
  shows "place s n start (seen @ filter (\<lambda>e. q \<le> ns_Seq e) (evs s)) q' \<and> filter (\<lambda>e. q' \<le> ns_Seq e) (evs s) = []"
proof (cases "filter (\<lambda>e. q \<le> ns_Seq e) (evs s) = []")
  case True
  moreover from True assms(3) have "ns_Seq l < q" by (auto simp: filter_empty_conv not_le)
  ultimately show ?thesis using assms(2,4) q' by (auto simp: place_def)
next
  case False
  have st: "start \<le> q" using assms(2) by (auto simp: place_def)
  have "seen @ filter (\<lambda>e. q \<le> ns_Seq e) (evs s) = filter (\<lambda>e. start \<le> ns_Seq e) (evs s)"
    using assms(2) filter_split [OF increasing [OF assms(1)] st] by (simp add: place_def)
  also have "\<dots> = filter (\<lambda>e. start \<le> ns_Seq e \<and> ns_Seq e < n) (evs s)" using top by (auto intro!: filter_cong)
  finally have "seen @ filter (\<lambda>e. q \<le> ns_Seq e) (evs s) = filter (\<lambda>e. start \<le> ns_Seq e \<and> ns_Seq e < n) (evs s)" .
  moreover from False obtain x where "x \<in> set (evs s)" "q \<le> ns_Seq x" by (auto simp: filter_empty_conv)
  with top st have "start \<le> n" by fastforce
  moreover have "filter (\<lambda>e. n \<le> ns_Seq e) (evs s) = []" using top by (auto simp: filter_empty_conv not_le)
  ultimately show ?thesis using False q' assms(3,4) by (auto simp: place_def)
qed

lemma served_broadcast:
  assumes inv: "served s b starts got" and rd: "reads (minSeq b) s es"
  shows "served s (Broadcast es b) starts got \<and>
    (\<forall>(ch, q) \<in> set (subs (Broadcast es b)). filter (\<lambda>e. q \<le> ns_Seq e) (evs s) = [])"
proof -
  from inv have ok: "ok s" and m0: "0 \<le> minSeq b" and dis: "distinct (map fst (subs b))"
    by (auto simp: served_def)
  note sorted = increasing [OF ok]
  have es: "es = filter (\<lambda>e. minSeq b \<le> ns_Seq e) (evs s)" by (rule reading [OF ok m0 rd])
  have old: "minSeq b \<le> q" "ch < nextChan b" "place s (minSeq b) (starts ch) (got ch @ concat (chans b ch)) q"
    if "(ch, q) \<in> set (subs b)" for ch q
    using inv that by (auto simp: served_def place_def)
  show ?thesis
  proof (cases "es = []")
    case True
    then have "filter (\<lambda>e. q \<le> ns_Seq e) (evs s) = []" if "(ch, q) \<in> set (subs b)" for ch q
      using old(1) [OF that] es by (auto simp: filter_empty_conv)
    with True inv show ?thesis by (auto simp: Broadcast_def)
  next
    case False
    define n where "n = ns_Seq (last es) + 1"
    define b' where "b' = fold (broadcast_to es n) (subs b) b"
    have B: "Broadcast es b = b'\<lparr>minSeq := n\<rparr>"
      using False by (simp add: Broadcast_def n_def b'_def Let_def)
    have last_in: "last es \<in> set (evs s)" "minSeq b \<le> ns_Seq (last es)"
      using last_in_set [OF False] es by auto
    have top: "ns_Seq e < n" if "e \<in> set (evs s)" for e
      using filter_below_last [OF sorted that, of "minSeq b"] False es by (simp add: n_def)
    have new: "ch < nextChan b' \<and> place s n (starts ch) (got ch @ concat (chans b' ch)) q' \<and>
        filter (\<lambda>e. q' \<le> ns_Seq e) (evs s) = []"
      if q': "(ch, q') \<in> set (subs b')" for ch q'
    proof -
      from fold_broadcast_to_keys [OF dis] q' obtain q where q: "(ch, q) \<in> set (subs b)"
        unfolding b'_def by fastforce
      have uniq: "p = q" if "(ch, p) \<in> set (subs b)" for p
        using dis q that by (metis eq_key_imp_eq_value)
      have dw: "dropWhile (\<lambda>e. ns_Seq e < q) es = filter (\<lambda>e. q \<le> ns_Seq e) (evs s)"
        unfolding es by (rule dropWhile_filter [OF sorted old(1) [OF q]])
      from fold_broadcast_to [OF dis q uniq q' [unfolded b'_def]] dw
      have "concat (chans b' ch) = concat (chans b ch) @ filter (\<lambda>e. q \<le> ns_Seq e) (evs s)"
        "q' = (if filter (\<lambda>e. q \<le> ns_Seq e) (evs s) = [] then q else n)"
        by (auto simp: b'_def)
      with place_advance [OF ok old(3) [OF q] last_in(1) n_def top, of q'] old(2) [OF q] show ?thesis
        by (simp add: b'_def)
    qed
    have "0 \<le> n" using m0 last_in(2) by (simp add: n_def)
    with new ok fold_broadcast_to_keys [OF dis] show ?thesis
      unfolding B by (auto simp: served_def b'_def)
  qed
qed

lemma served_store:
  assumes "served s b starts got" "n_Type n \<noteq> InvalidEvent" "adds n s s'"
  shows "served s' b starts got"
proof -
  from assms(1) have ok: "ok s" by (simp add: served_def)
  note a = adding [OF ok assms(2,3)]
  then consider "evs s' = evs s" | e where "evs s' = evs s @ [e]" "\<forall>e' \<in> set (evs s). ns_Seq e' < ns_Seq e"
    by blast
  then show ?thesis
  proof cases
    case 1
    with assms(1) a show ?thesis by (simp add: served_def place_def)
  next
    case (2 e)
    have "place s' m st seen q" if "place s m st seen q" for m st seen q
      using that 2 by (auto simp: place_def)
    with assms(1) a show ?thesis by (auto simp: served_def)
  qed
qed

lemma served_subscribe:
  assumes "served s b starts got" "0 \<le> q" "SubscribeFromSeq q b = (ch, b')"
  shows "served s b' (starts(ch := q)) (got(ch := []))"
proof -
  from assms(3) have b': "ch = nextChan b" "subs b' = (ch, q) # subs b" "minSeq b' = min q (minSeq b)"
    "chans b' = (chans b)(ch := [])" "nextChan b' = ch + 1"
    by (auto simp: SubscribeFromSeq_def Let_def)
  have old: "c < ch \<and> place s (min q (minSeq b)) (starts c) (got c @ concat (chans b c)) p"
    if "(c, p) \<in> set (subs b)" for c p
  proof -
    from assms(1) that have "c < nextChan b" "place s (minSeq b) (starts c) (got c @ concat (chans b c)) p"
      by (auto simp: served_def)
    with b'(1) show ?thesis by (auto simp: place_def)
  qed
  have "c < nextChan b' \<and> place s (minSeq b') ((starts(ch := q)) c) ((got(ch := [])) c @ concat (chans b' c)) p"
    if "(c, p) \<in> set (subs b')" for c p
  proof (cases "(c, p) \<in> set (subs b)")
    case True
    with old [OF True] b' show ?thesis by auto
  next
    case False
    with that b' show ?thesis by (auto simp: place_def)
  qed
  moreover from old have "ch \<notin> fst ` set (subs b)" by force
  ultimately show ?thesis using assms(1,2) b' by (auto simp: served_def)
qed

lemma delivery_served: "delivery ok reads adds s b starts got \<Longrightarrow> served s b starts got"
proof (induction rule: delivery.induct)
  case (init s starts)
  then show ?case by (simp add: served_def newBroadcasterWithStorage_def)
next
  case (unsubscribe s b starts got ch)
  then show ?case by (auto simp: served_def Unsubscribe_def distinct_filter_sub)
next
  case (receive s b starts got ch part b')
  then have "got c @ concat (chans b c) = (got(ch := got ch @ part)) c @ concat (chans b' c)"
    "subs b' = subs b" "minSeq b' = minSeq b" "nextChan b' = nextChan b" for c
    by (auto simp: receive_def split: list.splits)
  with receive.IH show ?case by (simp add: served_def)
qed (blast intro: served_store served_broadcast [THEN conjunct1] served_subscribe)+

text \<open>
  What a subscriber has received and what is queued for it are exactly the events from the
  number it asked for up to its position, in order and without gap or repetition.
\<close>

lemma delivered_exactly:
  assumes "delivery ok reads adds s b starts got" and "(ch, q) \<in> set (subs b)"
  shows "got ch @ concat (chans b ch) = filter (\<lambda>e. starts ch \<le> ns_Seq e \<and> ns_Seq e < q) (evs s)"
  using delivery_served [OF assms(1)] assms(2) by (auto simp: served_def place_def)

text \<open>A broadcast brings every subscriber that is still connected up to date.\<close>

lemma delivered_completely:
  assumes run: "delivery ok reads adds s b starts got" and rd: "reads (minSeq b) s es"
    and sub: "(ch, q) \<in> set (subs (Broadcast es b))"
  shows "got ch @ concat (chans (Broadcast es b) ch) = filter (\<lambda>e. starts ch \<le> ns_Seq e) (evs s)"
proof -
  note b = served_broadcast [OF delivery_served [OF run] rd]
  then have "got ch @ concat (chans (Broadcast es b) ch) =
      filter (\<lambda>e. starts ch \<le> ns_Seq e \<and> ns_Seq e < q) (evs s)"
    using sub by (auto simp: served_def place_def)
  also have "\<dots> = filter (\<lambda>e. starts ch \<le> ns_Seq e) (evs s)"
    using b sub by (auto simp: filter_empty_conv not_le intro!: filter_cong)
  finally show ?thesis .
qed

end

subsection \<open>Both storages are such logs\<close>

definition mem_ok :: "InMemoryEventStorage \<Rightarrow> bool" where
  "mem_ok s \<longleftrightarrow> map ns_Seq (mem_events s) = map int [0..<length (mem_events s)]"

definition mem_reads :: "int \<Rightarrow> InMemoryEventStorage \<Rightarrow> NotificationWithSeq list \<Rightarrow> bool" where
  "mem_reads q s es \<longleftrightarrow> mem_GetEventsFromSeq q s = Ok es"

definition mem_adds :: "Notification \<Rightarrow> InMemoryEventStorage \<Rightarrow> InMemoryEventStorage \<Rightarrow> bool" where
  "mem_adds n s s' \<longleftrightarrow> s' = snd (mem_StoreEvent n s)"

lemma drop_filter_index:
  assumes "map f xs = map int [0..<length xs]"
  shows "drop k xs = filter (\<lambda>x. int k \<le> f x) xs"
  using assms
proof (induction xs rule: rev_induct)
  case (snoc x xs)
  then have "map f xs = map int [0..<length xs]" "f x = int (length xs)" by auto
  with snoc.IH show ?case by (cases "k \<le> length xs") auto
qed simp

interpretation mem_log: event_log mem_ok mem_events mem_reads mem_adds "\<lambda>d. d"
proof
  fix s assume ok: "mem_ok s"
  then have eq: "map ns_Seq (mem_events s) = map int [0..<length (mem_events s)]" by (simp add: mem_ok_def)
  show "sorted_wrt (<) (map ns_Seq (mem_events s))" unfolding eq by (simp add: sorted_wrt_map)
  show "es = filter (\<lambda>e. q \<le> ns_Seq e) (mem_events s)" if "0 \<le> q" "mem_reads q s es" for q es
  proof -
    have below: "ns_Seq e < int (length (mem_events s))" if "e \<in> set (mem_events s)" for e
    proof -
      from that have "ns_Seq e \<in> set (map ns_Seq (mem_events s))" by simp
      then show ?thesis unfolding eq by auto
    qed
    from that have "es = drop (nat (min q (int (length (mem_events s))))) (mem_events s)"
      by (auto simp: mem_reads_def mem_GetEventsFromSeq_def Let_def split: if_splits)
    also have "\<dots> = filter (\<lambda>e. int (nat (min q (int (length (mem_events s))))) \<le> ns_Seq e) (mem_events s)"
      by (rule drop_filter_index [OF eq])
    also have "\<dots> = filter (\<lambda>e. q \<le> ns_Seq e) (mem_events s)"
      using that(1) below by (intro filter_cong) (auto simp: min_def, force)
    finally show ?thesis .
  qed
  show "mem_ok s' \<and> (mem_events s' = mem_events s \<or> (\<exists>e. ns_Type e = n_Type n \<and> ns_Data e = n_Data n \<and>
      (\<forall>e' \<in> set (mem_events s). ns_Seq e' < ns_Seq e) \<and> mem_events s' = mem_events s @ [e]))"
    if "mem_adds n s s'" for n s'
  proof -
    have "ns_Seq e < int (length (mem_events s))" if "e \<in> set (mem_events s)" for e
    proof -
      from that have "ns_Seq e \<in> set (map ns_Seq (mem_events s))" by simp
      then show ?thesis unfolding eq by auto
    qed
    with that eq show ?thesis by (auto simp: mem_adds_def mem_StoreEvent_def mem_ok_def Let_def)
  qed
qed

text \<open>The events of the database that a reader sees: those that are not muted.\<close>

definition visible_rows :: "database \<Rightarrow> event_row list" where
  "visible_rows d = filter (\<lambda>r. \<not> row_muted d r) (events_t d)"

definition decode_event :: "lib \<Rightarrow> event_row \<Rightarrow> NotificationWithSeq" where
  "decode_event L r =
     \<lparr>ns_Type = (case EventTypeFromString (ev_type r) of Inr et \<Rightarrow> et | Inl _ \<Rightarrow> InvalidEvent),
      ns_Data = generic_data L (ev_data r), ns_Seq = ev_seq r\<rparr>"

definition pg_ok :: "world \<Rightarrow> bool" where
  "pg_ok w \<longleftrightarrow> events_ok (events_t (db w)) (events_seq w) \<and>
     (\<forall>r \<in> set (events_t (db w)). \<exists>et. EventTypeFromString (ev_type r) = Inr et)"

definition pg_evs :: "lib \<Rightarrow> world \<Rightarrow> NotificationWithSeq list" where
  "pg_evs L w = map (decode_event L) (visible_rows (db w))"

definition pg_reads :: "lib \<Rightarrow> int \<Rightarrow> world \<Rightarrow> NotificationWithSeq list \<Rightarrow> bool" where
  "pg_reads L q w es \<longleftrightarrow> (\<exists>E w'. e_lib E = L \<and> GetEventsFromSeq E q w = (Ok es, w'))"

definition pg_adds :: "Notification \<Rightarrow> world \<Rightarrow> world \<Rightarrow> bool" where
  "pg_adds n w w' \<longleftrightarrow> (\<exists>E r. StoreEvent E n w = (r, w'))"

lemma decode_events_map: "decode_events L rs = Inr es \<Longrightarrow> es = map (decode_event L) rs"
  by (induction rs arbitrary: es) (auto simp: decode_event_def split: sum.splits)

lemma GetEventsFromSeq_Ok:
  assumes "GetEventsFromSeq E q w = (Ok es, w')" and "events_ok (events_t (db w)) (events_seq w)"
  shows "es = filter (\<lambda>e. q \<le> ns_Seq e) (pg_evs (e_lib E) w)"
proof -
  from assms(1) have "decode_events (e_lib E) (select_events q (db w)) = Inr es"
    by (auto simp: GetEventsFromSeq_def bindE_def sql_query_def go_simps
        split: outcome.splits sum.splits)
  from decode_events_map [OF this] select_events_filter [OF assms(2)] show ?thesis
    by (simp add: pg_evs_def visible_rows_def filter_map comp_def decode_event_def conj_commute)
qed

interpretation pg_log: event_log pg_ok "pg_evs L" "pg_reads L" pg_adds "generic_data L" for L
proof
  fix w assume ok: "pg_ok w"
  then have ev: "events_ok (events_t (db w)) (events_seq w)" by (simp add: pg_ok_def)
  then have "sorted_wrt (<) (map ev_seq (visible_rows (db w)))"
    unfolding visible_rows_def events_ok_def by (intro sorted_wrt_map_filter) simp
  then show "sorted_wrt (<) (map ns_Seq (pg_evs L w))"
    by (simp add: pg_evs_def comp_def decode_event_def)
  show "es = filter (\<lambda>e. q \<le> ns_Seq e) (pg_evs L w)" if "pg_reads L q w es" for q es
    using that ev GetEventsFromSeq_Ok by (auto simp: pg_reads_def)
  show "pg_ok w' \<and> (pg_evs L w' = pg_evs L w \<or> (\<exists>e. ns_Type e = n_Type n \<and> ns_Data e = generic_data L (n_Data n) \<and>
      (\<forall>e' \<in> set (pg_evs L w). ns_Seq e' < ns_Seq e) \<and> pg_evs L w' = pg_evs L w @ [e]))"
    if valid: "n_Type n \<noteq> InvalidEvent" and "pg_adds n w w'" for n w'
  proof -
    from that(2) obtain E r where "StoreEvent E n w = (r, w')" by (auto simp: pg_adds_def)
    then show ?thesis
    proof (cases rule: StoreEvent_cases)
      case failed
      with ok show ?thesis by (simp add: pg_ok_def pg_evs_def)
    next
      case (stored row)
      have d: "events_t (db w') = events_t (db w) @ [row]" "muted_t (db w') = muted_t (db w)"
        "events_seq w' = events_seq w + 1"
        using stored by (simp_all add: persist_def)
      have dec: "EventTypeFromString (ev_type row) = Inr (n_Type n)"
        using stored(1) valid by (simp add: EventTypeFromString_String)
      have "pg_ok w'" using ok d dec events_ok_append [OF ev, of row] stored(1) by (auto simp: pg_ok_def)
      moreover have m: "row_muted (db w') = row_muted (db w)" using d
        by (simp add: row_muted_def fun_eq_iff split: option.splits)
      moreover have "ns_Seq (decode_event L row) = events_seq w" "ns_Type (decode_event L row) = n_Type n"
        "ns_Data (decode_event L row) = generic_data L (n_Data n)"
        using stored(1) dec by (auto simp: decode_event_def)
      moreover have "\<forall>e' \<in> set (pg_evs L w). ns_Seq e' < events_seq w"
        using ev by (auto simp: pg_evs_def visible_rows_def decode_event_def events_ok_def)
      ultimately show ?thesis using d(1)
        by (cases "row_muted (db w) row") (auto simp: pg_evs_def visible_rows_def)
    qed
  qed
qed

subsection \<open>Guarantees to subscribers\<close>

definition example_note :: Notification where
  "example_note = \<lparr>n_Type = NewAddressEvent, n_Data = AccountData \<lparr>acc_Address = ''a'', acc_Metainfo = JNull\<rparr>\<rparr>"

definition one_event :: world where
  "one_event = snd (StoreEvent example_env example_note example_world)"

definition one_subscriber :: broadcasterWithStorage where
  "one_subscriber = snd (SubscribeFromSeq 0 newBroadcasterWithStorage)"

lemma example_log: "delivery pg_ok (pg_reads example_lib) pg_adds one_event newBroadcasterWithStorage (\<lambda>_. 0) (\<lambda>_. [])"
proof -
  have "delivery pg_ok (pg_reads example_lib) pg_adds example_world newBroadcasterWithStorage (\<lambda>_. 0) (\<lambda>_. [])"
    by (rule delivery.init) (simp add: pg_ok_def events_ok_def example_world_def example_db_def)
  then show ?thesis
    by (rule delivery.store)
      (auto simp: pg_adds_def one_event_def example_note_def intro: prod.collapse [symmetric])
qed

lemma example_delivery:
  "delivery pg_ok (pg_reads example_lib) pg_adds one_event one_subscriber (\<lambda>_. 0) (\<lambda>_. [])"
  using delivery.subscribe [OF example_log, of 0 0 one_subscriber]
  by (simp add: one_subscriber_def SubscribeFromSeq_def newBroadcasterWithStorage_def fun_upd_def)

lemma example_read:
  "GetEventsFromSeq example_env (minSeq one_subscriber) one_event = (Ok (pg_evs example_lib one_event), tick one_event)"
  by (simp add: GetEventsFromSeq_def bindE_def sql_query_def example_env_def go_simps one_event_def
      one_subscriber_def SubscribeFromSeq_def newBroadcasterWithStorage_def StoreEvent_def example_world_def
      example_db_def example_note_def Let_def select_events_def row_muted_def pg_evs_def visible_rows_def
      decode_event_def EventTypeFromString_String persist_def)

lemma example_subscribed: "(0, 2) \<in> set (subs (Broadcast (pg_evs example_lib one_event) one_subscriber))"
  by code_simp

text \<open>
  A websocket subscriber sees a contiguous stretch of the event log. Whatever events are
  stored (by statements that may fail), whenever broadcasts, subscriptions and receptions
  happen: what a connected subscriber has received followed by what waits in its channel is
  exactly the list of visible events from the number it asked for up to its position - in
  order, no event twice, none left out (while no transaction is muted).
\<close>

theorem subscriber_stream:
  assumes "delivery pg_ok (pg_reads L) pg_adds w b starts got" and "(ch, q) \<in> set (subs b)"
  shows "got ch @ concat (chans b ch) =
    filter (\<lambda>e. starts ch \<le> ns_Seq e \<and> ns_Seq e < q) (pg_evs L w)"
  using assms by (rule pg_log.delivered_exactly)

theorem subscriber_stream_witness:
  "[] @ concat (chans (Broadcast (pg_evs example_lib one_event) one_subscriber) 0) =
     filter (\<lambda>e. 0 \<le> ns_Seq e \<and> ns_Seq e < 2) (pg_evs example_lib one_event) \<and>
   length (pg_evs example_lib one_event) = 1"
proof -
  have "e_lib example_env = example_lib" by (simp add: example_env_def)
  with example_read have "pg_reads example_lib (minSeq one_subscriber) one_event (pg_evs example_lib one_event)"
    by (auto simp: pg_reads_def)
  from subscriber_stream [OF delivery.broadcast [OF example_delivery this] example_subscribed]
  show ?thesis by (simp add: pg_evs_def visible_rows_def one_event_def StoreEvent_def Let_def example_env_def persist_def
      example_world_def example_db_def row_muted_def example_note_def)
qed

text \<open>
  A broadcast brings every subscriber up to date: after \<open>Broadcast\<close> each subscriber that
  is still connected has received, or finds in its channel, all visible events from the
  number it asked for.
\<close>

theorem broadcast_completes:
  assumes "delivery pg_ok (pg_reads L) pg_adds w b starts got"
    and "e_lib E = L" "GetEventsFromSeq E (minSeq b) w = (Ok es, w')"
    and "(ch, q) \<in> set (subs (Broadcast es b))"
  shows "got ch @ concat (chans (Broadcast es b) ch) =
    filter (\<lambda>e. starts ch \<le> ns_Seq e) (pg_evs L w)"
  using pg_log.delivered_completely [OF assms(1) _ assms(4)] assms(2,3) by (auto simp: pg_reads_def)

theorem broadcast_completes_witness:
  "map ns_Seq (concat (chans (Broadcast (pg_evs example_lib one_event) one_subscriber) 0)) = [1]"
proof -
  have "e_lib example_env = example_lib" by (simp add: example_env_def)
  moreover have "map ns_Seq (filter (\<lambda>e. 0 \<le> ns_Seq e) (pg_evs example_lib one_event)) = [1]" by code_simp
  ultimately show ?thesis
    using broadcast_completes [OF example_delivery _ example_read example_subscribed] by simp
qed

text \<open>
  The same for the in-memory storage that is used when no database is configured.
\<close>

theorem subscriber_stream_memory:
  assumes "delivery mem_ok mem_reads mem_adds s b starts got" and "(ch, q) \<in> set (subs b)"
  shows "got ch @ concat (chans b ch) =
    filter (\<lambda>e. starts ch \<le> ns_Seq e \<and> ns_Seq e < q) (mem_events s)"
  using assms by (rule mem_log.delivered_exactly)

theorem subscriber_stream_memory_witness:
  "[] @ concat (chans one_subscriber 0) =
     filter (\<lambda>e. 0 \<le> ns_Seq e \<and> ns_Seq e < 0) (mem_events newInMemoryEventStorage)"
proof -
  have "delivery mem_ok mem_reads mem_adds newInMemoryEventStorage newBroadcasterWithStorage (\<lambda>_. 0) (\<lambda>_. [])"
    by (rule delivery.init) (simp add: mem_ok_def newInMemoryEventStorage_def)
  from delivery.subscribe [OF this, of 0 0 one_subscriber]
  have "delivery mem_ok mem_reads mem_adds newInMemoryEventStorage one_subscriber (\<lambda>_. 0) (\<lambda>_. [])"
    by (simp add: one_subscriber_def SubscribeFromSeq_def newBroadcasterWithStorage_def fun_upd_def)
  moreover have "(0, 0) \<in> set (subs one_subscriber)" by code_simp
  ultimately show ?thesis using subscriber_stream_memory [of newInMemoryEventStorage one_subscriber "\<lambda>_. 0" "\<lambda>_. []" 0 0]
    by simp
qed

end
