(* ===== verification/Broker.thy ===== *)
theory Broker
  imports Withdraw Broadcaster
begin

text \<open>
  The event broker: notifications by HTTP callback (\<open>events/httpcallback.go\<close>), muting
  (\<open>events/mute.go\<close>), the check at start-up (\<open>events/integrity.go\<close>) and the main loop
  (\<open>events/broker.go\<close>).

  The record \<open>eventBrokerData\<close> holds the fields the goroutine changes. Delays are whole
  seconds. A call of the callback URL is the question \<open>e_Post\<close>; its answer is an error of the
  HTTP client or a status code.
\<close>

record eventBrokerData =
  httpCallbackBackoff :: int
  httpCallbackRetries :: int
  httpCallbackRetryDelay :: int
  httpCallbackIsRetrying :: bool
  httpCallbackRetryingSeq :: int
  eventBroadcaster :: broadcasterWithStorage

definition NewEventBroker :: "int \<Rightarrow> eventBrokerData" where
  "NewEventBroker backoff =
     \<lparr>httpCallbackBackoff = backoff, httpCallbackRetries = 0, httpCallbackRetryDelay = 0,
      httpCallbackIsRetrying = False, httpCallbackRetryingSeq = - 1,
      eventBroadcaster = newBroadcasterWithStorage\<rparr>"

subsection \<open>One HTTP callback\<close>

text \<open>
  The body is the JSON object of the event data, decoded into a map, with the members \<open>seq\<close> and
  \<open>type\<close> set (assigning to a nil map and decoding something that is not an object panic).
\<close>

definition marshalFlattenedEvent :: "lib \<Rightarrow> NotificationWithSeq \<Rightarrow> string res" where
  "marshalFlattenedEvent L event =
     (case interface_value (marshal_data L (ns_Data event)) of
        JObj flat \<Rightarrow>
          Ok (json_Marshal (JObj
                (put_member ''type'' (EventType_MarshalJSON (ns_Type event))
                  (put_member ''seq'' (marshal_int (ns_Seq event)) flat))))
      | JNull \<Rightarrow> Panic ''assignment to entry in nil map''
      | _ \<Rightarrow> Panic ''Error: could not json-decode notificationDataJSON'')"

text \<open>
  The data of an event is an account or a notification, whose JSON is an object, or a JSON
  value decoded from the database. Where it is an object, there is a body.
\<close>

fun flattens :: "event_data \<Rightarrow> bool" where
  "flattens (OtherData (JObj _)) = True"
| "flattens (OtherData _) = False"
| "flattens _ = True"

lemma marshal_data_object: "flattens d \<Longrightarrow> \<exists>ms. marshal_data L d = JObj ms"
  by (cases d rule: flattens.cases) (simp_all add: marshal_Account_def marshal_TxNotification_def Let_def)

lemma marshalFlattenedEvent_Ok: "flattens (ns_Data event) \<Longrightarrow> \<exists>body. marshalFlattenedEvent L event = Ok body"
  using marshal_data_object [of "ns_Data event" L] by (auto simp: marshalFlattenedEvent_def)

lemma marshalFlattenedEvent_no_error: "marshalFlattenedEvent L event \<noteq> Error err"
  by (simp add: marshalFlattenedEvent_def split: json.splits)

text \<open>The result \<open>Some err\<close> is an error returned to the caller.\<close>

definition sendDataToHTTPCallback :: "env \<Rightarrow> NotificationWithSeq \<Rightarrow> go_error option M" where
  "sendDataToHTTPCallback E event w =
     (case marshalFlattenedEvent (e_lib E) event of
        Panic p \<Rightarrow> (Panic p, w)
      | Error err \<Rightarrow> (Error err, w)
      | Ok body \<Rightarrow>
          (let r = (case e_Post E (now w) body of
                      Inl err \<Rightarrow> Some err
                    | Inr code \<Rightarrow>
                        if code = 200 then None
                        else Some (GoError ''Got response with code calling HTTP callback''))
           in (Ok r, (tick w)\<lparr>trace := EffPost (ns_Seq event) r # trace w\<rparr>)))"

lemma sendData_cases [consumes 1, case_names gone sent]:
  assumes "sendDataToHTTPCallback E event w = (r, w')"
  obtains p where "r = Panic p" "w' = w"
    | failed where "r = Ok failed" "w' = (tick w)\<lparr>trace := EffPost (ns_Seq event) failed # trace w\<rparr>"
  using assms marshalFlattenedEvent_no_error [of "e_lib E" event]
  by (cases "marshalFlattenedEvent (e_lib E) event") (auto simp: sendDataToHTTPCallback_def Let_def)

definition handleHTTPCallbackError :: "eventBrokerData \<Rightarrow> bool" where
  "handleHTTPCallbackError e =
     (if httpCallbackBackoff e \<le> 0 then True
      else if httpCallbackBackoff e \<le> httpCallbackRetries e then False
      else True)"

text \<open>An early error only arms a timer that triggers the sending again.\<close>

definition handleEarlyErrorPreparingHTTPCallback :: "world \<Rightarrow> world" where
  "handleEarlyErrorPreparingHTTPCallback w = w\<lparr>timers := HTTPSendTimer # timers w\<rparr>"

definition httpCBResultSaveRetries :: nat where
  "httpCBResultSaveRetries = 10"

text \<open>The same loop as \<open>persistWithdrawResultWithRetry\<close> of the wallet.\<close>

definition persistHTTPCallbackSendResultWithRetry :: "unit M \<Rightarrow> unit M" where
  "persistHTTPCallbackSendResultWithRetry persistFunc w =
     dropArg (persistWithRetry httpCBResultSaveRetries
                (\<lambda>m v. case persistFunc v of (r, v') \<Rightarrow> (r, m, v')) ()) w"

definition store_sent :: "env \<Rightarrow> int \<Rightarrow> unit M" where
  "store_sent E seq = bindE (StoreLastHTTPSentSeq E seq) (\<lambda>_. ClearHTTPCallback E)"

subsection \<open>Sending the events in order\<close>

text \<open>
  One iteration of the loop over the events. The result says whether the loop goes on
  (\<open>False\<close> where the code returns from the function).
\<close>

definition send_event ::
  "env \<Rightarrow> NotificationWithSeq \<Rightarrow> eventBrokerData \<Rightarrow> world \<Rightarrow> bool res \<times> eventBrokerData \<times> world" where
  "send_event E event e w =
     (if ns_Type event = NewAddressEvent then (Ok True, e, w)
      else
        (case transact E (LockHTTPCallback E (ns_Seq event)) w of
           (Panic p, w1) \<Rightarrow> (Panic p, e, w1)
         | (Error _, w1) \<Rightarrow> (Ok False, e, handleEarlyErrorPreparingHTTPCallback w1)
         | (Ok _, w1) \<Rightarrow>
             (case sendDataToHTTPCallback E event w1 of
                (Panic p, w2) \<Rightarrow> (Panic p, e, w2)
              | (Error err, w2) \<Rightarrow> (Error err, e, w2)
              | (Ok failed, w2) \<Rightarrow>
                  (let e1 = e\<lparr>httpCallbackRetries := httpCallbackRetries e + 1,
                              httpCallbackRetryDelay := httpCallbackRetryDelay e + 1\<rparr> in
                   if failed \<noteq> None \<and> handleHTTPCallbackError e1
                   then
                     (case persistHTTPCallbackSendResultWithRetry (transact E (ClearHTTPCallback E)) w2 of
                        (Ok _, w3) \<Rightarrow>
                          (Ok False, e1\<lparr>httpCallbackIsRetrying := True,
                                         httpCallbackRetryingSeq := ns_Seq event\<rparr>,
                           w3\<lparr>timers := HTTPRetryTimer # timers w3\<rparr>)
                      | (Error err, w3) \<Rightarrow> (Error err, e1, w3)
                      | (Panic p, w3) \<Rightarrow> (Panic p, e1, w3))
                   else
                     (case persistHTTPCallbackSendResultWithRetry
                             (transact E (store_sent E (ns_Seq event))) w2 of
                        (Ok _, w3) \<Rightarrow>
                          (Ok True, e1\<lparr>httpCallbackRetries := 0, httpCallbackRetryDelay := 0\<rparr>, w3)
                      | (Error err, w3) \<Rightarrow> (Error err, e1, w3)
                      | (Panic p, w3) \<Rightarrow> (Panic p, e1, w3))))))"

fun send_events ::
  "env \<Rightarrow> NotificationWithSeq list \<Rightarrow> eventBrokerData \<Rightarrow> world \<Rightarrow> unit res \<times> eventBrokerData \<times> world" where
  "send_events E [] e w = (Ok (), e, w)"
| "send_events E (event # events) e w =
     (case send_event E event e w of
        (Ok True, e', w') \<Rightarrow> send_events E events e' w'
      | (Ok False, e', w') \<Rightarrow> (Ok (), e', w')
      | (Error err, e', w') \<Rightarrow> (Error err, e', w')
      | (Panic p, e', w') \<Rightarrow> (Panic p, e', w'))"

definition sendHTTPCallbackNotifications ::
  "env \<Rightarrow> bool \<Rightarrow> eventBrokerData \<Rightarrow> world \<Rightarrow> unit res \<times> eventBrokerData \<times> world" where
  "sendHTTPCallbackNotifications E isRetry e w =
     (if httpCallbackIsRetrying e \<and> \<not> isRetry then (Ok (), e, w)
      else
        (let e0 = (if httpCallbackIsRetrying e
                   then e\<lparr>httpCallbackIsRetrying := False, httpCallbackRetryingSeq := - 1\<rparr> else e)
         in case GetLastHTTPSentSeq E w of
              (Panic p, w1) \<Rightarrow> (Panic p, e0, w1)
            | (Error _, w1) \<Rightarrow> (Ok (), e0, handleEarlyErrorPreparingHTTPCallback w1)
            | (Ok seq, w1) \<Rightarrow>
                (case GetEventsFromSeq E (seq + 1) w1 of
                   (Panic p, w2) \<Rightarrow> (Panic p, e0, w2)
                 | (Error _, w2) \<Rightarrow> (Ok (), e0, handleEarlyErrorPreparingHTTPCallback w2)
                 | (Ok events, w2) \<Rightarrow> send_events E events e0 w2)))"

subsection \<open>Muting\<close>

definition reset_retries :: "eventBrokerData \<Rightarrow> eventBrokerData" where
  "reset_retries e =
     (if httpCallbackIsRetrying e
      then e\<lparr>httpCallbackIsRetrying := True, httpCallbackRetries := 0, httpCallbackRetryDelay := 0\<rparr>
      else e)"

definition mute_target :: "env \<Rightarrow> uuid \<Rightarrow> eventBrokerData \<Rightarrow> uuid M" where
  "mute_target E txID e =
     (if txID \<noteq> uuid_Nil then returnE txID
      else if \<not> httpCallbackIsRetrying e \<or> httpCallbackRetryingSeq e = - 1
      then failE (GoError ''Event broker is not currently retrying to deliver an event'')
      else catchE (GetNextEventFromSeq E (httpCallbackRetryingSeq e)) (\<lambda>r.
             case r of
               Inl ErrNoSuchEvent \<Rightarrow> failE (GoError ''Failed to find an event to mute'')
             | Inl err \<Rightarrow> failE err
             | Inr event \<Rightarrow>
                 (case ns_Data event of
                    TxData n \<Rightarrow> returnE (ID (tn_Transaction n))
                  | _ \<Rightarrow> failE (GoError ''Current event being retried does not refer to a tx''))))"

definition mute :: "env \<Rightarrow> uuid \<Rightarrow> eventBrokerData \<Rightarrow> world \<Rightarrow> unit res \<times> eventBrokerData \<times> world" where
  "mute E txID e w =
     (case bindE (mute_target E txID e) (MuteEventsWithTxID E) w of
        (Ok _, w1) \<Rightarrow> (Ok (), reset_retries e, w1)
      | (Error err, w1) \<Rightarrow> (Error err, e, w1)
      | (Panic p, w1) \<Rightarrow> (Panic p, e, w1))"

subsection \<open>Websocket notifications\<close>

definition sendWSNotifications :: "env \<Rightarrow> eventBrokerData \<Rightarrow> world \<Rightarrow> unit res \<times> eventBrokerData \<times> world" where
  "sendWSNotifications E e w =
     (case GetEventsFromSeq E (minSeq (eventBroadcaster e)) w of
        (Ok events, w1) \<Rightarrow>
          (Ok (), e\<lparr>eventBroadcaster := Broadcast events (eventBroadcaster e)\<rparr>, w1)
      | (Error _, w1) \<Rightarrow> (Ok (), e, w1\<lparr>timers := WSTimer # timers w1\<rparr>)
      | (Panic p, w1) \<Rightarrow> (Panic p, e, w1))"

subsection \<open>Start-up and main loop\<close>

text \<open>\<open>log.Fatalf\<close> ends the process, as a panic outside the main loop does.\<close>

definition broker_Check :: "env \<Rightarrow> unit M" where
  "broker_Check E =
     catchE (CheckHTTPCallbackLock E) (\<lambda>r.
       case r of
         Inl _ \<Rightarrow> panicE ''error of the storage''
       | Inr (ok, operation) \<Rightarrow>
           if ok then returnE () else panicE ''FATAL: refusing to start processing'')"

datatype broker_wakeup = WSTrigger | HTTPTrigger bool | MuteQueued uuid | BrokerStop

definition broker_dispatch ::
  "env \<Rightarrow> broker_wakeup \<Rightarrow> eventBrokerData \<Rightarrow> world \<Rightarrow> unit res \<times> eventBrokerData \<times> world" where
  "broker_dispatch E wk e w =
     (case wk of
        WSTrigger \<Rightarrow> sendWSNotifications E e w
      | HTTPTrigger isRetry \<Rightarrow> sendHTTPCallbackNotifications E isRetry e w
      | MuteQueued txID \<Rightarrow>
          (case mute E txID e w of
             (Panic p, e', w') \<Rightarrow> (Panic p, e', w')
           | (_, e', w') \<Rightarrow> (Ok (), e', w'))
      | BrokerStop \<Rightarrow> (Ok (), e, w))"

text \<open>
  A run of the loop on what its select receives; a panic is recovered into an error and ends
  the loop. After each turn the loop looks whether a stop was requested.
\<close>

fun broker_mainLoop ::
  "env \<Rightarrow> (broker_wakeup \<times> bool) list \<Rightarrow> eventBrokerData \<Rightarrow> world \<Rightarrow> unit res \<times> eventBrokerData \<times> world" where
  "broker_mainLoop E [] e w = (Ok (), e, w)"
| "broker_mainLoop E ((wk, stop) # wks) e w =
     (if wk = BrokerStop then (Ok (), e, w)
      else
        (case broker_dispatch E wk e w of
           (Panic p, e', w') \<Rightarrow> (Error (GoError ''Event broker stopped by panic: ''), e', w')
         | (_, e', w') \<Rightarrow> if stop then (Ok (), e', w') else broker_mainLoop E wks e' w'))"

text \<open>\<open>Run\<close>; the first call is outside the loop, so that its panic is not recovered.\<close>

definition broker_Run ::
  "env \<Rightarrow> (broker_wakeup \<times> bool) list \<Rightarrow> eventBrokerData \<Rightarrow> world \<Rightarrow> unit res \<times> eventBrokerData \<times> world" where
  "broker_Run E wks e w =
     (case sendHTTPCallbackNotifications E False e w of
        (Panic p, e', w') \<Rightarrow> (Panic p, e', w')
      | (_, e', w') \<Rightarrow> broker_mainLoop E wks e' w')"

definition triggerHTTPNotificationRetry :: "world \<Rightarrow> world option" where
  "triggerHTTPNotificationRetry w =
     (if length (httpCallbackNotificationTrigger w) < 3
      then Some (w\<lparr>httpCallbackNotificationTrigger := httpCallbackNotificationTrigger w @ [True]\<rparr>)
      else None)"

subsection \<open>Subscriptions\<close>

definition broker_SubscribeFromSeq ::
  "int \<Rightarrow> eventBrokerData \<Rightarrow> world \<Rightarrow> nat \<times> eventBrokerData \<times> world" where
  "broker_SubscribeFromSeq seq e w =
     (case SubscribeFromSeq seq (eventBroadcaster e) of
        (subch, b) \<Rightarrow> (subch, e\<lparr>eventBroadcaster := b\<rparr>, triggerWSNotificationSending w))"

definition broker_UnsubscribeFromSeq :: "nat \<Rightarrow> eventBrokerData \<Rightarrow> eventBrokerData" where
  "broker_UnsubscribeFromSeq ch e = e\<lparr>eventBroadcaster := Unsubscribe ch (eventBroadcaster e)\<rparr>"

end
