(* ===== verification/Pending.thy ===== *)
theory Pending
  imports Withdraw
begin

text \<open>
  Pending withdrawals: \<open>wallet/pending.go\<close>. Balances and amounts are \<open>uint64\<close> values that
  the code converts to \<open>int64\<close>; the words keep the bit pattern and the comparisons read it
  as signed.
\<close>

subsection \<open>Recomputing the pending withdrawals\<close>

text \<open>
  The first loop sends the withdrawals that the confirmed balance covers; it returns the
  balance left and the transactions from \<open>exceedingTx\<close> on (none if \<open>exceedingTx\<close> is -1).
\<close>

fun send_fitting :: "env \<Rightarrow> walletData \<Rightarrow> uint64 \<Rightarrow> Transaction list \<Rightarrow> (uint64 \<times> Transaction list) M" where
  "send_fitting E W availableBalance [] = returnE (availableBalance, [])"
| "send_fitting E W availableBalance (tx # txs) =
     (if 0 \<le> sint (availableBalance - Amount tx)
      then bindE (sendWithdrawal E W tx False)
             (\<lambda>_. send_fitting E W (availableBalance - Amount tx) txs)
      else returnE (availableBalance, tx # txs))"

text \<open>The second loop marks those that the unconfirmed balance would cover as pending.\<close>

fun mark_fitting :: "env \<Rightarrow> uint64 \<Rightarrow> Transaction list \<Rightarrow> (uint64 \<times> Transaction list) M" where
  "mark_fitting E availableBalance [] = returnE (availableBalance, [])"
| "mark_fitting E availableBalance (tx # txs) =
     (if 0 \<le> sint (availableBalance - Amount tx)
      then bindE (updatePendingTxStatus E tx PendingTransaction)
             (\<lambda>_. mark_fitting E (availableBalance - Amount tx) txs)
      else returnE (availableBalance, tx # txs))"

text \<open>The third loop marks the rest as waiting for money from cold storage.\<close>

fun mark_exceeding :: "env \<Rightarrow> uint64 \<Rightarrow> Transaction list \<Rightarrow> uint64 M" where
  "mark_exceeding E availableBalance [] = returnE availableBalance"
| "mark_exceeding E availableBalance (tx # txs) =
     bindE (updatePendingTxStatus E tx PendingColdStorageTransaction)
       (\<lambda>_. mark_exceeding E (availableBalance - Amount tx) txs)"

definition mark_pending :: "env \<Rightarrow> uint64 \<Rightarrow> uint64 \<Rightarrow> Transaction list \<Rightarrow> unit M" where
  "mark_pending E availableBalance unconfBal txs =
     bindE (if 0 < unconfBal then mark_fitting E (availableBalance + unconfBal) txs
            else returnE (availableBalance, txs)) (\<lambda>(balance, exceeding).
       if exceeding = [] then SetMoneyRequiredFromColdStorage E 0
       else bindE (mark_exceeding E balance exceeding) (\<lambda>left.
              SetMoneyRequiredFromColdStorage E (- left)))"

definition tryToUpdatePendingTxns :: "env \<Rightarrow> walletData \<Rightarrow> unit M" where
  "tryToUpdatePendingTxns E W =
     bindE (GetPendingTransactions E) (\<lambda>txns.
     bindE (ask (e_Balance E)) (\<lambda>(confBal, unconfBal).
     bindE (send_fitting E W confBal (e_sortByAmount E txns)) (\<lambda>(availableBalance, exceeding).
     if exceeding = [] then SetMoneyRequiredFromColdStorage E 0
     else transact E (mark_pending E availableBalance unconfBal exceeding))))"

definition updatePendingTxns :: "env \<Rightarrow> walletData \<Rightarrow> unit M" where
  "updatePendingTxns E W =
     catchE (tryToUpdatePendingTxns E W) (\<lambda>r.
       case r of
         Inl _ \<Rightarrow> modifyE (\<lambda>w. w\<lparr>timers := PendingUpdateTimer # timers w\<rparr>)
       | Inr _ \<Rightarrow> SendNotifications)"

subsection \<open>Cancelling and confirming\<close>

definition decManualConfirmationCount :: "unit M" where
  "decManualConfirmationCount =
     modifyE (\<lambda>w. w\<lparr>txnsWaitingManualConfirmationCount :=
                      txnsWaitingManualConfirmationCount w - 1\<rparr>)"

definition cancel_in_tx :: "env \<Rightarrow> uuid \<Rightarrow> unit M" where
  "cancel_in_tx E i =
     bindE (GetTransactionByID E i) (\<lambda>tx.
       if pending_status (Status tx) then updatePendingTxStatus E tx CancelledTransaction
       else failE (GoError ''Transaction is not pending''))"

definition cancelPendingTx :: "env \<Rightarrow> walletData \<Rightarrow> uuid \<Rightarrow> unit M" where
  "cancelPendingTx E W i =
     bindE (transact E (cancel_in_tx E i)) (\<lambda>_.
     bindE decManualConfirmationCount (\<lambda>_.
     bindE (updatePendingTxns E W) (\<lambda>_.
     SendNotifications)))"

definition confirmPendingTx :: "env \<Rightarrow> walletData \<Rightarrow> uuid \<Rightarrow> unit M" where
  "confirmPendingTx E W i =
     bindE (transact E (GetTransactionByID E i)) (\<lambda>tx.
       if Status tx \<noteq> PendingManualConfirmationTransaction
       then failE (GoError ''Tx is not pending manual confirmation'')
       else bindE (sendWithdrawal E W tx True) (\<lambda>_. decManualConfirmationCount))"

definition initPendingManualConfirmationsTxMetric :: "env \<Rightarrow> unit M" where
  "initPendingManualConfirmationsTxMetric E =
     bindE (GetTransactionsWithFilter E [] (Status_String PendingManualConfirmationTransaction))
       (\<lambda>txns. modifyE (\<lambda>w. w\<lparr>txnsWaitingManualConfirmationCount := int (length txns)\<rparr>))"

end
