(* ===== verification/Updates.thy ===== *)
theory Updates
  imports Pending
begin

text \<open>
  Polling the Bitcoin node and the main loop of the wallet: the second half of
  \<open>wallet/updates.go\<close>.
\<close>

subsection \<open>New transactions\<close>

fun process_reported :: "env \<Rightarrow> walletData \<Rightarrow> bool \<Rightarrow> ListTransactionsResult list \<Rightarrow> bool M" where
  "process_reported E W anyTxInfoChanged [] = returnE anyTxInfoChanged"
| "process_reported E W anyTxInfoChanged (b # bs) =
     bindE (updateTxInfo E W (NewTransactionFromBTCJSON b)) (\<lambda>(changed, _).
       process_reported E W (anyTxInfoChanged \<or> changed) bs)"

definition new_transactions_body :: "env \<Rightarrow> walletData \<Rightarrow> bool M" where
  "new_transactions_body E W =
     bindE (GetLastSeenBlockHash E) (\<lambda>lastSeenBlock.
     bindE (ask (\<lambda>n. e_ListTransactionsSinceBlock E n lastSeenBlock)) (\<lambda>(transactions, lastBlock).
     bindE (process_reported E W False transactions) (\<lambda>anyTxInfoChanged.
     bindE (SetLastSeenBlockHash E lastBlock) (\<lambda>_.
     returnE anyTxInfoChanged))))"

text \<open>What both polls do after their database transaction; an error is only logged.\<close>

definition after_poll :: "env \<Rightarrow> walletData \<Rightarrow> go_error + bool \<Rightarrow> unit M" where
  "after_poll E W r =
     (case r of
        Inl _ \<Rightarrow> returnE ()
      | Inr anyTxInfoChanged \<Rightarrow>
          bindE SendNotifications (\<lambda>_.
            if anyTxInfoChanged then updatePendingTxns E W else returnE ()))"

definition checkForNewTransactions :: "env \<Rightarrow> walletData \<Rightarrow> unit M" where
  "checkForNewTransactions E W = catchE (transact E (new_transactions_body E W)) (after_poll E W)"

subsection \<open>Known transactions\<close>

definition decBlockchainConfirmationCount :: "TransactionStatus \<Rightarrow> unit M" where
  "decBlockchainConfirmationCount status =
     modifyE (\<lambda>w. if status \<noteq> NewTransaction \<and> status \<noteq> ConfirmedTransaction
       then w\<lparr>txnsWaitingBlockchainConfirmationCount :=
               txnsWaitingBlockchainConfirmationCount w - 1\<rparr>
       else w)"

definition liftRes :: "'a res \<Rightarrow> 'a M" where
  "liftRes r w = (r, w)"

fun process_known :: "env \<Rightarrow> walletData \<Rightarrow> bool \<Rightarrow> Transaction list \<Rightarrow> bool M" where
  "process_known E W anyTxInfoChanged [] = returnE anyTxInfoChanged"
| "process_known E W anyTxInfoChanged (tx # txs) =
     bindE (ask (\<lambda>n. e_GetTransaction E n (Hash tx))) (\<lambda>fullTxInfo.
     bindE (liftRes (UpdateFromFullTxInfo tx fullTxInfo)) (\<lambda>tx'.
     bindE (updateTxInfo E W tx') (\<lambda>(changed, status).
     bindE (decBlockchainConfirmationCount status) (\<lambda>_.
     process_known E W (anyTxInfoChanged \<or> changed) txs))))"

definition existing_transactions_body :: "env \<Rightarrow> walletData \<Rightarrow> bool M" where
  "existing_transactions_body E W =
     bindE (GetBroadcastedTransactionsWithLessConfirmations E (maxConfirmations W)) (\<lambda>txns.
     bindE (modifyE (\<lambda>w. w\<lparr>txnsWaitingBlockchainConfirmationCount := int (length txns)\<rparr>)) (\<lambda>_.
     process_known E W False txns))"

definition checkForExistingTransactionUpdates :: "env \<Rightarrow> walletData \<Rightarrow> unit M" where
  "checkForExistingTransactionUpdates E W =
     catchE (transact E (existing_transactions_body E W)) (after_poll E W)"

definition checkForWalletUpdates :: "env \<Rightarrow> walletData \<Rightarrow> unit M" where
  "checkForWalletUpdates E W =
     bindE (checkForNewTransactions E W) (\<lambda>_. checkForExistingTransactionUpdates E W)"

subsection \<open>The main loop\<close>

text \<open>
  What wakes the updater goroutine up. The result of a request goes back to the caller of
  the public method; only a panic ends the loop.
\<close>

datatype wakeup =
    Ticker
  | ExternalTxNotification
  | WithdrawQueued Transaction bool
  | CancelQueued uuid
  | ConfirmQueued uuid
  | PendingTxUpdate

text \<open>Receiving from a buffered channel takes its oldest element.\<close>

definition dispatch :: "env \<Rightarrow> walletData \<Rightarrow> wakeup \<Rightarrow> unit M" where
  "dispatch E W wk =
     (case wk of
        Ticker \<Rightarrow> returnE ()
      | ExternalTxNotification \<Rightarrow>
          modifyE (\<lambda>w. w\<lparr>externalTxNotifications := tl (externalTxNotifications w)\<rparr>)
      | WithdrawQueued tx hold \<Rightarrow> wallet_withdraw E W tx hold
      | CancelQueued i \<Rightarrow> cancelPendingTx E W i
      | ConfirmQueued i \<Rightarrow> confirmPendingTx E W i
      | PendingTxUpdate \<Rightarrow>
          bindE (modifyE (\<lambda>w. w\<lparr>pendingTxUpdateTrigger := tl (pendingTxUpdateTrigger w)\<rparr>))
            (\<lambda>_. updatePendingTxns E W))"

definition TriggerWalletUpdate :: "unit M" where
  "TriggerWalletUpdate =
     modifyE (\<lambda>w. w\<lparr>externalTxNotifications := trySend 3 () (externalTxNotifications w)\<rparr>)"

end
