(* ===== verification/WalletAdmin.thy ===== *)
theory WalletAdmin
  imports Updates Example
begin

text \<open>
  The rest of package \<open>wallet\<close>: accounts (\<open>accounts.go\<close>), the hot and the cold wallet
  addresses (\<open>hotwallet.go\<close>, \<open>coldwallet.go\<close>), information (\<open>info.go\<close>), the check at start-up
  (\<open>integrity.go\<close>), and \<open>Run\<close> with the main loop (\<open>wallet.go\<close>, \<open>updates.go\<close>).

  \<open>log.Fatalf\<close> ends the process like an unrecovered panic and is one in the model. The
  settings \<open>wallet.hot_wallet_address\<close> and \<open>wallet.cold_wallet_address\<close> are arguments.
\<close>

subsection \<open>Accounts\<close>

definition generateNewAddress :: "env \<Rightarrow> string M" where
  "generateNewAddress E = ask (e_CreateNewAddress E)"

definition store_account :: "env \<Rightarrow> Account \<Rightarrow> unit M" where
  "store_account E account =
     bindE (StoreAccount E account) (\<lambda>_. broker_Notify E NewAddressEvent (AccountData account))"

definition CreateAccount :: "env \<Rightarrow> json \<Rightarrow> Account M" where
  "CreateAccount E metainfo =
     bindE (generateNewAddress E) (\<lambda>address.
       let account = \<lparr>acc_Address = address, acc_Metainfo = metainfo\<rparr> in
       bindE (transact E (store_account E account)) (\<lambda>_.
       bindE SendNotifications (\<lambda>_.
       returnE account)))"

subsection \<open>Hot and cold wallet\<close>

definition generateHotWalletAddress :: "env \<Rightarrow> string M" where
  "generateHotWalletAddress E =
     catchE (generateNewAddress E) (\<lambda>r.
       case r of
         Inl _ \<Rightarrow> failE (GoError ''Error generating hot wallet address '')
       | Inr newHotWalletAddress \<Rightarrow>
           catchE (setHotWalletAddress E newHotWalletAddress) (\<lambda>s.
             case s of
               Inl _ \<Rightarrow> failE (GoError ''Error storing generated hot wallet address '')
             | Inr _ \<Rightarrow> returnE newHotWalletAddress))"

definition getOrCreateHotWallet :: "env \<Rightarrow> string \<Rightarrow> string M" where
  "getOrCreateHotWallet E addressFromSettings =
     (if addressFromSettings \<noteq> [] then returnE addressFromSettings
      else catchE (GetHotWalletAddress E) (\<lambda>r.
        case r of
          Inr addressFromStorage \<Rightarrow>
            if addressFromStorage \<noteq> [] then returnE addressFromStorage else panicE ''nil error''
        | Inl err \<Rightarrow>
            if err \<noteq> ErrHotWalletAddressNotGeneratedYet then panicE ''error of the storage''
            else catchE (generateHotWalletAddress E) (\<lambda>g.
              case g of
                Inl _ \<Rightarrow> panicE ''error generating the address''
              | Inr newHotWalletAddress \<Rightarrow> returnE newHotWalletAddress)))"

definition checkHotWalletAddress :: "env \<Rightarrow> walletData \<Rightarrow> unit M" where
  "checkHotWalletAddress E W =
     catchE (ask (\<lambda>n. e_GetAddressInfo E n (hotWalletAddress W))) (\<lambda>r.
       case r of
         Inl _ \<Rightarrow> panicE ''Error: failed to check hot wallet address''
       | Inr addressInfo \<Rightarrow>
           if \<not> IsMine addressInfo
           then panicE ''Error checking hot wallet address: address does not belong to wallet''
           else returnE ())"

definition initHotWallet :: "env \<Rightarrow> string \<Rightarrow> walletData \<Rightarrow> walletData M" where
  "initHotWallet E setting W =
     bindE (getOrCreateHotWallet E setting) (\<lambda>address.
       let W' = W\<lparr>hotWalletAddress := address\<rparr> in
       bindE (checkHotWalletAddress E W') (\<lambda>_. returnE W'))"

definition initColdWallet :: "env \<Rightarrow> string \<Rightarrow> walletData \<Rightarrow> walletData M" where
  "initColdWallet E setting W =
     (let W' = W\<lparr>coldWalletAddress := setting\<rparr> in
      if setting = [] then returnE W'
      else catchE (ask (\<lambda>n. e_GetAddressInfo E n setting)) (\<lambda>r.
        case r of
          Inl _ \<Rightarrow> panicE ''Error: failed to check cold wallet address''
        | Inr addressInfo \<Rightarrow>
            if IsMine addressInfo
            then panicE ''Error: configured cold wallet address belongs to current wallet''
            else returnE W'))"

subsection \<open>Information\<close>

definition GetBalance :: "env \<Rightarrow> (BTCAmount \<times> BTCAmount) M" where
  "GetBalance E =
     bindE (ask (e_Balance E)) (\<lambda>(conf, unconf). returnE (conf, conf + unconf))"

subsection \<open>Integrity\<close>

definition wallet_Check :: "env \<Rightarrow> unit M" where
  "wallet_Check E =
     catchE (CheckWalletLock E) (\<lambda>r.
       case r of
         Inl _ \<Rightarrow> panicE ''error of the storage''
       | Inr (ok, operation) \<Rightarrow>
           if ok then returnE () else panicE ''FATAL: refusing to start processing'')"

subsection \<open>The main loop\<close>

text \<open>
  What the selects of the loop receive: a wake-up and whether a stop was requested when the
  loop looked before and after the poll, or the stop itself. A finite list is a run of the
  loop up to some moment.
\<close>

datatype turn = Turn wakeup bool bool | StopTurn

fun mainLoop_body :: "env \<Rightarrow> walletData \<Rightarrow> turn list \<Rightarrow> unit M" where
  "mainLoop_body E W [] = returnE ()"
| "mainLoop_body E W (StopTurn # ts) = returnE ()"
| "mainLoop_body E W (Turn wk stop1 stop2 # ts) =
     catchE (dispatch E W wk) (\<lambda>_.
       if stop1 then returnE ()
       else bindE (checkForWalletUpdates E W) (\<lambda>_.
         if stop2 then returnE () else mainLoop_body E W ts))"

text \<open>The deferred function of \<open>mainLoop\<close> turns a panic into an error.\<close>

definition recoverE :: "'a M \<Rightarrow> 'a M" where
  "recoverE m w =
     (case m w of
        (Panic p, w') \<Rightarrow> (Error (GoError ''Wallet broker stopped by panic: ''), w')
      | (r, w') \<Rightarrow> (r, w'))"

definition mainLoop :: "env \<Rightarrow> walletData \<Rightarrow> turn list \<Rightarrow> unit M" where
  "mainLoop E W ts = recoverE (mainLoop_body E W ts)"

text \<open>\<open>Run\<close>: initialisation, which finds the addresses, and then the loop.\<close>

definition wallet_init :: "env \<Rightarrow> string \<Rightarrow> string \<Rightarrow> walletData \<Rightarrow> walletData M" where
  "wallet_init E hotSetting coldSetting W =
     bindE (initPendingManualConfirmationsTxMetric E) (\<lambda>_.
     bindE (initHotWallet E hotSetting W) (\<lambda>W1.
     bindE (initColdWallet E coldSetting W1) (\<lambda>W2.
     bindE (checkForWalletUpdates E W2) (\<lambda>_.
     bindE (updatePendingTxns E W2) (\<lambda>_.
     returnE W2)))))"

definition wallet_Run :: "env \<Rightarrow> string \<Rightarrow> string \<Rightarrow> walletData \<Rightarrow> turn list \<Rightarrow> unit M" where
  "wallet_Run E hotSetting coldSetting W ts =
     bindE (wallet_init E hotSetting coldSetting W) (\<lambda>W2. mainLoop E W2 ts)"

end
