(* ===== verification/Frame.thy ===== *)
theory Frame
  imports WalletAdmin "HOL-Library.Sublist"
begin

text \<open>
  What the operations leave alone.

  A relation between the states before and after that is reflexive and transitive is kept
  by a call if it is kept by its parts. The locales prove this once:

  \<^item> \<open>step_relation\<close> for the control-flow combinators,
  \<^item> \<open>notify_relation\<close> for notifications, from storing an event and the reported number,
  \<^item> \<open>wallet_relation\<close> for everything that runs inside a database transaction, from the
    statements of the storage,
  \<^item> \<open>process_relation\<close> for the operations of the goroutines, from the transactions and the
    payment.

  They are interpreted here for two relations,

  \<^item> \<open>calm\<close>: inside a database transaction nothing is committed or sent, and anywhere the
    trace only grows;
  \<^item> \<open>outer\<close>: outside a transaction none is left open, and the trace only grows;

  and in the theories below for what a particular proof needs.
\<close>

named_theorems keeps_intros

subsection \<open>Relations kept by calls\<close>

definition keeps :: "('s \<Rightarrow> 's \<Rightarrow> bool) \<Rightarrow> ('s, 'a) call \<Rightarrow> bool" where
  "keeps R m \<longleftrightarrow> (\<forall>s. R s (snd (m s)))"

definition keeps3 :: "('s \<Rightarrow> 's \<Rightarrow> bool) \<Rightarrow> ('m \<Rightarrow> 's \<Rightarrow> 'a res \<times> 'm \<times> 's) \<Rightarrow> bool" where
  "keeps3 R f \<longleftrightarrow> (\<forall>m s. R s (snd (snd (f m s))))"

lemma keepsI: "(\<And>s r s'. m s = (r, s') \<Longrightarrow> R s s') \<Longrightarrow> keeps R m"
  unfolding keeps_def by (metis prod.collapse)

lemma keepsD: "keeps R m \<Longrightarrow> m s = (r, s') \<Longrightarrow> R s s'"
  by (metis keeps_def snd_conv)

lemma keeps3I: "(\<And>m s r m' s'. f m s = (r, m', s') \<Longrightarrow> R s s') \<Longrightarrow> keeps3 R f"
  unfolding keeps3_def by (metis prod.collapse)

lemma keeps3D: "keeps3 R f \<Longrightarrow> f m s = (r, m', s') \<Longrightarrow> R s s'"
  by (metis keeps3_def snd_conv)

locale step_relation =
  fixes R :: "'s \<Rightarrow> 's \<Rightarrow> bool"
  assumes refl: "R s s"
    and trans: "R a b \<Longrightarrow> R b c \<Longrightarrow> R a c"
begin

lemma keeps_return [keeps_intros]: "keeps R (returnE x)"
  and keeps_fail [keeps_intros]: "keeps R (failE e)"
  and keeps_panic [keeps_intros]: "keeps R (panicE p)"
  by (simp_all add: keeps_def go_simps refl)

lemma keeps_bind [keeps_intros]:
  assumes "keeps R m" and "\<And>x. keeps R (f x)"
  shows "keeps R (bindE m f)"
proof (rule keepsI)
  fix s r s'
  assume run: "bindE m f s = (r, s')"
  obtain r1 s1 where m: "m s = (r1, s1)" by (cases "m s")
  from run m have "s' = s1 \<or> (\<exists>x. f x s1 = (r, s'))"
    by (auto simp: bindE_def split: res.splits)
  with keepsD [OF assms(1) m] keepsD [OF assms(2)] show "R s s'" by (metis trans)
qed

lemma keeps_catch [keeps_intros]:
  assumes "keeps R m" and "\<And>x. keeps R (f x)"
  shows "keeps R (catchE m f)"
proof (rule keepsI)
  fix s r s'
  assume run: "catchE m f s = (r, s')"
  obtain r1 s1 where m: "m s = (r1, s1)" by (cases "m s")
  from run m have "s' = s1 \<or> (\<exists>x. f x s1 = (r, s'))"
    by (auto simp: catchE_def split: res.splits)
  with keepsD [OF assms(1) m] keepsD [OF assms(2)] show "R s s'" by (metis trans)
qed

lemma keeps_if [keeps_intros]: "keeps R m \<Longrightarrow> keeps R n \<Longrightarrow> keeps R (if b then m else n)"
  by simp

lemma keeps_option [keeps_intros]:
  "keeps R m \<Longrightarrow> (\<And>x. keeps R (f x)) \<Longrightarrow> keeps R (case v of None \<Rightarrow> m | Some x \<Rightarrow> f x)"
  by (simp split: option.splits)

lemma keeps_sum [keeps_intros]:
  "(\<And>x. keeps R (m x)) \<Longrightarrow> (\<And>x. keeps R (f x)) \<Longrightarrow> keeps R (case v of Inl x \<Rightarrow> m x | Inr x \<Rightarrow> f x)"
  by (simp split: sum.splits)

lemma keeps_prod [keeps_intros]: "(\<And>x y. keeps R (f x y)) \<Longrightarrow> keeps R (case v of (x, y) \<Rightarrow> f x y)"
  by (simp split: prod.splits)

lemma keeps_list [keeps_intros]:
  "keeps R m \<Longrightarrow> (\<And>x y. keeps R (f x y)) \<Longrightarrow> keeps R (case v of [] \<Rightarrow> m | x # y \<Rightarrow> f x y)"
  by (simp split: list.splits)

lemma keeps_Let [keeps_intros]: "(\<And>x. keeps R (f x)) \<Longrightarrow> keeps R (let x = v in f x)"
  by simp

lemma keeps_dropArg [keeps_intros]: "keeps3 R f \<Longrightarrow> keeps R (dropArg (f m))"
  by (rule keepsI) (auto simp: dropArg_def dest: keeps3D split: prod.splits)

lemma keeps_keepArg [keeps_intros]: "keeps3 R f \<Longrightarrow> keeps R (keepArg (f m))"
  by (rule keepsI) (auto simp: keepArg_def dest: keeps3D split: prod.splits res.splits)

lemma keeps3_bind:
  assumes "\<And>m. keeps R (\<lambda>s. dropArg (f m) s)" and "\<And>x. keeps3 R (g x)"
  shows "keeps3 R (\<lambda>m s. case f m s of
           (Ok x, m', s') \<Rightarrow> g x m' s'
         | (Error e, m', s') \<Rightarrow> (Error e, m', s')
         | (Panic p, m', s') \<Rightarrow> (Panic p, m', s'))"
proof (rule keeps3I)
  fix m s r m' s'
  assume run: "(case f m s of (Ok x, m', s') \<Rightarrow> g x m' s' | (Error e, m', s') \<Rightarrow> (Error e, m', s')
         | (Panic p, m', s') \<Rightarrow> (Panic p, m', s')) = (r, m', s')"
  obtain r1 m1 s1 where f: "f m s = (r1, m1, s1)" by (metis prod_cases3)
  then have "R s s1" using keepsD [OF assms(1), of m s r1 s1] by (simp add: dropArg_def)
  moreover from run f have "s' = s1 \<or> (\<exists>x. g x m1 s1 = (r, m', s'))" by (auto split: res.splits)
  ultimately show "R s s'" using keeps3D [OF assms(2)] by (metis trans)
qed

end

text \<open>
  Notifications are made of \<open>StoreEvent\<close> and \<open>updateReportedConfirmations\<close>: a relation kept
  by these two is kept by the notifications of a transaction.
\<close>

locale notify_relation = step_relation R for R :: "world \<Rightarrow> world \<Rightarrow> bool" +
  assumes store: "keeps R (StoreEvent E n)"
    and report: "keeps3 R (\<lambda>tx. updateReportedConfirmations E tx i)"
begin

lemma keeps_NotifyTransaction [keeps_intros]: "keeps R (NotifyTransaction E et tx)"
  unfolding NotifyTransaction_def broker_Notify_def by (intro keeps_bind keeps_return store)

lemma keeps_notify_step: "keeps3 R (\<lambda>tx. notify_step E W i tx)"
proof (rule keeps3I)
  fix tx w r tx' w'
  assume run: "notify_step E W i tx w = (r, tx', w')"
  show "R w w'"
  proof (cases "getTransactionNotificationType i tx")
    case (Ok et)
    obtain r1 w1 where n: "NotifyTransaction E et (notification_for W i tx) w = (r1, w1)"
      by (cases "NotifyTransaction E et (notification_for W i tx) w")
    have "R w w1" by (rule keepsD [OF keeps_NotifyTransaction n])
    moreover from run Ok n have "w' = w1 \<or> updateReportedConfirmations E tx i w1 = (r, tx', w')"
      by (auto simp: notify_step_def split: res.splits)
    then have "R w1 w'"
      by (auto intro: refl keeps3D [OF report])
    ultimately show ?thesis by (rule trans)
  qed (use run in \<open>auto simp: notify_step_def intro: refl\<close>)
qed

lemma keeps_notify_loop: "keeps3 R (notify_loop E W is)"
proof (induction "is")
  case Nil
  then show ?case by (simp add: keeps3_def refl)
next
  case (Cons i "is")
  show ?case
  proof (rule keeps3I)
    fix tx w r tx' w'
    assume run: "notify_loop E W (i # is) tx w = (r, tx', w')"
    obtain r1 tx1 w1 where s: "notify_step E W i tx w = (r1, tx1, w1)" by (metis prod_cases3)
    have "R w w1" by (rule keeps3D [OF keeps_notify_step s])
    moreover from run s have "w' = w1 \<or> notify_loop E W is tx1 w1 = (r, tx', w')"
      by (auto split: res.splits)
    then have "R w1 w'" by (auto intro: refl keeps3D [OF Cons.IH])
    ultimately show "R w w'" by (rule trans)
  qed
qed

lemma keeps_notifyTransaction [keeps_intros]: "keeps3 R (notifyTransaction E W)"
  by (rule keeps3I) (auto simp: notifyTransaction_def Let_def intro: keeps3D [OF keeps_notify_loop])

end

text \<open>
  A relation that ignores everything but the tables, the trace and the event sequence is
  kept by reads and by the bookkeeping of channels, timers and gauges.
\<close>

locale quiet_relation = step_relation R for R :: "world \<Rightarrow> world \<Rightarrow> bool" +
  assumes quiet: "db w' = db w \<Longrightarrow> trace w' = trace w \<Longrightarrow> intx w' = intx w \<Longrightarrow>
      events_seq w' = events_seq w \<Longrightarrow> R w w'"
begin

lemma keeps_ask [keeps_intros]: "keeps R (ask q)"
  by (rule keepsI) (auto simp: ask_def intro: quiet split: sum.splits)

lemma keeps_sql_query [keeps_intros]: "keeps R (sql_query E g)"
  by (rule keepsI) (auto simp: sql_query_def intro: quiet split: outcome.splits)

lemma keeps_modifyE [keeps_intros]:
  "(\<And>w. db (f w) = db w) \<Longrightarrow> (\<And>w. trace (f w) = trace w) \<Longrightarrow> (\<And>w. intx (f w) = intx w) \<Longrightarrow>
     (\<And>w. events_seq (f w) = events_seq w) \<Longrightarrow> keeps R (modifyE f)"
  by (rule keepsI) (auto simp: modifyE_def intro: quiet)

lemma keeps_liftRes [keeps_intros]: "keeps R (liftRes r)"
  by (rule keepsI) (auto simp: liftRes_def intro: quiet)

lemma keeps_GetMeta [keeps_intros]: "keeps R (GetMeta E k d)"
  unfolding GetMeta_def by (intro keeps_intros)

lemma keeps_persistWithRetry: "keeps3 R f \<Longrightarrow> keeps3 R (persistWithRetry n f)"
proof (induction n)
  case 0
  show ?case by (rule keeps3I) (auto split: prod.splits res.splits dest: keeps3D [OF 0])
next
  case (Suc n)
  show ?case
  proof (rule keeps3I)
    fix m w r m' w'
    assume run: "persistWithRetry (Suc n) f m w = (r, m', w')"
    obtain r1 m1 w1 where f: "f m w = (r1, m1, w1)" by (metis prod_cases3)
    have 1: "R w w1" by (rule keeps3D [OF Suc.prems f])
    from run f have "w' = w1 \<or> persistWithRetry n f m1 w1 = (r, m', w')"
      by (auto split: res.splits)
    with 1 keeps3D [OF Suc.IH [OF Suc.prems]] show "R w w'" by (metis trans)
  qed
qed

end

subsection \<open>Operations inside transactions\<close>

definition wallet_keys :: "string list" where
  "wallet_keys = [''last_seen_block_hash'', ''hot_wallet_address'',
     ''money_required_from_cold_storage'', ''wallet_operation'']"

lemmas storage_reads = GetTransactionByHash_def GetTransactionByHashDirectionAndAddress_def
  GetTransactionByID_def GetBroadcastedTransactionsWithLessConfirmations_def
  GetPendingTransactions_def GetTransactionsWithFilter_def

locale wallet_relation = notify_relation R + quiet_relation R for R :: "world \<Rightarrow> world \<Rightarrow> bool" +
  assumes storing: "keeps3 R (StoreTransaction E)"
    and setting: "k \<in> set wallet_keys \<Longrightarrow> keeps R (SetMeta E k v)"
    and accounting: "keeps R (StoreAccount E acc)"
begin

lemma keeps_StoreTransaction [keeps_intros]: "keeps3 R (StoreTransaction E)"
  by (rule storing)

lemma keeps_query_one [keeps_intros]: "keeps R (query_one E P)"
  unfolding query_one_def by (intro keeps_intros)

lemma keeps_query_many [keeps_intros]: "keeps R (query_many E P)"
  unfolding query_many_def by (intro keeps_intros)

lemma keeps_reads [keeps_intros]:
  "keeps R (GetTransactionByHash E h)"
  "keeps R (GetTransactionByHashDirectionAndAddress E tx)"
  "keeps R (GetTransactionByID E i)"
  "keeps R (GetBroadcastedTransactionsWithLessConfirmations E n)"
  "keeps R (GetPendingTransactions E)" "keeps R (GetTransactionsWithFilter E s t)"
  unfolding storage_reads by (intro keeps_intros)+

lemma keeps_meta_reads [keeps_intros]:
  "keeps R (GetLastSeenBlockHash E)" "keeps R (GetMoneyRequiredFromColdStorage E)"
  "keeps R (CheckWalletLock E)" "keeps R (GetHotWalletAddress E)"
  unfolding GetLastSeenBlockHash_def GetMoneyRequiredFromColdStorage_def CheckWalletLock_def
    GetHotWalletAddress_def by (intro keeps_intros)+

lemma keeps_meta_writes [keeps_intros]:
  "keeps R (SetLastSeenBlockHash E h)" "keeps R (SetMoneyRequiredFromColdStorage E n)"
  "keeps R (LockWallet E p)" "keeps R (ClearWallet E)" "keeps R (setHotWalletAddress E a)"
  unfolding SetLastSeenBlockHash_def SetMoneyRequiredFromColdStorage_def LockWallet_def
    ClearWallet_def setHotWalletAddress_def by (simp_all add: setting wallet_keys_def)

lemma keeps_accounts [keeps_intros]:
  "keeps R (GetAccountByAddress E a)" "keeps R (StoreAccount E acc)"
  unfolding GetAccountByAddress_def by (intro keeps_intros accounting)+

lemma keeps_triggers [keeps_intros]:
  "keeps R SendNotifications" "keeps R schedulePendingTxUpdate"
  "keeps R decManualConfirmationCount" "keeps R TriggerWalletUpdate"
  unfolding SendNotifications_def schedulePendingTxUpdate_def decManualConfirmationCount_def
    TriggerWalletUpdate_def by (intro keeps_intros; simp)+

lemma keeps_broker_Notify [keeps_intros]: "keeps R (broker_Notify E et dat)"
  unfolding broker_Notify_def by (intro keeps_intros store)

lemma keeps_getAccountMetainfo [keeps_intros]: "keeps R (getAccountMetainfo E tx)"
  unfolding getAccountMetainfo_def by (intro keeps_intros)

lemma keeps_updateTxInfo [keeps_intros]: "keeps R (updateTxInfo E W tx)"
  unfolding updateTxInfo_def by (intro keeps_intros)

lemma keeps_updatePendingTxStatus [keeps_intros]: "keeps R (updatePendingTxStatus E tx st)"
  unfolding updatePendingTxStatus_def by (intro keeps_intros)

lemma keeps_internal_transfer [keeps_intros]: "keeps R (internal_transfer E W acc tx)"
  unfolding internal_transfer_def by (intro keeps_intros)

lemma keeps_persist_failure [keeps_intros]: "keeps R (persist_failure E b tx)"
  unfolding persist_failure_def by (intro keeps_intros)

lemma keeps_mark_fitting [keeps_intros]: "keeps R (mark_fitting E n txs)"
  by (induction E n txs rule: mark_fitting.induct) (auto intro: keeps_intros)

lemma keeps_mark_exceeding [keeps_intros]: "keeps R (mark_exceeding E n txs)"
  by (induction E n txs rule: mark_exceeding.induct) (auto intro: keeps_intros)

lemma keeps_mark_pending [keeps_intros]: "keeps R (mark_pending E a u txs)"
  unfolding mark_pending_def by (intro keeps_intros)

lemma keeps_cancel_in_tx [keeps_intros]: "keeps R (cancel_in_tx E i)"
  unfolding cancel_in_tx_def by (intro keeps_intros)

lemma keeps_process_reported [keeps_intros]: "keeps R (process_reported E W c bs)"
  by (induction E W c bs rule: process_reported.induct) (auto intro!: keeps_intros)

lemma keeps_decBlockchainConfirmationCount [keeps_intros]:
  "keeps R (decBlockchainConfirmationCount st)"
  unfolding decBlockchainConfirmationCount_def by (intro keeps_intros) simp_all

lemma keeps_process_known [keeps_intros]: "keeps R (process_known E W c txs)"
  by (induction E W c txs rule: process_known.induct) (auto intro!: keeps_intros)

lemma keeps_new_transactions_body [keeps_intros]: "keeps R (new_transactions_body E W)"
  unfolding new_transactions_body_def by (intro keeps_intros)

lemma keeps_existing_transactions_body [keeps_intros]: "keeps R (existing_transactions_body E W)"
  unfolding existing_transactions_body_def by (intro keeps_intros) simp_all

lemma keeps_store_account [keeps_intros]: "keeps R (store_account E acc)"
  unfolding store_account_def by (intro keeps_intros)

text \<open>A call on the captured transaction together with the world.\<close>

lemma keeps_persist_success: "keeps3 R (persist_success E W)"
proof (rule keeps3I)
  fix tx w r tx' w'
  assume run: "persist_success E W tx w = (r, tx', w')"
  let ?tell = "\<lambda>t v. if \<not> ColdStorage t then notifyTransaction E W t v else (Ok (), t, v)"
  obtain r1 t1 w1 where 1: "StoreTransaction E tx w = (r1, t1, w1)" by (metis prod_cases3)
  obtain r2 t2 w2 where 2: "?tell t1 w1 = (r2, t2, w2)" by (metis prod_cases3)
  obtain r3 w3 where 3: "ClearWallet E w2 = (r3, w3)" by (metis surj_pair)
  have "R w w1" by (rule keeps3D [OF storing 1])
  moreover have "R w1 w2"
    using 2 by (auto split: if_splits intro: refl keeps3D [OF keeps_notifyTransaction])
  moreover have "R w2 w3" by (rule keepsD [OF keeps_meta_writes(4) 3])
  moreover have "w' = w1 \<or> w' = w2 \<or> w' = w3"
    using run 1 2 3
    by (auto simp: persist_success_def bindE_def onMem_def onWorld_def split: res.splits prod.splits if_splits)
  ultimately show "R w w'" by (metis trans)
qed

end

definition calm :: "world \<Rightarrow> world \<Rightarrow> bool" where
  "calm w w' \<longleftrightarrow> suffix (trace w) (trace w') \<and> intx w' = intx w \<and> (intx w \<longrightarrow> trace w' = trace w)"

definition outer :: "world \<Rightarrow> world \<Rightarrow> bool" where
  "outer w w' \<longleftrightarrow> (\<not> intx w \<longrightarrow> \<not> intx w' \<and> suffix (trace w) (trace w'))"

interpretation calm: step_relation calm
  by unfold_locales (auto simp: calm_def intro: suffix_order.trans)

interpretation outer: step_relation outer
  by unfold_locales (auto simp: outer_def intro: suffix_order.trans)

lemma keeps_outer: "keeps calm m \<Longrightarrow> keeps outer m"
  by (auto simp: keeps_def calm_def outer_def)

lemma keeps3_outer: "keeps3 calm m \<Longrightarrow> keeps3 outer m"
  by (auto simp: keeps3_def calm_def outer_def)

lemma calm_same: "trace w' = trace w \<Longrightarrow> intx w' = intx w \<Longrightarrow> calm w w'"
  by (simp add: calm_def)

lemma calm_intx: "calm w w' \<Longrightarrow> intx w \<Longrightarrow> trace w' = trace w \<and> intx w'"
  by (simp add: calm_def)

subsection \<open>Statements\<close>

lemma db_persist [simp]: "db (persist d w) = d"
  and intx_persist [simp]: "intx (persist d w) = intx w"
  and now_persist [simp]: "now (persist d w) = now w"
  by (simp_all add: persist_def)

lemma trace_persist: "trace (persist d w) = (if intx w then trace w else EffCommit d # trace w)"
  by (simp add: persist_def)

lemma calm_persist: "trace v = trace w \<Longrightarrow> intx v = intx w \<Longrightarrow> calm w (persist d v)"
  by (simp add: calm_def trace_persist suffix_ConsI)

lemma sql_exec_cases:
  assumes "sql_exec E f w = (r, w')"
  shows "w' = tick w \<or> (\<exists>d. f (db w) = Inr d \<and> w' = persist d (tick w))"
  using assms by (auto simp: sql_exec_def split: outcome.splits sum.splits)

lemma sql_exec_Ok:
  "sql_exec E f w = (Ok x, w') \<Longrightarrow> \<exists>d. f (db w) = Inr d \<and> w' = persist d (tick w)"
  by (auto simp: sql_exec_def split: outcome.splits sum.splits)

lemma sql_query_Ok: "sql_query E g w = (Ok x, w') \<Longrightarrow> x = g (db w) \<and> w' = tick w"
  by (auto simp: sql_query_def split: outcome.splits)

lemma calm_sql_exec: "keeps calm (sql_exec E f)"
  by (rule keepsI) (auto dest!: sql_exec_cases intro: calm_same calm_persist)

lemma calm_StoreEvent: "keeps calm (StoreEvent E n)"
  by (rule keepsI)
    (auto simp: StoreEvent_def Let_def intro: calm_same calm_persist split: outcome.splits)

lemma calm_updateReportedConfirmations:
  "keeps3 calm (\<lambda>tx. updateReportedConfirmations E tx n)"
proof (rule keeps3I)
  fix tx w r tx' w'
  assume "updateReportedConfirmations E tx n w = (r, tx', w')"
  then obtain f r2 where "sql_exec E f w = (r2, w')"
    by (auto simp: updateReportedConfirmations_def split: res.splits prod.splits)
  then show "calm w w'" by (rule keepsD [OF calm_sql_exec])
qed

text \<open>
  \<open>StoreTransaction\<close> reads, may ask for a UUID, and executes at most one statement, which
  updates the rows of the table or adds one.
\<close>

lemma query_one_silent:
  "query_one E P w = (r, w1) \<Longrightarrow> w1 = tick w"
  by (auto simp: query_one_def bindE_def sql_query_def go_simps split: outcome.splits sum.splits)

lemma lookup_existing_silent:
  assumes "lookup_existing (query_one E P) w = (r, w1)"
  shows "w1 = tick w"
proof -
  obtain r0 w0 where q: "query_one E P w = (r0, w0)" by (cases "query_one E P w")
  with query_one_silent [OF q] assms show ?thesis
    by (cases r0) (auto simp: lookup_existing_def catchE_def go_simps split: go_error.splits)
qed

lemma existing_transaction_silent:
  assumes "existing_transaction E tx w = (r, w1)"
  shows "w1 \<in> {w, tick w, tick (tick w)}"
proof -
  let ?first = "if ID tx \<noteq> uuid_Nil then lookup_existing (GetTransactionByID E (ID tx)) else returnE None"
  obtain r0 w0 where 1: "?first w = (r0, w0)" by (metis surj_pair)
  then have w0: "w0 \<in> {w, tick w}"
    by (auto simp: GetTransactionByID_def go_simps split: if_splits dest: lookup_existing_silent)
  from assms 1 have "w1 = w0 \<or> lookup_existing (GetTransactionByHashDirectionAndAddress E tx) w0 = (r, w1)"
    by (auto simp: existing_transaction_def bindE_def go_simps split: res.splits option.splits if_splits)
  with w0 show ?thesis
    by (auto simp: GetTransactionByHashDirectionAndAddress_def dest: lookup_existing_silent)
qed

definition only_rows :: "(database \<Rightarrow> go_error + database) \<Rightarrow> bool" where
  "only_rows f \<longleftrightarrow> (\<forall>d d'. f d = Inr d' \<longrightarrow> (\<exists>rs. d' = d\<lparr>transactions_t := rs\<rparr>))"

lemma StoreTransaction_exec:
  assumes run: "StoreTransaction E tx w = (r, tx', w')"
  obtains v where "db v = db w" "trace v = trace w" "intx v = intx w" "events_seq v = events_seq w"
    and "w' = v \<or> (\<exists>rs. w' = persist ((db w)\<lparr>transactions_t := rs\<rparr>) (tick v))"
proof -
  obtain r1 w1 where ex: "existing_transaction E tx w = (r1, w1)"
    by (cases "existing_transaction E tx w")
  from existing_transaction_silent [OF ex]
  have s: "db w1 = db w \<and> trace w1 = trace w \<and> intx w1 = intx w \<and> events_seq w1 = events_seq w" by auto
  let ?upd = "\<lambda>old d. Inr (d\<lparr>transactions_t := map (update_row tx (ID old)) (transactions_t d)\<rparr>)"
  have rows: "only_rows (insert_tx t)" "only_rows (?upd old)" for t old
    by (auto simp: only_rows_def insert_tx_def split: if_splits)
  have "w' = w1 \<or> (\<exists>f r2. only_rows f \<and> (sql_exec E f w1 = (r2, w') \<or> sql_exec E f (tick w1) = (r2, w')))"
  proof (cases r1)
    case (Ok v)
    show ?thesis
    proof (cases v)
      case None
      define t1 where "t1 = (if ID tx = uuid_Nil then tx\<lparr>ID := e_uuid E (now w1)\<rparr> else tx)"
      obtain r2 w2 where "sql_exec E (insert_tx t1) (if ID tx = uuid_Nil then tick w1 else w1) = (r2, w2)"
        by (metis surj_pair)
      with run ex Ok None rows(1) [of t1] show ?thesis
        by (auto simp: StoreTransaction_def t1_def Let_def split: if_splits res.splits)
    next
      case (Some old)
      obtain r2 w2 where "sql_exec E (?upd old) w1 = (r2, w2)"
        by (cases "sql_exec E (?upd old) w1")
      with run ex Ok Some have "w' = w2" "sql_exec E (?upd old) w1 = (r2, w')"
        by (auto simp: StoreTransaction_def split: res.splits)
      with rows(2) [of old] show ?thesis by blast
    qed
  qed (use run ex in \<open>auto simp: StoreTransaction_def\<close>)
  then consider "w' = w1" | f v r2 where "only_rows f" "v = w1 \<or> v = tick w1" "sql_exec E f v = (r2, w')"
    by blast
  then show thesis
  proof cases
    case 1
    with s that show thesis by blast
  next
    case (2 f v r2)
    then have vs: "db v = db w" "trace v = trace w" "intx v = intx w" "events_seq v = events_seq w"
      using s by auto
    from sql_exec_cases [OF 2(3)] show thesis
    proof (elim disjE exE conjE)
      assume "w' = tick v"
      with vs show thesis by (intro that [of "tick v"]) auto
    next
      fix d assume d: "f (db v) = Inr d" "w' = persist d (tick v)"
      with 2(1) vs obtain rs where "d = (db w)\<lparr>transactions_t := rs\<rparr>" by (auto simp: only_rows_def)
      with d vs show thesis by (intro that [of v]) auto
    qed
  qed
qed

lemma calm_StoreTransaction: "keeps3 calm (StoreTransaction E)"
proof (rule keeps3I)
  fix tx w r tx' w'
  assume "StoreTransaction E tx w = (r, tx', w')"
  then show "calm w w'"
    by (rule StoreTransaction_exec) (auto intro: calm_same calm_persist)
qed

interpretation calm: wallet_relation calm
proof
  show "keeps calm (SetMeta E k v)" "keeps calm (StoreAccount E acc)" for E k v acc
    unfolding SetMeta_def StoreAccount_def by (rule calm_sql_exec)+
qed (rule calm_StoreEvent calm_updateReportedConfirmations calm_StoreTransaction | erule (1) calm_same)+

subsection \<open>Operations of the goroutines\<close>

locale process_relation = wallet_relation R for R :: "world \<Rightarrow> world \<Rightarrow> bool" +
  assumes transacting: "keeps calm f \<Longrightarrow> keeps R f \<Longrightarrow> keeps R (transact E (f :: unit M))"
    and transacting_bool: "keeps calm g \<Longrightarrow> keeps R g \<Longrightarrow> keeps R (transact E (g :: bool M))"
    and transacting_tx: "keeps calm h \<Longrightarrow> keeps R h \<Longrightarrow> keeps R (transact E (h :: Transaction M))"
    and transacting3: "keeps3 calm f3 \<Longrightarrow> keeps3 R f3 \<Longrightarrow>
      keeps3 R (MakeTransactIfAvailable E (f3 :: Transaction \<Rightarrow> world \<Rightarrow> unit res \<times> Transaction \<times> world))"
    and sending: "keeps R (sendMoney E tx)"
begin

lemmas keeps_transact [keeps_intros] = transacting transacting_bool transacting_tx

lemma keeps_sendMoney [keeps_intros]: "keeps R (sendMoney E tx)"
  by (rule sending)

lemma keeps_persistWithdrawResultWithRetry [keeps_intros]:
  "keeps3 R f \<Longrightarrow> keeps R (persistWithdrawResultWithRetry f m)"
  unfolding persistWithdrawResultWithRetry_def [abs_def]
  by (rule keeps_dropArg) (rule keeps_persistWithRetry)

lemma keeps_handleWithdrawalSuccess [keeps_intros]: "keeps R (handleWithdrawalSuccess E W tx h)"
  unfolding handleWithdrawalSuccess_def
  by (intro keeps_intros transacting3 calm.keeps_persist_success keeps_persist_success)

lemma keeps_handleWithdrawalError [keeps_intros]: "keeps R (handleWithdrawalError E err tx)"
proof -
  have "keeps3 R (\<lambda>m w. case transact E (persist_failure E b tx) w of (r, w') \<Rightarrow> (r, m, w'))" for b
    by (rule keeps3I)
      (auto split: prod.splits
        dest: keepsD [OF transacting [OF calm.keeps_persist_failure keeps_persist_failure]])
  then show ?thesis unfolding handleWithdrawalError_def by (intro keeps_intros)
qed

lemma keeps_internalWithdraw [keeps_intros]:
  "keeps R (internalWithdrawBetweenOurAccounts E W tx acc)"
  unfolding internalWithdrawBetweenOurAccounts_def by (intro keeps_intros)

lemma keeps_sendWithdrawal [keeps_intros]: "keeps R (sendWithdrawal E W tx u)"
  unfolding sendWithdrawal_def by (intro keeps_intros)

lemma keeps_send_fitting [keeps_intros]: "keeps R (send_fitting E W b txs)"
  by (induction E W b txs rule: send_fitting.induct) (auto intro!: keeps_intros)

lemma keeps_tryToUpdatePendingTxns [keeps_intros]: "keeps R (tryToUpdatePendingTxns E W)"
  unfolding tryToUpdatePendingTxns_def by (intro keeps_intros)

lemma keeps_updatePendingTxns [keeps_intros]: "keeps R (updatePendingTxns E W)"
  unfolding updatePendingTxns_def by (intro keeps_intros) simp_all

lemma keeps_after_poll [keeps_intros]: "keeps R (after_poll E W r)"
  unfolding after_poll_def by (intro keeps_intros)

lemma keeps_polls [keeps_intros]:
  "keeps R (checkForNewTransactions E W)" "keeps R (checkForExistingTransactionUpdates E W)"
  unfolding checkForNewTransactions_def checkForExistingTransactionUpdates_def
  by (intro keeps_intros)+

lemma keeps_checkForWalletUpdates [keeps_intros]: "keeps R (checkForWalletUpdates E W)"
  unfolding checkForWalletUpdates_def by (intro keeps_intros)

lemma keeps_ensureTxIDIsFree [keeps_intros]: "keeps R (ensureTxIDIsFree E i)"
  unfolding ensureTxIDIsFree_def
  by (intro keeps_intros) (auto split: go_error.splits intro: keeps_intros)

lemma keeps_hold [keeps_intros]: "keeps R (holdWithdrawalUntilConfirmed E tx)"
  unfolding holdWithdrawalUntilConfirmed_def by (intro keeps_intros) simp_all

lemma keeps_requests [keeps_intros]:
  "keeps R (wallet_withdraw E W tx h)" "keeps R (cancelPendingTx E W i)"
  "keeps R (confirmPendingTx E W i)"
  unfolding wallet_withdraw_def cancelPendingTx_def confirmPendingTx_def by (intro keeps_intros)+

lemma keeps_dispatch [keeps_intros]: "keeps R (dispatch E W wk)"
  unfolding dispatch_def by (cases wk) (auto intro!: keeps_intros)

lemma keeps_CreateAccount [keeps_intros]: "keeps R (CreateAccount E m)"
  unfolding CreateAccount_def generateNewAddress_def by (intro keeps_intros)

lemma keeps_hotwallet [keeps_intros]:
  "keeps R (generateHotWalletAddress E)" "keeps R (getOrCreateHotWallet E s)"
  "keeps R (checkHotWalletAddress E W)" "keeps R (initHotWallet E s W)" "keeps R (initColdWallet E s W)"
  unfolding initHotWallet_def checkHotWalletAddress_def getOrCreateHotWallet_def
    generateHotWalletAddress_def generateNewAddress_def initColdWallet_def
  by (intro keeps_intros)+

lemma keeps_initPending [keeps_intros]: "keeps R (initPendingManualConfirmationsTxMetric E)"
  unfolding initPendingManualConfirmationsTxMetric_def by (intro keeps_intros) simp_all

lemma keeps_wallet_init [keeps_intros]: "keeps R (wallet_init E hs cs W)"
  unfolding wallet_init_def by (intro keeps_intros)

lemma keeps_wallet_Check [keeps_intros]: "keeps R (wallet_Check E)"
  unfolding wallet_Check_def by (intro keeps_intros)

end

lemma outer_MakeTransactIfAvailable:
  assumes "keeps3 calm f"
  shows "keeps3 outer (MakeTransactIfAvailable E f)"
proof (rule keeps3I)
  fix m w r m' w'
  assume run: "MakeTransactIfAvailable E f m w = (r, m', w')"
  show "outer w w'"
  proof (cases "intx w")
    case False
    have "\<And>v r n v'. f m v = (r, n, v') \<Longrightarrow> intx v \<Longrightarrow> trace v' = trace v"
      using keeps3D [OF assms] calm_intx by blast
    with run False show ?thesis
      by (rule MakeTransactIfAvailable_cases) (auto simp: outer_def suffix_ConsI)
  qed (simp add: outer_def)
qed

lemma outer_transact:
  assumes "keeps calm f"
  shows "keeps outer (transact E f)"
proof -
  have "keeps3 calm (\<lambda>_ v. case f v of (r, v') \<Rightarrow> (r, (), v'))"
    by (rule keeps3I) (auto dest: keepsD [OF assms] split: prod.splits)
  from outer_MakeTransactIfAvailable [OF this, of E] show ?thesis
    by (auto simp: keeps_def keeps3_def transact_def split: prod.splits)
      (metis snd_conv)
qed

interpretation outer: process_relation outer
proof
  show "keeps outer (sendMoney E tx)" for E tx
    by (rule keepsI) (auto simp: sendMoney_def outer_def Let_def suffix_ConsI)
qed (auto intro: keeps_outer keeps3_outer calm_StoreEvent calm_updateReportedConfirmations
    calm.keeps_StoreTransaction calm.setting calm.keeps_accounts outer_transact
    outer_MakeTransactIfAvailable simp: outer_def)

end
