(* ===== verification/TxView.thy ===== *)
theory TxView
  imports Frame
begin

text \<open>
  The transactions table seen as a map from identifiers to rows.

  \<open>core\<close> forgets the counter of reported confirmations, which only notifications change;
  \<open>pk\<close> is the primary key of the table. The lemmas say what each successful storage
  operation does to this view: notifications and reads leave it alone, \<open>StoreTransaction\<close>
  updates exactly one row or adds one.
\<close>

subsection \<open>The view\<close>

definition ids :: "database \<Rightarrow> uuid list" where
  "ids d = map r_id (transactions_t d)"

definition core_row :: "tx_row \<Rightarrow> tx_row" where
  "core_row r = r\<lparr>r_reported_confirmations := 0\<rparr>"

definition core :: "database \<Rightarrow> uuid \<rightharpoonup> tx_row" where
  "core d = map_of (map (\<lambda>r. (r_id r, core_row r)) (transactions_t d))"

definition pk :: "database \<Rightarrow> bool" where
  "pk d \<longleftrightarrow> distinct (ids d) \<and> uuid_Nil \<notin> set (ids d)"

lemma dom_core: "dom (core d) = set (ids d)"
  by (simp add: core_def ids_def dom_map_of_conv_image_fst image_image)

lemma core_row_simps [simp]:
  "r_id (core_row r) = r_id r" "r_hash (core_row r) = r_hash r"
  "r_status (core_row r) = r_status r" "r_direction (core_row r) = r_direction r"
  "r_address (core_row r) = r_address r"
  by (simp_all add: core_row_def)

lemma core_lookup: "pk d \<Longrightarrow> r \<in> set (transactions_t d) \<Longrightarrow> core d (r_id r) = Some (core_row r)"
  unfolding core_def pk_def ids_def
  by (intro map_of_is_SomeI) (auto simp: comp_def)

lemma core_SomeD:
  "core d i = Some c \<Longrightarrow> \<exists>r \<in> set (transactions_t d). r_id r = i \<and> c = core_row r"
  unfolding core_def by (auto dest!: map_of_SomeD)

lemma ids_conv: "set (ids d) = r_id ` set (transactions_t d)"
  by (simp add: ids_def)

subsection \<open>Operations that leave the view alone\<close>

definition same_view :: "world \<Rightarrow> world \<Rightarrow> bool" where
  "same_view w w' \<longleftrightarrow> core (db w') = core (db w) \<and> ids (db w') = ids (db w) \<and>
     metadata_t (db w') = metadata_t (db w)"

interpretation same_view: step_relation same_view
  by unfold_locales (auto simp: same_view_def)

lemma same_view_db: "db w' = db w \<Longrightarrow> same_view w w'"
  by (simp add: same_view_def)

lemma same_view_sql_query [keeps_intros]: "keeps same_view (sql_query E g)"
  by (rule keepsI) (auto simp: sql_query_def intro: same_view_db split: outcome.splits)

lemma same_view_ask [keeps_intros]: "keeps same_view (ask q)"
  by (rule keepsI) (auto simp: ask_def intro: same_view_db split: sum.splits)

lemma same_view_modifyE [keeps_intros]:
  "(\<And>w. db (f w) = db w) \<Longrightarrow> keeps same_view (modifyE f)"
  by (rule keepsI) (auto simp: modifyE_def intro: same_view_db)

lemma same_view_liftRes [keeps_intros]: "keeps same_view (liftRes r)"
  by (rule keepsI) (auto simp: liftRes_def intro: same_view_db)

lemma same_view_StoreEvent [keeps_intros]: "keeps same_view (StoreEvent E n)"
proof (rule keepsI)
  fix w r w'
  assume "StoreEvent E n w = (r, w')"
  then show "same_view w w'"
    by (cases rule: StoreEvent_cases) (auto simp: same_view_def core_def ids_def)
qed

lemma same_view_query_one [keeps_intros]: "keeps same_view (query_one E P)"
  unfolding query_one_def by (intro keeps_intros)

lemma same_view_query_many [keeps_intros]: "keeps same_view (query_many E P)"
  unfolding query_many_def by (intro keeps_intros)

lemma same_view_reads [keeps_intros]:
  "keeps same_view (GetTransactionByHash E h)"
  "keeps same_view (GetTransactionByHashDirectionAndAddress E tx)"
  "keeps same_view (GetTransactionByID E i)"
  "keeps same_view (GetBroadcastedTransactionsWithLessConfirmations E n)"
  "keeps same_view (GetPendingTransactions E)" "keeps same_view (GetTransactionsWithFilter E s t)"
  unfolding storage_reads by (intro keeps_intros)+

lemma same_view_GetMeta [keeps_intros]: "keeps same_view (GetMeta E k d)"
  unfolding GetMeta_def by (intro keeps_intros)

lemma same_view_GetAccountByAddress [keeps_intros]: "keeps same_view (GetAccountByAddress E a)"
  unfolding GetAccountByAddress_def by (intro keeps_intros)

lemma same_view_getAccountMetainfo [keeps_intros]: "keeps same_view (getAccountMetainfo E tx)"
  unfolding getAccountMetainfo_def by (intro keeps_intros)

lemma core_report:
  "core (d\<lparr>transactions_t := map (\<lambda>r. if r_id r = i then r\<lparr>r_reported_confirmations := n\<rparr> else r)
      (transactions_t d)\<rparr>) = core d"
  unfolding core_def by (simp add: comp_def core_row_def if_distrib cong: if_cong)

lemma ids_report:
  "ids (d\<lparr>transactions_t := map (\<lambda>r. if r_id r = i then r\<lparr>r_reported_confirmations := n\<rparr> else r)
      (transactions_t d)\<rparr>) = ids d"
  unfolding ids_def by (simp add: comp_def if_distrib cong: if_cong)

lemma same_view_updateReportedConfirmations:
  "keeps3 same_view (\<lambda>tx. updateReportedConfirmations E tx n)"
proof (rule keeps3I)
  fix tx w r tx' w'
  assume "updateReportedConfirmations E tx n w = (r, tx', w')"
  then have "db w' = db w \<or> db w' = (db w)\<lparr>transactions_t :=
      map (\<lambda>r. if r_id r = ID tx then r\<lparr>r_reported_confirmations := n\<rparr> else r)
        (transactions_t (db w))\<rparr>"
    by (auto simp: updateReportedConfirmations_def sql_exec_def split: outcome.splits)
  then show "same_view w w'" by (auto simp: same_view_def core_report ids_report)
qed

interpretation same_view: notify_relation same_view
  by unfold_locales
    (rule same_view_StoreEvent same_view_updateReportedConfirmations)+

subsection \<open>Lookups\<close>

lemma transactionFromDatabaseRow_ID:
  "transactionFromDatabaseRow r = Inr t \<Longrightarrow>
     ID t = r_id r \<and> Hash t = r_hash r \<and> Status_String (Status t) = r_status r \<and>
     Address t = r_address r \<and> Amount t = r_amount r \<and> Status t \<noteq> InvalidTransaction"
  by (auto simp: transactionFromDatabaseRow_def StatusFromString_iff split: sum.splits)

lemma transactionFromDatabaseRow_no_rows: "transactionFromDatabaseRow r \<noteq> Inl ErrNoRows"
  by (auto simp: transactionFromDatabaseRow_def TransactionDirectionFromString_def
      TransactionStatusFromString_def split: sum.splits option.splits)

lemma query_one_cases:
  assumes "query_one E P w = (r, w')"
  obtains
    (driver) s where "r = Error (DriverError s)" "w' = tick w"
  | (none) "r = Error ErrNoRows" "w' = tick w" "\<And>x. x \<in> set (transactions_t (db w)) \<Longrightarrow> \<not> P x"
  | (invalid) e where "r = Error e" "e \<noteq> ErrNoRows" "w' = tick w"
  | (found) x t where "r = Ok t" "w' = tick w" "x \<in> set (transactions_t (db w))" "P x"
      "transactionFromDatabaseRow x = Inr t"
proof (cases "e_sql E (now w)")
  case Succeeds
  with assms have run: "(case first_row (filter P (transactions_t (db w))) of
      Inl e \<Rightarrow> failE e | Inr t \<Rightarrow> returnE t) (tick w) = (r, w')"
    by (simp add: query_one_def bindE_def sql_query_def)
  show thesis
  proof (cases "filter P (transactions_t (db w))")
    case Nil
    with run that(2) show thesis by (auto simp: first_row_def go_simps filter_empty_conv)
  next
    case (Cons x xs)
    then have x: "x \<in> set (transactions_t (db w))" "P x" by (auto dest: filter_eq_ConsD)
    show thesis
    proof (cases "transactionFromDatabaseRow x")
      case (Inl e)
      with Cons run that(3) transactionFromDatabaseRow_no_rows [of x] show thesis
        by (auto simp: first_row_def go_simps)
    next
      case (Inr t)
      with Cons run that(4) [OF _ _ x] show thesis by (auto simp: first_row_def go_simps)
    qed
  qed
qed (use assms that(1) in \<open>auto simp: query_one_def bindE_def sql_query_def\<close>)

lemma lookup_existing_Ok:
  assumes "lookup_existing (query_one E P) w = (Ok v, w')"
  shows "w' = tick w \<and>
    (case v of
       None \<Rightarrow> \<forall>x \<in> set (transactions_t (db w)). \<not> P x
     | Some t \<Rightarrow> \<exists>x \<in> set (transactions_t (db w)). P x \<and> transactionFromDatabaseRow x = Inr t)"
proof -
  obtain r w1 where q: "query_one E P w = (r, w1)" by (cases "query_one E P w")
  from q show ?thesis
  proof (cases rule: query_one_cases)
    case (invalid e)
    with q assms show ?thesis
      by (cases e) (auto simp: lookup_existing_def catchE_def go_simps)
  qed (use q assms in \<open>auto simp: lookup_existing_def catchE_def go_simps\<close>)
qed

text \<open>
  What \<open>StoreTransaction\<close> may find: the row with the identifier of the transaction or, if
  there is none, a row with its hash, direction and address.
\<close>

definition same_payment :: "Transaction \<Rightarrow> tx_row \<Rightarrow> bool" where
  "same_payment tx r \<longleftrightarrow> r_hash r = Hash tx \<and> r_direction r = Direction_String (Direction tx) \<and>
     r_address r = Address tx"

definition matches :: "Transaction \<Rightarrow> database \<Rightarrow> tx_row \<Rightarrow> bool" where
  "matches tx d r \<longleftrightarrow>
     (if ID tx \<noteq> uuid_Nil \<and> ID tx \<in> set (ids d) then r_id r = ID tx
      else Hash tx \<noteq> [] \<and> same_payment tx r)"

lemma existing_transaction_Ok:
  assumes "existing_transaction E tx w = (Ok v, w')"
  shows "db w' = db w \<and> intx w' = intx w \<and>
    (case v of
       None \<Rightarrow> (ID tx = uuid_Nil \<or> ID tx \<notin> set (ids (db w))) \<and>
               (\<forall>r \<in> set (transactions_t (db w)). \<not> matches tx (db w) r)
     | Some t \<Rightarrow> \<exists>r \<in> set (transactions_t (db w)).
               matches tx (db w) r \<and> transactionFromDatabaseRow r = Inr t)"
proof -
  from assms obtain v1 w1 where
    first: "(if ID tx \<noteq> uuid_Nil then lookup_existing (GetTransactionByID E (ID tx)) else returnE None) w
      = (Ok v1, w1)" and
    second: "(case v1 of Some t \<Rightarrow> returnE (Some t) | None \<Rightarrow>
        if Hash tx \<noteq> [] then lookup_existing (GetTransactionByHashDirectionAndAddress E tx)
        else returnE None) w1 = (Ok v, w')"
    unfolding existing_transaction_def bindE_is_Ok by blast
  have one: "db w1 = db w \<and> intx w1 = intx w \<and>
    (case v1 of None \<Rightarrow> ID tx = uuid_Nil \<or> ID tx \<notin> set (ids (db w))
     | Some t \<Rightarrow> ID tx \<noteq> uuid_Nil \<and> (\<exists>r \<in> set (transactions_t (db w)). r_id r = ID tx \<and> transactionFromDatabaseRow r = Inr t))"
  proof (cases "ID tx = uuid_Nil")
    case False
    with first have "lookup_existing (query_one E (\<lambda>r. r_id r = ID tx)) w = (Ok v1, w1)"
      by (simp add: GetTransactionByID_def)
    from lookup_existing_Ok [OF this] False show ?thesis
      by (cases v1) (auto simp: ids_conv)
  qed (use first in \<open>simp add: go_simps\<close>)
  show ?thesis
  proof (cases v1)
    case (Some t)
    with one obtain r where r: "r \<in> set (transactions_t (db w))" "r_id r = ID tx"
      "transactionFromDatabaseRow r = Inr t" "ID tx \<noteq> uuid_Nil" by auto
    then have "matches tx (db w) r" by (simp add: matches_def ids_conv rev_image_eqI)
    with Some second one r show ?thesis by (auto simp: go_simps)
  next
    case None
    note noid = this
    show ?thesis
    proof (cases "Hash tx = []")
      case True
      with None second one show ?thesis by (auto simp: go_simps matches_def)
    next
      case False
      with None second have "lookup_existing (query_one E (same_payment tx)) w1 = (Ok v, w')"
        by (simp add: GetTransactionByHashDirectionAndAddress_def same_payment_def [abs_def])
      from lookup_existing_Ok [OF this] None one False show ?thesis
        by (cases v) (auto simp: matches_def)
    qed
  qed
qed

subsection \<open>Storing a transaction\<close>

definition update_core :: "Transaction \<Rightarrow> tx_row \<Rightarrow> tx_row" where
  "update_core tx r =
     r\<lparr>r_hash := Hash tx, r_block_hash := BlockHash tx, r_confirmations := Confirmations tx,
       r_status := Status_String (Status tx)\<rparr>"

lemma ids_update_row: "map (r_id \<circ> update_row tx j) rs = map r_id rs"
  by (simp add: update_row_def)

lemma core_update:
  assumes "pk d" and "r \<in> set (transactions_t d)"
  shows "core (d\<lparr>transactions_t := map (update_row tx (r_id r)) (transactions_t d)\<rparr>) =
    (core d)(r_id r \<mapsto> update_core tx (core_row r))" (is "core ?d' = _")
proof
  fix i
  let ?u = "update_row tx (r_id r)"
  have pk': "pk ?d'" using assms(1) by (simp add: pk_def ids_def update_row_def comp_def if_distrib cong: if_cong)
  show "core ?d' i = ((core d)(r_id r \<mapsto> update_core tx (core_row r))) i"
  proof (cases "i \<in> set (ids d)")
    case True
    then obtain x where x: "x \<in> set (transactions_t d)" "r_id x = i" by (auto simp: ids_conv)
    have "?u x \<in> set (transactions_t ?d')" using x by simp
    from core_lookup [OF pk' this] have c: "core ?d' i = Some (core_row (?u x))"
      using x by (simp add: update_row_def split: if_splits)
    show ?thesis
    proof (cases "i = r_id r")
      case True
      with assms x have "x = r" by (auto simp: pk_def ids_def intro: distinct_map_inj)
      with c x show ?thesis by (simp add: update_row_def update_core_def core_row_def)
    next
      case False
      with c x core_lookup [OF assms(1) x(1)] show ?thesis by (simp add: update_row_def)
    qed
  next
    case False
    with assms(2) have "i \<noteq> r_id r" by (auto simp: ids_conv)
    moreover from False have "core d i = None" by (metis domIff dom_core)
    moreover from False have "i \<notin> set (ids ?d')"
      by (simp add: ids_def update_row_def comp_def if_distrib cong: if_cong)
    then have "core ?d' i = None" by (metis domIff dom_core)
    ultimately show ?thesis by simp
  qed
qed

lemma core_insert:
  assumes "ID tx \<notin> set (ids d)"
  shows "core (d\<lparr>transactions_t := transactions_t d @ [row_of_tx tx]\<rparr>) =
    (core d)(ID tx \<mapsto> core_row (row_of_tx tx))"
proof -
  have "r_id (row_of_tx tx) = ID tx" by (simp add: row_of_tx_def)
  moreover have "core d (ID tx) = None" using assms by (metis domIff dom_core)
  ultimately show ?thesis
    by (auto simp: core_def map_add_def fun_eq_iff split: option.splits)
qed

lemma pk_same_ids: "ids d' = ids d \<Longrightarrow> pk d' = pk d"
  by (simp add: pk_def)

lemma pk_insert: "pk d \<Longrightarrow> ids d' = ids d @ [i] \<Longrightarrow> i \<notin> set (ids d) \<Longrightarrow> i \<noteq> uuid_Nil \<Longrightarrow> pk d'"
  by (auto simp: pk_def)

text \<open>
  A successful \<open>StoreTransaction\<close> updates the row it found or adds a new one; nothing else
  of the view changes. UUIDs out of the generator are never \<open>uuid.Nil\<close>.
\<close>

definition uuid_ok :: "env \<Rightarrow> bool" where
  "uuid_ok E \<longleftrightarrow> (\<forall>n. e_uuid E n \<noteq> uuid_Nil)"

lemma StoreTransaction_Ok:
  assumes run: "StoreTransaction E tx w = (Ok t, tx', w')" and "pk (db w)" and "uuid_ok E"
  obtains
    (updated) r where "r \<in> set (transactions_t (db w))" "matches tx (db w) r" "tx' = tx"
      "core (db w') = (core (db w))(r_id r \<mapsto> update_core tx (core_row r))"
      "pk (db w')" "metadata_t (db w') = metadata_t (db w)"
      "ID t = r_id r" "Hash t = Hash tx" "Status t = Status tx"
  | (inserted) "\<And>r. r \<in> set (transactions_t (db w)) \<Longrightarrow> \<not> matches tx (db w) r"
      "tx' = tx\<lparr>ID := ID tx'\<rparr>" "ID tx \<noteq> uuid_Nil \<Longrightarrow> ID tx' = ID tx" "ID tx' \<notin> set (ids (db w))"
      "core (db w') = (core (db w))(ID tx' \<mapsto> core_row (row_of_tx tx'))"
      "pk (db w')" "metadata_t (db w') = metadata_t (db w)" "t = tx'"
proof -
  from run obtain v w1 where ex: "existing_transaction E tx w = (Ok v, w1)"
    by (auto simp: StoreTransaction_def split: prod.splits res.splits)
  note found = existing_transaction_Ok [OF ex]
  show thesis
  proof (cases v)
    case (Some old)
    with found obtain r where r: "r \<in> set (transactions_t (db w))" "matches tx (db w) r"
      "transactionFromDatabaseRow r = Inr old" by auto
    from transactionFromDatabaseRow_ID [OF r(3)] have old: "ID old = r_id r" by simp
    let ?d = "(db w)\<lparr>transactions_t := map (update_row tx (r_id r)) (transactions_t (db w))\<rparr>"
    from run ex Some old found have d: "db w' = ?d" and u: "Transaction_Update old tx = Ok t" "tx' = tx"
      by (auto simp: StoreTransaction_def split: prod.splits res.splits dest!: sql_exec_Ok)
    have "ids ?d = ids (db w)"
      by (simp add: ids_def update_row_def comp_def if_distrib cong: if_cong)
    then have pk': "pk (db w')" using assms(2) by (simp add: d pk_def)
    show thesis
    proof (rule that(1) [OF r(1,2) u(2)])
      show "core (db w') = (core (db w))(r_id r \<mapsto> update_core tx (core_row r))"
        unfolding d by (rule core_update [OF assms(2) r(1)])
    qed (use pk' Transaction_Update_Ok [OF u(1)] old in \<open>simp_all add: d\<close>)
  next
    case None
    define tx1 where "tx1 = (if ID tx = uuid_Nil then tx\<lparr>ID := e_uuid E (now w1)\<rparr> else tx)"
    from run ex None have t: "t = tx1" "tx' = tx1" and
      "sql_exec E (insert_tx tx1) (if ID tx = uuid_Nil then tick w1 else w1) = (Ok (), w')"
      by (auto simp: StoreTransaction_def Let_def tx1_def split: prod.splits res.splits if_splits)
    then have ins: "insert_tx tx1 (db w) = Inr (db w')" using found
      by (auto dest!: sql_exec_Ok split: if_splits)
    then have new: "ID tx1 \<notin> set (ids (db w))" and
      d: "db w' = (db w)\<lparr>transactions_t := transactions_t (db w) @ [row_of_tx tx1]\<rparr>"
      by (auto simp: insert_tx_def ids_conv split: if_splits)
    have id1: "ID tx1 \<noteq> uuid_Nil" "tx1 = tx\<lparr>ID := ID tx1\<rparr>" "ID tx \<noteq> uuid_Nil \<Longrightarrow> ID tx1 = ID tx"
      using assms(3) by (auto simp: tx1_def uuid_ok_def)
    have "ids (db w') = ids (db w) @ [ID tx1]" by (simp add: d ids_def row_of_tx_def)
    with assms(2) new id1 have "pk (db w')" by (auto intro: pk_insert)
    moreover from found None have "\<And>r. r \<in> set (transactions_t (db w)) \<Longrightarrow> \<not> matches tx (db w) r"
      by simp
    moreover have "core (db w') = (core (db w))(ID tx1 \<mapsto> core_row (row_of_tx tx1))"
      using core_insert [OF new] d by simp
    moreover have "metadata_t (db w') = metadata_t (db w)" by (simp add: d)
    ultimately show thesis using that(2) t id1(2,3) new by blast
  qed
qed

end
