(* ===== verification/Safety.thy ===== *)
theory Safety
  imports TxView
begin

text \<open>
  Payments and crashes.

  A payment handed to the Bitcoin node cannot be undone, and the process may die at any
  moment. \<open>paid\<close> lists the identifiers of the withdrawals the node accepted, \<open>durable\<close> is the
  database as it survives a crash. A withdrawal is \<open>settled\<close> when its row has left the
  pending statuses, and the database is \<open>locked\<close> while \<open>wallet_operation\<close> is set.

  The invariant \<open>Steady\<close> says that between two operations every paid withdrawal is settled.
  Inside \<open>sendWithdrawal\<close> there is a window in which this fails; \<open>Critical\<close> says that the
  lock is set there. Each operation of the wallet is shown to lead from \<open>Steady\<close> to
  \<open>Steady\<close>, through states that are safe to crash in.
\<close>

named_theorems safe_intros

subsection \<open>Definitions\<close>

definition pending_name :: "string \<Rightarrow> bool" where
  "pending_name s \<longleftrightarrow>
     s = Status_String PendingTransaction \<or> s = Status_String PendingColdStorageTransaction \<or>
     s = Status_String PendingManualConfirmationTransaction"

definition settled :: "database \<Rightarrow> uuid \<Rightarrow> bool" where
  "settled d i = (case core d i of None \<Rightarrow> False | Some c \<Rightarrow> \<not> pending_name (r_status c))"

definition waiting :: "database \<Rightarrow> uuid \<Rightarrow> bool" where
  "waiting d i = (case core d i of None \<Rightarrow> False | Some c \<Rightarrow> pending_name (r_status c))"

definition locked :: "database \<Rightarrow> bool" where
  "locked d = (case metadata_t d ''wallet_operation'' of None \<Rightarrow> False | Some v \<Rightarrow> v \<noteq> [])"

fun durable :: "database \<Rightarrow> effect list \<Rightarrow> database" where
  "durable d0 [] = d0"
| "durable d0 (EffCommit d # t) = d"
| "durable d0 (_ # t) = durable d0 t"

fun paid :: "effect list \<Rightarrow> uuid list" where
  "paid [] = []"
| "paid (EffSend i _ _ _ (Inr _) # t) = i # paid t"
| "paid (_ # t) = paid t"

definition safe_now :: "database \<Rightarrow> effect list \<Rightarrow> bool" where
  "safe_now d0 t \<longleftrightarrow> (\<forall>i \<in> set (paid t). locked (durable d0 t) \<or> settled (durable d0 t) i)"

text \<open>A crash after any prefix of the effects leaves a state that is safe.\<close>

fun crash_safe :: "database \<Rightarrow> effect list \<Rightarrow> bool" where
  "crash_safe d0 [] = True"
| "crash_safe d0 (e # t) \<longleftrightarrow> safe_now d0 (e # t) \<and> crash_safe d0 t"

text \<open>
  No commit takes a settled withdrawal back, and a payment is never handed to the node for
  a withdrawal that is already settled.
\<close>

fun orderly :: "database \<Rightarrow> effect list \<Rightarrow> bool" where
  "orderly d0 [] = True"
| "orderly d0 (EffCommit d # t) \<longleftrightarrow>
     (\<forall>i \<in> set (ids (durable d0 t)). settled (durable d0 t) i \<longrightarrow> settled d i) \<and> orderly d0 t"
| "orderly d0 (EffSend i _ _ _ r # t) \<longleftrightarrow> \<not> settled (durable d0 t) i \<and> orderly d0 t"
| "orderly d0 (EffPost _ _ # t) \<longleftrightarrow> orderly d0 t"

text \<open>The identifier of a Bitcoin transaction is not one that is already known.\<close>

fun fresh_hashes :: "database \<Rightarrow> effect list \<Rightarrow> bool" where
  "fresh_hashes d0 [] = True"
| "fresh_hashes d0 (EffSend _ _ _ _ (Inr h) # t) \<longleftrightarrow>
     h \<notin> r_hash ` set (transactions_t (durable d0 t)) \<and> fresh_hashes d0 t"
| "fresh_hashes d0 (_ # t) \<longleftrightarrow> fresh_hashes d0 t"

text \<open>Withdrawals that wait have not been broadcast.\<close>

definition good :: "database \<Rightarrow> bool" where
  "good d \<longleftrightarrow> pk d \<and> (\<forall>r \<in> set (transactions_t d). pending_name (r_status r) \<longrightarrow> r_hash r = [])"

fun all_good :: "effect list \<Rightarrow> bool" where
  "all_good [] = True"
| "all_good (EffCommit d # t) \<longleftrightarrow> good d \<and> all_good t"
| "all_good (_ # t) \<longleftrightarrow> all_good t"

definition Sound :: "database \<Rightarrow> world \<Rightarrow> bool" where
  "Sound d0 w \<longleftrightarrow>
     crash_safe d0 (trace w) \<and> distinct (paid (trace w)) \<and> orderly d0 (trace w) \<and>
     all_good (trace w)"

definition Steady :: "database \<Rightarrow> world \<Rightarrow> bool" where
  "Steady d0 w \<longleftrightarrow> Sound d0 w \<and> \<not> intx w \<and> durable d0 (trace w) = db w \<and> good (db w) \<and>
     (\<forall>i \<in> set (paid (trace w)). settled (db w) i)"

definition Critical :: "database \<Rightarrow> uuid \<Rightarrow> world \<Rightarrow> bool" where
  "Critical d0 i w \<longleftrightarrow> Sound d0 w \<and> \<not> intx w \<and> durable d0 (trace w) = db w \<and> good (db w) \<and>
     (\<forall>j \<in> set (paid (trace w)). j \<noteq> i \<longrightarrow> settled (db w) j) \<and>
     (locked (db w) \<or> settled (db w) i)"

subsection \<open>Traces\<close>

lemma crash_safe_suffix: "crash_safe d0 t \<Longrightarrow> suffix s t \<Longrightarrow> crash_safe d0 s"
  by (induction t) (auto simp: suffix_Cons)

lemma crash_safe_now: "crash_safe d0 t \<Longrightarrow> safe_now d0 t"
  by (cases t) (auto simp: safe_now_def)

lemma fresh_hashes_suffix: "fresh_hashes d0 t \<Longrightarrow> suffix s t \<Longrightarrow> fresh_hashes d0 s"
proof (induction t)
  case (Cons e t)
  from Cons.prems(1) have "fresh_hashes d0 t"
    by (cases e) (auto elim: fresh_hashes.elims split: sum.splits)
  with Cons show ?case by (auto simp: suffix_Cons)
qed simp

lemma paid_suffix: "suffix s t \<Longrightarrow> \<exists>p. paid t = p @ paid s"
proof (induction t)
  case (Cons e t)
  show ?case
  proof (cases "s = e # t")
    case False
    with Cons obtain p where "paid t = p @ paid s" by (auto simp: suffix_Cons)
    moreover have "\<exists>q. paid (e # t) = q @ paid t"
    proof (cases e)
      case (EffSend i a m f r)
      then show ?thesis by (cases r) auto
    qed auto
    ultimately show ?thesis by auto
  qed simp
qed simp

lemma all_good_append: "all_good (u @ t) \<Longrightarrow> all_good t"
  by (induction u) (auto elim: all_good.elims)

lemma durable_good: "good d0 \<Longrightarrow> all_good t \<Longrightarrow> good (durable d0 t)"
  by (induction d0 t rule: durable.induct) auto

lemma settled_in_ids: "settled d i \<Longrightarrow> i \<in> set (ids d)"
  by (auto simp: settled_def dom_core [symmetric] split: option.splits)

lemma orderly_append: "orderly d0 (u @ t) \<Longrightarrow> orderly d0 t"
  by (induction u) (auto elim: orderly.elims)

text \<open>What is settled stays settled, and is not paid any more.\<close>

lemma orderly_settled:
  "orderly d0 (u @ t) \<Longrightarrow> settled (durable d0 t) i \<Longrightarrow> settled (durable d0 (u @ t)) i"
proof (induction u)
  case (Cons e u)
  then show ?case
  proof (cases e)
    case (EffCommit d)
    with Cons show ?thesis by (auto dest: settled_in_ids)
  qed auto
qed simp

lemma orderly_not_paid:
  "orderly d0 (u @ t) \<Longrightarrow> settled (durable d0 t) i \<Longrightarrow> EffSend i a m f r \<notin> set u"
proof (induction u)
  case (Cons e u)
  from Cons.prems(1) have o: "orderly d0 (u @ t)" by (cases e) auto
  from orderly_settled [OF this Cons.prems(2)] Cons.prems(1) Cons.IH [OF o Cons.prems(2)]
  show ?case by (cases e) auto
qed simp

subsection \<open>The table\<close>

lemma pending_name_String [simp]: "pending_name (Status_String st) = pending_status st"
  by (simp add: pending_name_def pending_status_def Status_String_inject)

lemma good_core:
  "good d \<longleftrightarrow> pk d \<and> (\<forall>i c. core d i = Some c \<longrightarrow> pending_name (r_status c) \<longrightarrow> r_hash c = [])"
  unfolding good_def by (metis core_SomeD core_lookup core_row_simps(2,3))

definition frame :: "uuid set \<Rightarrow> database \<Rightarrow> database \<Rightarrow> bool" where
  "frame A d d' \<longleftrightarrow> (\<forall>i \<in> dom (core d). i \<notin> A \<longrightarrow> core d' i = core d i)"

text \<open>What the successful operations do to the table; \<open>A\<close> holds the rows that may change.\<close>

definition advance :: "uuid set \<Rightarrow> database \<Rightarrow> database \<Rightarrow> bool" where
  "advance A d d' \<longleftrightarrow> good d' \<and> frame A d d' \<and> (\<forall>i. settled d i \<longrightarrow> settled d' i)"

lemma frame_trans: "frame A d d' \<Longrightarrow> frame A d' d'' \<Longrightarrow> frame A d d''"
  unfolding frame_def by (metis domIff)

lemma frame_refl [simp]: "frame A d d" by (simp add: frame_def)

lemma frame_mono: "frame A d d' \<Longrightarrow> A \<subseteq> B \<Longrightarrow> frame B d d'" by (auto simp: frame_def)

lemma frame_waiting: "frame A d d' \<Longrightarrow> i \<notin> A \<Longrightarrow> waiting d i \<Longrightarrow> waiting d' i"
  by (auto simp: frame_def waiting_def split: option.splits)

lemma waiting_not_settled: "waiting d i \<Longrightarrow> \<not> settled d i"
  by (simp add: waiting_def settled_def split: option.splits)

lemma advance_refl: "good d \<Longrightarrow> advance A d d" by (simp add: advance_def)

lemma advance_trans: "advance A d d' \<Longrightarrow> advance A d' d'' \<Longrightarrow> advance A d d''"
  unfolding advance_def by (blast intro: frame_trans)

lemma advance_mono: "advance A d d' \<Longrightarrow> A \<subseteq> B \<Longrightarrow> advance B d d'"
  unfolding advance_def by (blast intro: frame_mono)

lemma advance_view:
  "good d \<Longrightarrow> core d' = core d \<Longrightarrow> ids d' = ids d \<Longrightarrow> advance A d d'"
  by (simp add: advance_def good_core frame_def settled_def pk_def)

lemma advance_same_view: "good (db w) \<Longrightarrow> same_view w w' \<Longrightarrow> advance A (db w) (db w')"
  by (simp add: same_view_def advance_view)

lemma good_upd:
  assumes "good d" "core d' = (core d)(j \<mapsto> c)" "pk d'" "pending_name (r_status c) \<Longrightarrow> r_hash c = []"
  shows "good d'"
  using assms by (auto simp: good_core)

lemma advance_upd:
  assumes "good d" "core d' = (core d)(j \<mapsto> c)" "pk d'" "pending_name (r_status c) \<Longrightarrow> r_hash c = []"
    and "pending_name (r_status c) \<Longrightarrow> \<not> settled d j" and "j \<in> A \<or> j \<notin> dom (core d)"
  shows "advance A d d'"
  using assms good_upd [OF assms(1-4)] by (auto simp: advance_def frame_def settled_def)

subsection \<open>Storing\<close>

lemma row_of_tx_simps [simp]:
  "r_id (row_of_tx tx) = ID tx" "r_hash (row_of_tx tx) = Hash tx"
  "r_status (row_of_tx tx) = Status_String (Status tx)"
  by (simp_all add: row_of_tx_def)

lemma update_core_simps [simp]:
  "r_hash (update_core tx c) = Hash tx" "r_status (update_core tx c) = Status_String (Status tx)"
  by (simp_all add: update_core_def)

text \<open>A store with a status that is not pending settles whatever row it touches.\<close>

lemma StoreTransaction_settling:
  assumes "StoreTransaction E tx w = (Ok t, tx', w')" and "good (db w)" and "uuid_ok E"
    and "\<not> pending_status (Status tx)"
  shows "advance UNIV (db w) (db w') \<and> Status t = Status tx"
proof -
  from assms(2) have "pk (db w)" by (simp add: good_def)
  with assms(1) show ?thesis
  proof (rule StoreTransaction_Ok)
    show "uuid_ok E" by fact
  next
    fix r assume "core (db w') = (core (db w))(r_id r \<mapsto> update_core tx (core_row r))" "pk (db w')"
      "Status t = Status tx"
    with assms show ?thesis by (auto intro: advance_upd)
  next
    assume *: "core (db w') = (core (db w))(ID tx' \<mapsto> core_row (row_of_tx tx'))" "pk (db w')"
      "tx' = tx\<lparr>ID := ID tx'\<rparr>" "t = tx'"
    then have "Status tx' = Status tx" by (metis Transaction.select_convs(7) Transaction.surjective
          Transaction.update_convs(1))
    with * assms show ?thesis by (auto intro: advance_upd)
  qed
qed

text \<open>A store of a transaction with an identifier of its own touches only that row.\<close>

definition own_hash :: "database \<Rightarrow> Transaction \<Rightarrow> bool" where
  "own_hash d tx \<longleftrightarrow> Hash tx = [] \<or> (\<forall>j c. core d j = Some c \<longrightarrow> r_hash c = Hash tx \<longrightarrow> j = ID tx)"

lemma StoreTransaction_own:
  assumes run: "StoreTransaction E tx w = (Ok t, tx', w')" and "good (db w)" and "uuid_ok E"
    and nz: "ID tx \<noteq> uuid_Nil" and own: "own_hash (db w) tx"
  obtains c where "tx' = tx" "ID t = ID tx" "core (db w') = (core (db w))(ID tx \<mapsto> c)"
    "r_status c = Status_String (Status tx)" "r_hash c = Hash tx" "pk (db w')"
proof -
  from assms(2) have pk: "pk (db w)" by (simp add: good_def)
  from run pk assms(3) show thesis
  proof (cases rule: StoreTransaction_Ok)
    case (updated r)
    have "r_id r = ID tx"
    proof (cases "ID tx \<in> set (ids (db w))")
      case True
      with updated nz show ?thesis by (simp add: matches_def)
    next
      case False
      with updated nz have "Hash tx \<noteq> []" "r_hash r = Hash tx"
        by (simp_all add: matches_def same_payment_def)
      with own core_lookup [OF pk updated(1)] show ?thesis by (auto simp: own_hash_def)
    qed
    with updated that show thesis by simp
  next
    case inserted
    then have "ID tx' = ID tx" using nz by blast
    then have "tx' = tx" using inserted(2) by simp
    with inserted that show thesis by simp
  qed
qed

lemma StoreTransaction_own_advance:
  assumes run: "StoreTransaction E tx w = (Ok t, tx', w')" and "good (db w)" and "uuid_ok E"
    and "ID tx \<noteq> uuid_Nil" and "own_hash (db w) tx"
    and "pending_status (Status tx) \<Longrightarrow> Hash tx = [] \<and> \<not> settled (db w) (ID tx)"
  shows "advance {ID tx} (db w) (db w') \<and> tx' = tx \<and> ID t = ID tx \<and>
    settled (db w') (ID tx) = (\<not> pending_status (Status tx)) \<and>
    (own_hash (db w) tx \<longrightarrow> own_hash (db w') tx)"
  using assms(1-5)
proof (rule StoreTransaction_own)
  fix c assume c: "core (db w') = (core (db w))(ID tx \<mapsto> c)"
    "r_status c = Status_String (Status tx)" "r_hash c = Hash tx" "pk (db w')" "tx' = tx" "ID t = ID tx"
  from c(1,4) assms(2,6) c(2,3) have "advance {ID tx} (db w) (db w')"
    by (intro advance_upd [where j = "ID tx" and c = c]) auto
  with c show ?thesis by (auto simp: settled_def own_hash_def)
qed

text \<open>A store without identifier and hash adds a row.\<close>

lemma StoreTransaction_new:
  assumes run: "StoreTransaction E tx w = (Ok t, tx', w')" and "good (db w)" and "uuid_ok E"
    and "ID tx = uuid_Nil" and "Hash tx = []"
  shows "advance {} (db w) (db w')"
proof -
  from assms(2) have pk: "pk (db w)" by (simp add: good_def)
  from run pk assms(3) show ?thesis
  proof (cases rule: StoreTransaction_Ok)
    case (updated r)
    with assms show ?thesis by (simp add: matches_def)
  next
    case inserted
    have "Hash tx' = []" using inserted(2) assms(5)
      by (metis Transaction.select_convs(2) Transaction.surjective Transaction.update_convs(1))
    moreover have new: "ID tx' \<notin> dom (core (db w))" using inserted(4) by (simp add: dom_core)
    then have "\<not> settled (db w) (ID tx')" by (auto simp: settled_def split: option.splits)
    ultimately show ?thesis
      using inserted(5,6) assms(2) new by (intro advance_upd [where j = "ID tx'"]) auto
  qed
qed

subsection \<open>Operations inside a transaction\<close>

lemma dropArg_Ok: "dropArg f s = (Ok x, s') \<longleftrightarrow> (\<exists>m. f s = (Ok x, m, s'))"
  by (auto simp: dropArg_def split: prod.splits)

lemma keepArg_Ok: "keepArg f s = (Ok (x, m), s') \<longleftrightarrow> f s = (Ok x, m, s')"
  by (auto simp: keepArg_def split: prod.splits res.splits)

lemmas ok_unfold = bindE_is_Ok dropArg_Ok keepArg_Ok

lemma advance_keeps:
  "keeps same_view m \<Longrightarrow> m w = (r, w') \<Longrightarrow> good (db w) \<Longrightarrow> advance A (db w) (db w')"
  by (blast intro: advance_same_view keepsD)

lemma advance_SetMeta: "SetMeta E k v w = (Ok x, w') \<Longrightarrow> good (db w) \<Longrightarrow> advance A (db w) (db w')"
  by (auto simp: SetMeta_def core_def ids_def intro!: advance_view dest!: sql_exec_Ok)

lemma advance_good: "advance A d d' \<Longrightarrow> good d'" by (simp add: advance_def)

lemma advance_notify:
  "dropArg (notifyTransaction E W tx) w = (r, w') \<Longrightarrow> good (db w) \<Longrightarrow> advance A (db w) (db w')"
  by (erule advance_keeps [OF same_view.keeps_dropArg [OF same_view.keeps_notifyTransaction]])

lemma setTxStatus_pending:
  "pending_status (Status (setTxStatusByConfirmations W tx)) = pending_status (Status tx)"
  by (auto simp: setTxStatusByConfirmations_def pending_status_def)

lemma setTxStatus_frame [simp]:
  "ID (setTxStatusByConfirmations W tx) = ID tx" "Hash (setTxStatusByConfirmations W tx) = Hash tx"
  by (auto simp: setTxStatusByConfirmations_def)

lemma transact_atomic:
  assumes "transact E f w = (r, w')" "\<not> intx w" "keeps calm f"
  obtains (aborted) "db w' = db w" "\<not> is_ok r"
  | (committed) x v where "f ((tick w)\<lparr>intx := True\<rparr>) = (Ok x, v)" "db w' = db v"
proof -
  have quiet: "trace v' = trace v" if "f v = (r, v')" "intx v" for v r v'
    using keepsD [OF assms(3) that(1)] calm_intx that(2) by blast
  from assms(1,2) quiet show thesis by (rule transact_cases) (use that in blast)+
qed

lemma updateTxInfo_Ok:
  assumes "updateTxInfo E W tx w = (Ok x, w')"
  obtains m w1 st t w2 where "same_view w w1"
    "StoreTransaction E (setTxStatusByConfirmations W (tx\<lparr>Metainfo := m\<rparr>)) w1 = (Ok st, t, w2)"
    "same_view w2 w'"
proof -
  let ?hot = "Address tx = hotWalletAddress W"
  let ?meta = "if Direction tx = IncomingDirection
      then (if \<not> ?hot then getAccountMetainfo E tx else returnE hotStorageMeta)
      else returnE (Metainfo tx)"
  let ?tx = "\<lambda>m. setTxStatusByConfirmations W (tx\<lparr>Metainfo := m\<rparr>)"
  let ?note = "\<lambda>st. if \<not> ?hot \<and> \<not> ColdStorage st then dropArg (notifyTransaction E W st) else returnE ()"
  from assms(1) obtain m w1 st t w2 w3 where
    1: "?meta w = (Ok m, w1)" and 2: "StoreTransaction E (?tx m) w1 = (Ok st, t, w2)" and
    3: "?note st w2 = (Ok (), w3)" and 4: "w' = w3"
    unfolding updateTxInfo_def Let_def by (auto simp: ok_unfold returnE_def simp del: if_not_P split del: if_split)
  have "keeps same_view ?meta" by (intro keeps_intros)
  then have "same_view w w1" using 1 by (rule keepsD)
  moreover have "keeps same_view (?note st)" by (intro keeps_intros)
  then have "same_view w2 w'" using 3 unfolding 4 by (rule keepsD)
  ultimately show thesis using 2 that by blast
qed

lemma updateTxInfo_advance:
  assumes "updateTxInfo E W tx w = (Ok x, w')" and "good (db w)" and "uuid_ok E"
    and "\<not> pending_status (Status tx)"
  shows "advance UNIV (db w) (db w')"
  using assms(1)
proof (rule updateTxInfo_Ok)
  fix m w1 st t w2
  assume 1: "same_view w w1" and 3: "same_view w2 w'" and
    2: "StoreTransaction E (setTxStatusByConfirmations W (tx\<lparr>Metainfo := m\<rparr>)) w1 = (Ok st, t, w2)"
  from advance_same_view [OF assms(2) 1] have a1: "advance UNIV (db w) (db w1)" .
  from StoreTransaction_settling [OF 2 advance_good [OF a1] assms(3)] assms(4)
  have a2: "advance UNIV (db w1) (db w2)" by (simp add: setTxStatus_pending)
  from advance_same_view [OF advance_good [OF a2] 3] a1 a2 show ?thesis by (metis advance_trans)
qed

lemma process_reported_advance:
  "process_reported E W c bs w = (Ok x, w') \<Longrightarrow> good (db w) \<Longrightarrow> uuid_ok E \<Longrightarrow>
     advance UNIV (db w) (db w')"
proof (induction bs arbitrary: c w)
  case (Cons b bs)
  from Cons.prems(1) obtain ch st w1 where 1: "updateTxInfo E W (NewTransactionFromBTCJSON b) w = (Ok (ch, st), w1)"
    and 2: "process_reported E W (c \<or> ch) bs w1 = (Ok x, w')"
    by (auto simp: ok_unfold)
  have "\<not> pending_status (Status (NewTransactionFromBTCJSON b))"
    by (simp add: NewTransactionFromBTCJSON_def Let_def pending_status_def)
  from updateTxInfo_advance [OF 1 Cons.prems(2,3) this] have a: "advance UNIV (db w) (db w1)" .
  from Cons.IH [OF 2 advance_good [OF a] Cons.prems(3)] a show ?case by (metis advance_trans)
qed (simp add: returnE_def advance_refl)

lemma process_known_advance:
  "process_known E W c txs w = (Ok x, w') \<Longrightarrow> good (db w) \<Longrightarrow> uuid_ok E \<Longrightarrow>
     \<forall>tx \<in> set txs. \<not> pending_status (Status tx) \<Longrightarrow> advance UNIV (db w) (db w')"
proof (induction txs arbitrary: c w)
  case (Cons tx txs)
  from Cons.prems(1) obtain i w1 tx' ch st w2 w3 where
    1: "ask (\<lambda>n. e_GetTransaction E n (Hash tx)) w = (Ok i, w1)" and
    2: "UpdateFromFullTxInfo tx i = Ok tx'" and 3: "updateTxInfo E W tx' w1 = (Ok (ch, st), w2)" and
    4: "decBlockchainConfirmationCount st w2 = (Ok (), w3)" and
    5: "process_known E W (c \<or> ch) txs w3 = (Ok x, w')"
    by (auto simp: ok_unfold liftRes_def)
  have d: "db w1 = db w" "db w3 = db w2"
    using 1 4 by (auto simp: ask_def decBlockchainConfirmationCount_def modifyE_def split: sum.splits if_splits)
  from 2 Cons.prems(4) have "\<not> pending_status (Status tx')"
    by (auto simp: UpdateFromFullTxInfo_def split: if_splits)
  with 3 Cons.prems(2,3) d have a: "advance UNIV (db w) (db w3)" by (metis updateTxInfo_advance)
  from Cons.IH [OF 5 advance_good [OF a] Cons.prems(3)] Cons.prems(4) a show ?case
    by (auto intro: advance_trans)
qed (simp add: returnE_def advance_refl)

lemma decode_rows_set:
  "decode_rows rs = Inr ts \<Longrightarrow> t \<in> set ts \<Longrightarrow> \<exists>r \<in> set rs. transactionFromDatabaseRow r = Inr t"
  by (induction rs arbitrary: ts) (auto split: sum.splits)

lemma decode_rows_ids: "decode_rows rs = Inr ts \<Longrightarrow> map ID ts = map r_id rs"
  by (induction rs arbitrary: ts) (auto split: sum.splits dest: transactionFromDatabaseRow_ID)

lemma query_many_Ok:
  "query_many E P w = (Ok ts, w') \<Longrightarrow> w' = tick w \<and> decode_rows (filter P (transactions_t (db w))) = Inr ts"
  by (auto simp: query_many_def bindE_def go_simps split: sum.splits prod.splits res.splits
      dest!: sql_query_Ok)

lemma new_transactions_body_advance:
  assumes "new_transactions_body E W w = (Ok x, w')" and "good (db w)" and "uuid_ok E"
  shows "advance UNIV (db w) (db w')"
proof -
  from assms(1) obtain h w1 ts b w2 w3 where
    1: "GetLastSeenBlockHash E w = (Ok h, w1)" and
    2: "ask (\<lambda>n. e_ListTransactionsSinceBlock E n h) w1 = (Ok (ts, b), w2)" and
    3: "process_reported E W False ts w2 = (Ok x, w3)" and
    4: "SetLastSeenBlockHash E b w3 = (Ok (), w')"
    unfolding new_transactions_body_def by (auto simp: ok_unfold go_simps)
  have d: "db w2 = db w" using 1 2
    by (auto simp: GetLastSeenBlockHash_def ask_def split: sum.splits dest!: GetMeta_frame)
  with process_reported_advance [OF 3] assms have a: "advance UNIV (db w) (db w3)" by simp
  from advance_SetMeta [OF 4 [unfolded SetLastSeenBlockHash_def] advance_good [OF a]] a show ?thesis
    by (metis advance_trans)
qed

lemma existing_transactions_body_advance:
  assumes "existing_transactions_body E W w = (Ok x, w')" and "good (db w)" and "uuid_ok E"
  shows "advance UNIV (db w) (db w')"
proof -
  let ?P = "\<lambda>r. r_confirmations r < maxConfirmations W \<and> r_hash r \<noteq> []"
  from assms(1) obtain ts w1 w2 where
    1: "query_many E ?P w = (Ok ts, w1)" and
    w2: "w2 = w1\<lparr>txnsWaitingBlockchainConfirmationCount := int (length ts)\<rparr>" and
    3: "process_known E W False ts w2 = (Ok x, w')"
    unfolding existing_transactions_body_def GetBroadcastedTransactionsWithLessConfirmations_def
    by (auto simp: ok_unfold modifyE_def)
  from w2 have d: "db w2 = db w1" by simp
  from query_many_Ok [OF 1] have w1: "db w1 = db w" and
    dec: "decode_rows (filter ?P (transactions_t (db w))) = Inr ts" by auto
  have "\<forall>t \<in> set ts. \<not> pending_status (Status t)"
  proof
    fix t assume "t \<in> set ts"
    from decode_rows_set [OF dec this] obtain r where
      "r \<in> set (transactions_t (db w))" "r_hash r \<noteq> []" "transactionFromDatabaseRow r = Inr t" by auto
    with assms(2) show "\<not> pending_status (Status t)"
      by (metis good_def pending_name_String transactionFromDatabaseRow_ID)
  qed
  with process_known_advance [OF 3] d w1 assms show ?thesis by simp
qed

subsection \<open>Withdrawals that wait\<close>

text \<open>A withdrawal that may be sent or marked: it is not broadcast and its row is not settled.\<close>

definition unsent :: "database \<Rightarrow> Transaction \<Rightarrow> bool" where
  "unsent d tx \<longleftrightarrow> ID tx \<noteq> uuid_Nil \<and> Hash tx = [] \<and> \<not> settled d (ID tx)"

lemma updatePendingTxStatus_Ok:
  assumes "updatePendingTxStatus E tx st w = (Ok x, w')" and "good (db w)" and "uuid_ok E"
    and "unsent (db w) tx"
  shows "advance {ID tx} (db w) (db w') \<and> (pending_status st \<longrightarrow> unsent (db w') tx)"
proof (cases "st = Status tx")
  case True
  with assms show ?thesis by (simp add: updatePendingTxStatus_def returnE_def advance_refl)
next
  case False
  with assms(1) obtain et t t' w1 where 1: "StoreTransaction E (tx\<lparr>Status := st\<rparr>) w = (Ok t, t', w1)"
    and 2: "NotifyTransaction E et t' w1 = (Ok x, w')"
    unfolding updatePendingTxStatus_def by (auto simp: ok_unfold)
  from StoreTransaction_own_advance [OF 1 assms(2,3)] assms(4)
  have a: "advance {ID tx} (db w) (db w1)" and b: "pending_status st \<Longrightarrow> unsent (db w1) tx"
    by (auto simp: unsent_def own_hash_def)
  have v: "same_view w1 w'" by (rule keepsD [OF same_view.keeps_NotifyTransaction 2])
  with a have "advance {ID tx} (db w) (db w')"
    by (blast intro: advance_trans advance_same_view advance_good)
  with b v show ?thesis by (auto simp: unsent_def settled_def same_view_def)
qed

lemmas updatePendingTxStatus_advance = updatePendingTxStatus_Ok [THEN conjunct1]

lemma unsent_frame:
  assumes "unsent d tx" and "waiting d (ID tx)" and "frame A d d'" and "ID tx \<notin> A"
  shows "unsent d' tx \<and> waiting d' (ID tx)"
  using assms by (auto simp: unsent_def dest: frame_waiting waiting_not_settled)

text \<open>The withdrawals read by \<open>GetPendingTransactions\<close>, in any order.\<close>

definition backlog :: "database \<Rightarrow> Transaction list \<Rightarrow> bool" where
  "backlog d txs \<longleftrightarrow> distinct (map ID txs) \<and>
     (\<forall>tx \<in> set txs. unsent d tx \<and> waiting d (ID tx))"

lemma backlog_Cons:
  "backlog d (tx # txs) \<Longrightarrow> unsent d tx \<and> waiting d (ID tx) \<and> ID tx \<notin> ID ` set txs \<and> backlog d txs"
  by (simp add: backlog_def)

lemma backlog_frame: "backlog d txs \<Longrightarrow> frame A d d' \<Longrightarrow> A \<inter> ID ` set txs = {} \<Longrightarrow> backlog d' txs"
  unfolding backlog_def using unsent_frame by (metis disjoint_iff imageI)

lemma mark_step:
  assumes "updatePendingTxStatus E tx st w = (Ok x, w')" and "good (db w)" and "uuid_ok E"
    and "backlog (db w) (tx # txs)"
  shows "advance (ID ` set (tx # txs)) (db w) (db w') \<and> good (db w') \<and> backlog (db w') txs"
proof -
  from backlog_Cons [OF assms(4)] have u: "unsent (db w) tx" "ID tx \<notin> ID ` set txs" "backlog (db w) txs"
    by auto
  have a: "advance {ID tx} (db w) (db w')" by (rule updatePendingTxStatus_advance [OF assms(1-3) u(1)])
  then have "frame {ID tx} (db w) (db w')" by (simp add: advance_def)
  with u have "backlog (db w') txs" by (auto intro: backlog_frame)
  with a show ?thesis by (auto intro: advance_mono dest: advance_good)
qed

lemma mark_fitting_advance:
  "mark_fitting E b txs w = (Ok (c, rest), w') \<Longrightarrow> good (db w) \<Longrightarrow> uuid_ok E \<Longrightarrow> backlog (db w) txs \<Longrightarrow>
     advance (ID ` set txs) (db w) (db w') \<and> backlog (db w') rest \<and> suffix rest txs"
proof (induction txs arbitrary: b w)
  case (Cons tx txs)
  show ?case
  proof (cases "0 \<le> sint (b - Amount tx)")
    case True
    with Cons.prems(1) obtain w1 where 1: "updatePendingTxStatus E tx PendingTransaction w = (Ok (), w1)"
      and 2: "mark_fitting E (b - Amount tx) txs w1 = (Ok (c, rest), w')" by (auto simp: ok_unfold)
    note m = mark_step [OF 1 Cons.prems(2-4)]
    with Cons.IH [OF 2] Cons.prems(3) show ?thesis
      by (auto intro: advance_trans advance_mono suffix_ConsI)
  next
    case False
    with Cons.prems show ?thesis by (auto simp: returnE_def advance_refl)
  qed
qed (auto simp: returnE_def advance_refl)

lemma mark_exceeding_advance:
  "mark_exceeding E b txs w = (Ok c, w') \<Longrightarrow> good (db w) \<Longrightarrow> uuid_ok E \<Longrightarrow> backlog (db w) txs \<Longrightarrow>
     advance (ID ` set txs) (db w) (db w')"
proof (induction txs arbitrary: b w)
  case (Cons tx txs)
  from Cons.prems(1) obtain w1 where
    1: "updatePendingTxStatus E tx PendingColdStorageTransaction w = (Ok (), w1)"
    and 2: "mark_exceeding E (b - Amount tx) txs w1 = (Ok c, w')" by (auto simp: ok_unfold)
  note m = mark_step [OF 1 Cons.prems(2-4)]
  with Cons.IH [OF 2] Cons.prems(3) show ?case by (auto intro: advance_trans advance_mono)
qed (auto simp: returnE_def advance_refl)

lemma mark_pending_advance:
  assumes "mark_pending E b u txs w = (Ok x, w')" and "good (db w)" and "uuid_ok E"
    and "backlog (db w) txs"
  shows "advance UNIV (db w) (db w')"
proof -
  from assms(1) obtain c rest w1 where
    1: "(if 0 < u then mark_fitting E (b + u) txs else returnE (b, txs)) w = (Ok (c, rest), w1)" and
    2: "(if rest = [] then SetMoneyRequiredFromColdStorage E 0
         else bindE (mark_exceeding E c rest) (\<lambda>left. SetMoneyRequiredFromColdStorage E (- left))) w1 = (Ok x, w')"
    unfolding mark_pending_def by (auto simp: ok_unfold simp del: if_not_P split del: if_split)
  from 1 assms(2-4) have a: "advance UNIV (db w) (db w1)" and b: "backlog (db w1) rest"
    by (auto simp: returnE_def advance_refl split: if_splits dest: mark_fitting_advance
        intro: advance_mono)
  show ?thesis
  proof (cases "rest = []")
    case True
    with 2 advance_SetMeta [OF _ advance_good [OF a]] a show ?thesis
      by (auto simp: SetMoneyRequiredFromColdStorage_def intro: advance_trans)
  next
    case False
    with 2 obtain c' w2 where 3: "mark_exceeding E c rest w1 = (Ok c', w2)" and
      4: "SetMeta E ''money_required_from_cold_storage'' (FormatUint (- c')) w2 = (Ok x, w')"
      by (auto simp: ok_unfold SetMoneyRequiredFromColdStorage_def)
    from mark_exceeding_advance [OF 3 advance_good [OF a] assms(3) b]
    have a2: "advance UNIV (db w1) (db w2)" by (rule advance_mono) simp
    from advance_SetMeta [OF 4 advance_good [OF a2]] a a2 show ?thesis by (metis advance_trans)
  qed
qed

text \<open>A row read by identifier, and the transaction made of it.\<close>

lemma GetTransactionByID_Ok:
  assumes "GetTransactionByID E i w = (Ok tx, w')"
  shows "w' = tick w \<and> (\<exists>r \<in> set (transactions_t (db w)). r_id r = i \<and> transactionFromDatabaseRow r = Inr tx)"
  using assms unfolding GetTransactionByID_def by (cases rule: query_one_cases) auto

lemma pending_row_unsent:
  assumes "good d" "r \<in> set (transactions_t d)" "transactionFromDatabaseRow r = Inr tx"
    and "pending_status (Status tx)"
  shows "unsent d tx \<and> waiting d (ID tx) \<and> ID tx = r_id r"
proof -
  from transactionFromDatabaseRow_ID [OF assms(3)] assms(4)
  have t: "ID tx = r_id r" "Hash tx = r_hash r" "pending_name (r_status r)"
    by (auto simp flip: pending_name_String)
  have c: "core d (r_id r) = Some (core_row r)" using assms(1,2) by (simp add: good_def core_lookup)
  have "r_hash r = []" "r_id r \<noteq> uuid_Nil" using assms(1,2) t by (auto simp: good_def pk_def ids_conv)
  with t c show ?thesis by (simp add: unsent_def waiting_def settled_def)
qed

lemma cancel_in_tx_advance:
  assumes "cancel_in_tx E i w = (Ok x, w')" and "good (db w)" and "uuid_ok E"
  shows "advance {i} (db w) (db w') \<and> waiting (db w) i"
proof -
  from assms(1) obtain tx w1 where 1: "GetTransactionByID E i w = (Ok tx, w1)"
    and p: "pending_status (Status tx)" and 2: "updatePendingTxStatus E tx CancelledTransaction w1 = (Ok x, w')"
    unfolding cancel_in_tx_def by (auto simp: ok_unfold go_simps split: if_splits)
  from GetTransactionByID_Ok [OF 1] obtain r where d: "db w1 = db w" and
    r: "r \<in> set (transactions_t (db w))" "r_id r = i" "transactionFromDatabaseRow r = Inr tx" by auto
  from pending_row_unsent [OF assms(2) r(1,3) p] r(2) have "unsent (db w) tx" "waiting (db w) i" "ID tx = i"
    by auto
  with updatePendingTxStatus_advance [OF 2] d assms(2,3) show ?thesis by auto
qed

lemma internal_transfer_advance:
  assumes "internal_transfer E W acc tx w = (Ok x, w')" and "good (db w)" and "uuid_ok E"
    and "unsent (db w) tx"
  shows "advance {ID tx} (db w) (db w')"
proof -
  let ?tx1 = "tx\<lparr>Confirmations := maxConfirmations W, Status := FullyConfirmedTransaction\<rparr>"
  from assms(1) obtain tx2 w1 st t2 w2 where
    1: "(if \<not> ColdStorage ?tx1
         then bindE (keepArg (StoreTransaction E ?tx1)) (\<lambda>(stored, tx2).
              bindE (dropArg (notifyTransaction E W stored)) (\<lambda>_. returnE tx2))
         else returnE ?tx1) w = (Ok tx2, w1)" and
    2: "StoreTransaction E (incoming_part acc tx2) w1 = (Ok st, t2, w2)" and
    3: "dropArg (notifyTransaction E W st) w2 = (Ok x, w')"
    unfolding internal_transfer_def Let_def bindE_is_Ok dropArg_Ok by metis
  have *: "advance {ID tx} (db w) (db w1) \<and> tx2 = ?tx1"
  proof (cases "ColdStorage tx")
    case True
    with 1 assms(2) show ?thesis by (simp add: returnE_def advance_refl)
  next
    case False
    with 1 obtain st' t' v where s: "StoreTransaction E ?tx1 w = (Ok st', t', v)" and
      n: "dropArg (notifyTransaction E W st') v = (Ok (), w1)" and t': "tx2 = t'"
      by (auto simp: ok_unfold returnE_def)
    have a: "advance {ID tx} (db w) (db v) \<and> t' = ?tx1"
      using StoreTransaction_own_advance [OF s assms(2,3)] assms(4)
      by (simp add: unsent_def own_hash_def pending_status_def)
    with advance_notify [OF n, of "{ID tx}"] t' show ?thesis by (auto intro: advance_trans dest: advance_good)
  qed
  from * have a: "advance {ID tx} (db w) (db w1)" ..
  from * have "Hash tx2 = Hash tx" by simp
  then have "Hash (incoming_part acc tx2) = []" using assms(4) by (simp add: incoming_part_def unsent_def)
  with StoreTransaction_new [OF 2 advance_good [OF a] assms(3)]
  have "advance {} (db w1) (db w2)" by (simp add: incoming_part_def)
  then have b: "advance {ID tx} (db w1) (db w2)" by (rule advance_mono) simp
  have "advance {ID tx} (db w2) (db w')" by (rule advance_notify [OF 3 advance_good [OF b]])
  with a b show ?thesis by (blast intro: advance_trans)
qed

end
