(* ===== verification/SafeWallet.thy ===== *)
theory SafeWallet
  imports Safety "HOL-Library.Multiset"
begin

text \<open>
  Every operation of the wallet goroutine leads from a \<open>Steady\<close> world to a \<open>Steady\<close> world,
  whatever its surroundings answer and whichever of its statements fail; where it panics,
  the trace it leaves is still safe to crash in.
\<close>

subsection \<open>Safe operations\<close>

definition safe_at :: "database \<Rightarrow> uuid set \<Rightarrow> 'a M \<Rightarrow> world \<Rightarrow> bool" where
  "safe_at d0 A m w \<longleftrightarrow>
     (\<forall>r w'. m w = (r, w') \<longrightarrow> fresh_hashes d0 (trace w') \<longrightarrow>
        Sound d0 w' \<and> (\<not> is_panic r \<longrightarrow> Steady d0 w' \<and> frame A (db w) (db w')))"

lemma safe_atI:
  "(\<And>r w'. m w = (r, w') \<Longrightarrow> fresh_hashes d0 (trace w') \<Longrightarrow>
      Sound d0 w' \<and> (\<not> is_panic r \<longrightarrow> Steady d0 w' \<and> frame A (db w) (db w'))) \<Longrightarrow> safe_at d0 A m w"
  by (simp add: safe_at_def)

lemma safe_atD:
  "safe_at d0 A m w \<Longrightarrow> m w = (r, w') \<Longrightarrow> fresh_hashes d0 (trace w') \<Longrightarrow>
     Sound d0 w' \<and> (\<not> is_panic r \<longrightarrow> Steady d0 w' \<and> frame A (db w) (db w'))"
  by (simp add: safe_at_def)

lemma Steady_Sound: "Steady d0 w \<Longrightarrow> Sound d0 w"
  by (simp add: Steady_def)

lemma outer_fresh:
  "keeps outer m \<Longrightarrow> m w = (r, w') \<Longrightarrow> \<not> intx w \<Longrightarrow> fresh_hashes d0 (trace w') \<Longrightarrow> fresh_hashes d0 (trace w)"
  by (drule (1) keepsD) (auto simp: outer_def intro: fresh_hashes_suffix)

lemma safe_return [safe_intros]: "Steady d0 w \<Longrightarrow> safe_at d0 A (returnE x) w"
  and safe_fail [safe_intros]: "Steady d0 w \<Longrightarrow> safe_at d0 A (failE e) w"
  by (auto simp: safe_at_def go_simps Steady_Sound)

text \<open>
  The second call starts in the world the first one leaves, which is \<open>Steady\<close>. That the first
  call leaves no transaction open, even if it panics, is part of \<open>outer\<close>.
\<close>

lemma safe_bind:
  assumes m: "safe_at d0 A m w" "keeps outer m" "\<not> intx w" and f: "\<And>x. keeps outer (f x)"
    and step: "\<And>x w1. m w = (Ok x, w1) \<Longrightarrow> Steady d0 w1 \<Longrightarrow> frame A (db w) (db w1) \<Longrightarrow>
        fresh_hashes d0 (trace w1) \<Longrightarrow> safe_at d0 A (f x) w1"
  shows "safe_at d0 A (bindE m f) w"
proof (rule safe_atI)
  fix r w'
  assume run: "bindE m f w = (r, w')" and fresh: "fresh_hashes d0 (trace w')"
  obtain r1 w1 where 1: "m w = (r1, w1)" by (cases "m w")
  have nt: "\<not> intx w1" using keepsD [OF m(2) 1] m(3) by (simp add: outer_def)
  show "Sound d0 w' \<and> (\<not> is_panic r \<longrightarrow> Steady d0 w' \<and> frame A (db w) (db w'))"
  proof (cases r1)
    case (Ok x)
    with run 1 have 2: "f x w1 = (r, w')" by (simp add: bindE_def)
    from outer_fresh [OF f 2 nt fresh] safe_atD [OF m(1) 1] Ok
    have s: "Steady d0 w1" "frame A (db w) (db w1)" "fresh_hashes d0 (trace w1)" by auto
    from safe_atD [OF step [OF 1 [unfolded Ok] s] 2 fresh] s(2) show ?thesis
      by (auto intro: frame_trans)
  qed (use run 1 safe_atD [OF m(1) 1] fresh in \<open>auto simp: bindE_def\<close>)
qed

lemma safe_catch:
  assumes m: "safe_at d0 A m w" "keeps outer m" "\<not> intx w" and f: "\<And>x. keeps outer (f x)"
    and step: "\<And>x w1. Steady d0 w1 \<Longrightarrow> safe_at d0 A (f x) w1"
  shows "safe_at d0 A (catchE m f) w"
proof (rule safe_atI)
  fix r w'
  assume run: "catchE m f w = (r, w')" and fresh: "fresh_hashes d0 (trace w')"
  obtain r1 w1 where 1: "m w = (r1, w1)" by (cases "m w")
  have nt: "\<not> intx w1" using keepsD [OF m(2) 1] m(3) by (simp add: outer_def)
  show "Sound d0 w' \<and> (\<not> is_panic r \<longrightarrow> Steady d0 w' \<and> frame A (db w) (db w'))"
  proof (cases "is_panic r1")
    case False
    with run 1 obtain x where 2: "f x w1 = (r, w')" by (cases r1) (auto simp: catchE_def)
    from outer_fresh [OF f 2 nt fresh] safe_atD [OF m(1) 1] False
    have s: "Steady d0 w1" "frame A (db w) (db w1)" by auto
    from safe_atD [OF step [OF s(1)] 2 fresh] s(2) show ?thesis by (auto intro: frame_trans)
  next
    case True
    with run 1 safe_atD [OF m(1) 1] fresh show ?thesis by (cases r1) (auto simp: catchE_def)
  qed
qed

text \<open>Operations that only read, or set gauges, timers and triggers.\<close>

definition silent :: "world \<Rightarrow> world \<Rightarrow> bool" where
  "silent w w' \<longleftrightarrow> db w' = db w \<and> trace w' = trace w \<and> intx w' = intx w"

interpretation silent: step_relation silent
  by unfold_locales (auto simp: silent_def)

lemma silent_basic [keeps_intros]:
  "keeps silent (sql_query E g)" "keeps silent (ask q)"
  by (rule keepsI, auto simp: sql_query_def ask_def silent_def split: outcome.splits sum.splits)+

lemma silent_modifyE [keeps_intros]:
  "(\<And>w. db (f w) = db w) \<Longrightarrow> (\<And>w. trace (f w) = trace w) \<Longrightarrow> (\<And>w. intx (f w) = intx w) \<Longrightarrow>
     keeps silent (modifyE f)"
  by (rule keepsI) (auto simp: modifyE_def silent_def)

lemma silent_reads [keeps_intros]:
  "keeps silent (GetAccountByAddress E a)" "keeps silent (GetPendingTransactions E)"
  "keeps silent (GetTransactionByID E i)"
  unfolding GetAccountByAddress_def GetPendingTransactions_def GetTransactionByID_def
    query_many_def query_one_def by (intro keeps_intros)+

lemma silent_triggers [keeps_intros]:
  "keeps silent SendNotifications" "keeps silent schedulePendingTxUpdate"
  "keeps silent decManualConfirmationCount"
  unfolding SendNotifications_def schedulePendingTxUpdate_def decManualConfirmationCount_def
  by (intro keeps_intros; simp)+

lemma silent_Steady: "silent w w' \<Longrightarrow> Steady d0 w \<Longrightarrow> Steady d0 w'"
  by (simp add: silent_def Steady_def Sound_def)

lemma safe_silent: "keeps silent m \<Longrightarrow> Steady d0 w \<Longrightarrow> safe_at d0 A m w"
  by (auto simp: safe_at_def dest!: keepsD intro: silent_Steady Steady_Sound simp: silent_def)

lemma safe_bind_silent:
  assumes "keeps silent m" "Steady d0 w" "\<And>x. keeps outer (f x)" "keeps outer m"
    and "\<And>x w1. m w = (Ok x, w1) \<Longrightarrow> Steady d0 w1 \<Longrightarrow> db w1 = db w \<Longrightarrow> safe_at d0 A (f x) w1"
  shows "safe_at d0 A (bindE m f) w"
proof (rule safe_bind)
  fix x w1
  assume "m w = (Ok x, w1)" "Steady d0 w1"
  with assms(1,5) show "safe_at d0 A (f x) w1" by (auto dest: keepsD simp: silent_def)
qed (use assms in \<open>auto intro: safe_silent simp: Steady_def\<close>)

subsection \<open>Commits\<close>

lemma Steady_commit:
  assumes "Steady d0 w" "advance A (db w) d" "db w' = d" "trace w' = EffCommit d # trace w" "\<not> intx w'"
  shows "Steady d0 w'"
  using assms by (auto simp: Steady_def Sound_def advance_def safe_now_def)

lemma safe_transact:
  assumes "Steady d0 w" and "keeps calm f"
    and "\<And>v x v'. db v = db w \<Longrightarrow> f v = (Ok x, v') \<Longrightarrow> advance A (db w) (db v')"
  shows "safe_at d0 A (transact E f) w"
proof (rule safe_atI)
  fix r w'
  assume run: "transact E f w = (r, w')"
  have quiet: "\<And>v r v'. f v = (r, v') \<Longrightarrow> intx v \<Longrightarrow> trace v' = trace v"
    using keepsD [OF assms(2)] calm_intx by blast
  from assms(1) have "\<not> intx w" by (simp add: Steady_def)
  with run have "Steady d0 w' \<and> frame A (db w) (db w')"
  proof (rule transact_cases)
    assume "db w' = db w" "trace w' = trace w" "\<not> intx w'"
    with assms(1) show ?thesis by (simp add: Steady_def Sound_def)
  next
    fix x v
    assume *: "f ((tick w)\<lparr>intx := True\<rparr>) = (Ok x, v)" "db w' = db v"
      "trace w' = EffCommit (db v) # trace w" "\<not> intx w'"
    from assms(3) [OF _ *(1)] have a: "advance A (db w) (db v)" by simp
    with * Steady_commit [OF assms(1) a] show ?thesis by (auto simp: advance_def)
  qed (use quiet in blast)
  then show "Sound d0 w' \<and> (\<not> is_panic r \<longrightarrow> Steady d0 w' \<and> frame A (db w) (db w'))"
    by (simp add: Steady_Sound)
qed

text \<open>A statement outside a transaction commits by itself.\<close>

lemma safe_SetMeta: 
  assumes "Steady d0 w"
  shows "safe_at d0 A (SetMeta E k v) w"
proof (rule safe_atI)
  fix r w'
  assume run: "SetMeta E k v w = (r, w')"
  let ?d = "(db w)\<lparr>metadata_t := (metadata_t (db w))(k \<mapsto> v)\<rparr>"
  have adv: "advance A (db w) ?d"
    using assms by (intro advance_view) (auto simp: Steady_def core_def ids_def)
  have nt: "\<not> intx w" using assms by (simp add: Steady_def)
  from run have "w' = tick w \<or> w' = persist ?d (tick w)"
    by (auto simp: SetMeta_def sql_exec_def split: outcome.splits)
  then have "Steady d0 w' \<and> frame A (db w) (db w')"
  proof
    assume "w' = tick w"
    with assms show ?thesis by (simp add: Steady_def Sound_def)
  next
    assume "w' = persist ?d (tick w)"
    with nt Steady_commit [OF assms adv, of w'] adv show ?thesis
      by (simp add: trace_persist advance_def)
  qed
  then show "Sound d0 w' \<and> (\<not> is_panic r \<longrightarrow> Steady d0 w' \<and> frame A (db w) (db w'))"
    by (simp add: Steady_Sound)
qed

subsection \<open>Storing the result of a payment\<close>

text \<open>The retry loop keeps what every attempt keeps.\<close>

lemma persistWithRetry_rule:
  assumes attempt: "\<And>m w r m' w'. K m w \<Longrightarrow> f m w = (r, m', w') \<Longrightarrow>
      (r = Ok () \<longrightarrow> Q w') \<and> (\<forall>e. r = Error e \<longrightarrow> K m' w') \<and> (\<forall>p. r = Panic p \<longrightarrow> S w')"
    and K_S: "\<And>m w. K m w \<Longrightarrow> S w"
  shows "K m w \<Longrightarrow> persistWithRetry n f m w = (r, m', w') \<Longrightarrow>
    (r = Ok () \<and> Q w') \<or> (is_panic r \<and> S w')"
proof (induction n arbitrary: m w)
  case 0
  obtain r1 m1 w1 where f: "f m w = (r1, m1, w1)" by (metis prod_cases3)
  from attempt [OF 0(1) f] 0(2) f K_S show ?case by (auto split: res.splits)
next
  case (Suc n)
  obtain r1 m1 w1 where f: "f m w = (r1, m1, w1)" by (metis prod_cases3)
  from attempt [OF Suc.prems(1) f] Suc.prems(2) f Suc.IH show ?case by (auto split: res.splits)
qed

text \<open>What the methods do to the structure behind the pointer.\<close>

definition same_tx :: "Transaction \<Rightarrow> Transaction \<Rightarrow> bool" where
  "same_tx t t' \<longleftrightarrow> ID t' = ID t \<and> Hash t' = Hash t \<and> Status t' = Status t"

lemma same_tx_refl [simp]: "same_tx t t" by (simp add: same_tx_def)

lemma same_tx_trans: "same_tx a b \<Longrightarrow> same_tx b c \<Longrightarrow> same_tx a c" by (simp add: same_tx_def)

lemma StoreTransaction_mem:
  "StoreTransaction E tx w = (r, tx', w') \<Longrightarrow> ID tx \<noteq> uuid_Nil \<Longrightarrow> tx' = tx"
  by (auto simp: StoreTransaction_def Let_def split: prod.splits res.splits option.splits if_splits)

lemma notify_loop_mem: "notify_loop E W is tx w = (r, tx', w') \<Longrightarrow> same_tx tx tx'"
proof (induction "is" arbitrary: tx w)
  case (Cons i "is")
  obtain r1 t1 w1 where s: "notify_step E W i tx w = (r1, t1, w1)" by (metis prod_cases3)
  then have "same_tx tx t1"
    by (auto simp: notify_step_def updateReportedConfirmations_def same_tx_def
        split: res.splits prod.splits)
  with Cons s show ?case by (auto split: res.splits intro: same_tx_trans)
qed simp

lemma notifyTransaction_mem: "notifyTransaction E W tx w = (r, tx', w') \<Longrightarrow> same_tx tx tx'"
  by (simp add: notifyTransaction_def Let_def notify_loop_mem)

lemma persist_success_mem:
  assumes "persist_success E W tx w = (r, tx', w')" and "ID tx \<noteq> uuid_Nil"
  shows "same_tx tx tx'"
proof -
  obtain r1 t1 w1 where 1: "StoreTransaction E tx w = (r1, t1, w1)" by (metis prod_cases3)
  have t1: "t1 = tx" by (rule StoreTransaction_mem [OF 1 assms(2)])
  obtain r2 t2 w2 where 2: "(if \<not> ColdStorage tx then notifyTransaction E W tx w1 else (Ok (), tx, w1)) = (r2, t2, w2)"
    by (metis prod_cases3)
  then have "same_tx tx t2" by (auto split: if_splits dest: notifyTransaction_mem)
  with assms 1 2 t1 show ?thesis
    by (auto simp: persist_success_def bindE_def onMem_def onWorld_def split: res.splits prod.splits if_splits)
qed

lemma MakeTransactIfAvailable_mem:
  assumes "MakeTransactIfAvailable E f m w = (r, m', w')"
    and "\<And>v r n v'. f m v = (r, n, v') \<Longrightarrow> P n" and "P m"
  shows "P m'"
  using assms by (auto simp: MakeTransactIfAvailable_def db_Begin_def db_Commit_def Let_def
      split: outcome.splits prod.splits res.splits)

lemma onMem_app: "onMem f (m, s) = f m s"
  by (simp add: onMem_def)

lemma onWorld_Ok: "onWorld g (m, s) = (Ok x, m', s') \<longleftrightarrow> m' = m \<and> g s = (Ok x, s')"
  by (auto simp: onWorld_def split: prod.splits)

lemma persist_success_Ok:
  assumes "persist_success E W tx w = (Ok x, tx', w')" and "good (db w)" and "uuid_ok E"
    and "ID tx \<noteq> uuid_Nil" and "own_hash (db w) tx" and "Status tx = NewTransaction"
  shows "advance {ID tx} (db w) (db w') \<and> settled (db w') (ID tx) \<and> own_hash (db w') tx"
proof -
  from assms(1) obtain st t1 w1 t2 w2 where 1: "StoreTransaction E tx w = (Ok st, t1, w1)" and
    2: "(if \<not> ColdStorage t1 then notifyTransaction E W t1 w1 else (Ok (), t1, w1)) = (Ok (), t2, w2)" and
    3: "ClearWallet E w2 = (Ok x, w')"
    by (auto simp: persist_success_def bindE_is_Ok onMem_app onWorld_Ok)
  have a: "advance {ID tx} (db w) (db w1) \<and> settled (db w1) (ID tx) \<and> own_hash (db w1) tx"
    using StoreTransaction_own_advance [OF 1 assms(2-5)] assms(5,6) by (simp add: pending_status_def)
  from 2 have "same_view w1 w2"
    by (auto split: if_splits intro: same_view.refl keeps3D [OF same_view.keeps_notifyTransaction])
  moreover from 3 have "core (db w') = core (db w2)" "ids (db w') = ids (db w2)"
    by (auto simp: ClearWallet_def SetMeta_def core_def ids_def dest!: sql_exec_Ok)
  ultimately have v: "core (db w') = core (db w1)" "ids (db w') = ids (db w1)"
    by (auto simp: same_view_def)
  from a have "advance {ID tx} (db w1) (db w')" by (intro advance_view v) (simp add: advance_def)
  with a v show ?thesis by (auto simp: settled_def own_hash_def intro: advance_trans)
qed

text \<open>The state in which the node has accepted the payment \<open>i\<close> and its result is being stored.\<close>

definition storing :: "database \<Rightarrow> uuid \<Rightarrow> database \<Rightarrow> Transaction \<Rightarrow> world \<Rightarrow> bool" where
  "storing d0 i d tx w \<longleftrightarrow> Critical d0 i w \<and> frame {i} d (db w) \<and> ID tx = i \<and> i \<noteq> uuid_Nil \<and>
     Status tx = NewTransaction \<and> own_hash (db w) tx"

lemma Critical_commit:
  assumes "Critical d0 i w" "advance {i} (db w) d" "settled d i"
    "db w' = d" "trace w' = EffCommit d # trace w" "\<not> intx w'"
  shows "Steady d0 w'" "Critical d0 i w'"
  using assms by (auto simp: Critical_def Steady_def Sound_def advance_def safe_now_def)

lemma storing_attempt:
  assumes K: "storing d0 i d tx w" and "uuid_ok E"
    and run: "MakeTransactIfAvailable E (persist_success E W) tx w = (r, tx', w')"
  shows "(r = Ok () \<longrightarrow> Steady d0 w' \<and> frame {i} d (db w')) \<and>
    (\<forall>e. r = Error e \<longrightarrow> storing d0 i d tx' w') \<and> (\<forall>p. r = Panic p \<longrightarrow> Sound d0 w')"
proof -
  have mem: "same_tx tx tx'"
    by (rule MakeTransactIfAvailable_mem [OF run])
      (use K in \<open>auto simp: storing_def intro: persist_success_mem\<close>)
  have nt: "\<not> intx w" using K by (simp add: storing_def Critical_def)
  have quiet: "\<And>v r n v'. persist_success E W tx v = (r, n, v') \<Longrightarrow> intx v \<Longrightarrow> trace v' = trace v"
    using keeps3D [OF calm.keeps_persist_success] calm_intx by blast
  from run nt show ?thesis
  proof (rule MakeTransactIfAvailable_cases)
    assume "db w' = db w" "trace w' = trace w" "\<not> intx w'" "\<not> is_ok r"
    with K mem show ?thesis
      by (auto simp: storing_def Critical_def Sound_def same_tx_def own_hash_def)
  next
    fix x v
    assume *: "persist_success E W tx ((tick w)\<lparr>intx := True\<rparr>) = (Ok x, tx', v)" "db w' = db v"
      "trace w' = EffCommit (db v) # trace w" "\<not> intx w'"
    have a: "advance {i} (db w) (db v)" "settled (db v) i" "own_hash (db v) tx"
      using persist_success_Ok [OF *(1)] K assms(2) by (auto simp: storing_def Critical_def)
    have c: "Critical d0 i w" using K by (simp add: storing_def)
    note st = Critical_commit [OF c a(1,2) *(2,3,4)]
    have "frame {i} d (db w')" using K a(1) *(2) by (auto simp: storing_def advance_def intro: frame_trans)
    with st a K mem *(2) show ?thesis
      by (auto simp: storing_def same_tx_def own_hash_def Steady_Sound)
  qed (use quiet in blast)
qed

lemma handleWithdrawalSuccess_safe:
  assumes "storing d0 (ID tx) d (tx\<lparr>Status := NewTransaction, Hash := h\<rparr>) w" and "uuid_ok E"
    and "handleWithdrawalSuccess E W tx h w = (r, w')"
  shows "Sound d0 w' \<and> (\<not> is_panic r \<longrightarrow> Steady d0 w' \<and> frame {ID tx} d (db w'))"
proof -
  let ?f = "MakeTransactIfAvailable E (persist_success E W)"
  from assms(3) obtain m' where run:
    "persistWithRetry withdrawSaveRetries ?f (tx\<lparr>Status := NewTransaction, Hash := h\<rparr>) w = (r, m', w')"
    by (auto simp: handleWithdrawalSuccess_def persistWithdrawResultWithRetry_def dropArg_def
        split: prod.splits)
  have "(r = Ok () \<and> Steady d0 w' \<and> frame {ID tx} d (db w')) \<or> (is_panic r \<and> Sound d0 w')"
    using assms(1) run
  proof (rule persistWithRetry_rule [rotated 2])
    show "Sound d0 v" if "storing d0 (ID tx) d m v" for m v
      using that by (simp add: storing_def Critical_def)
  qed (rule storing_attempt [OF _ assms(2)])
  then show ?thesis by (auto simp: Steady_Sound)
qed

lemma persist_failure_Ok:
  assumes "persist_failure E b tx w = (Ok x, w')" and "good (db w)" and "uuid_ok E" and "unsent (db w) tx"
  shows "advance {ID tx} (db w) (db w') \<and> unsent (db w') tx"
proof -
  from assms(1) obtain u w1 where
    1: "(if b then updatePendingTxStatus E tx PendingTransaction else returnE ()) w = (Ok u, w1)" and
    2: "ClearWallet E w1 = (Ok x, w')"
    unfolding persist_failure_def bindE_is_Ok by blast
  have a: "advance {ID tx} (db w) (db w1) \<and> unsent (db w1) tx"
    using 1 assms updatePendingTxStatus_Ok [OF _ assms(2-4)]
    by (auto simp: returnE_def advance_refl pending_status_def split: if_splits)
  from 2 have v: "core (db w') = core (db w1)" "ids (db w') = ids (db w1)"
    by (auto simp: ClearWallet_def SetMeta_def core_def ids_def dest!: sql_exec_Ok)
  from a have "advance {ID tx} (db w1) (db w')" by (intro advance_view v) (simp add: advance_def)
  with a v show ?thesis by (auto simp: unsent_def settled_def intro: advance_trans)
qed

lemma persist_failure_attempt:
  assumes "Steady d0 w \<and> unsent (db w) tx \<and> frame {ID tx} d (db w)" and "uuid_ok E"
    and "transact E (persist_failure E b tx) w = (r, w')"
  shows "Steady d0 w' \<and> unsent (db w') tx \<and> frame {ID tx} d (db w')"
proof -
  have nt: "\<not> intx w" using assms(1) by (simp add: Steady_def)
  from assms(3) nt show ?thesis
  proof (rule transact_cases)
    assume "db w' = db w" "trace w' = trace w" "\<not> intx w'"
    with assms(1) show ?thesis by (simp add: Steady_def Sound_def)
  next
    fix x v
    assume *: "persist_failure E b tx ((tick w)\<lparr>intx := True\<rparr>) = (Ok x, v)" "db w' = db v"
      "trace w' = EffCommit (db v) # trace w" "\<not> intx w'"
    have a: "advance {ID tx} (db w) (db v) \<and> unsent (db v) tx"
      using persist_failure_Ok [OF *(1)] assms(1,2) by (simp add: Steady_def)
    then have "Steady d0 w'" using assms(1) *(2-4) by (auto intro: Steady_commit)
    with a assms(1) *(2) show ?thesis by (auto simp: advance_def intro: frame_trans)
  qed (use keepsD [OF calm.keeps_persist_failure] calm_intx in blast)
qed

lemma handleWithdrawalError_safe:
  assumes "Steady d0 w" and "unsent (db w) tx" and "uuid_ok E"
  shows "safe_at d0 {ID tx} (handleWithdrawalError E err tx) w"
proof (rule safe_atI)
  fix r w'
  assume run: "handleWithdrawalError E err tx w = (r, w')"
  let ?b = "isInsufficientFundsError err \<and> \<not> ColdStorage tx"
  let ?f = "\<lambda>m w. case transact E (persist_failure E ?b tx) w of (r, w') \<Rightarrow> (r, m, w')"
  let ?K = "\<lambda>w'. Steady d0 w' \<and> unsent (db w') tx \<and> frame {ID tx} (db w) (db w')"
  obtain r1 m1 w1 where loop: "persistWithRetry withdrawSaveRetries ?f () w = (r1, m1, w1)"
    by (metis prod_cases3)
  have att: "?K v'" if "?K v" "?f m v = (q, m', v')" for m v q m' v'
  proof (rule persist_failure_attempt [OF that(1) assms(3)])
    show "transact E (persist_failure E ?b tx) v = (q, v')" using that(2) by (simp split: prod.splits)
  qed
  have "(r1 = Ok () \<and> ?K w1) \<or> (is_panic r1 \<and> Sound d0 w1)"
  proof (rule persistWithRetry_rule [where K = "\<lambda>_. ?K", OF _ _ _ loop])
    show "?K w" using assms(1,2) by simp
    show "Sound d0 v" if "?K v" for v using that Steady_Sound by blast
    show "(q = Ok () \<longrightarrow> ?K v') \<and> (\<forall>e. q = Error e \<longrightarrow> ?K v') \<and> (\<forall>p. q = Panic p \<longrightarrow> Sound d0 v')"
      if "?K v" "?f m v = (q, m', v')" for m v q m' v'
      using att [OF that] Steady_Sound by blast
  qed
  moreover from run loop have "w' = w1" "is_panic r1 \<Longrightarrow> is_panic r"
    by (auto simp: handleWithdrawalError_def persistWithdrawResultWithRetry_def dropArg_def bindE_def
        Let_def go_simps split: prod.splits res.splits if_splits elim: is_panic.elims)
  ultimately show "Sound d0 w' \<and> (\<not> is_panic r \<longrightarrow> Steady d0 w' \<and> frame {ID tx} (db w) (db w'))"
    by (auto simp: Steady_Sound)
qed

subsection \<open>Sending\<close>

lemma sendMoney_result:
  "sendMoney E tx w = (Ok r, w1) \<Longrightarrow>
     db w1 = db w \<and> intx w1 = intx w \<and>
     trace w1 = EffSend (ID tx) (Address tx) (Amount tx) (Fee tx) r # trace w"
  by (auto simp: sendMoney_def Let_def)

lemma handleWithdrawalSuccess_safe_at:
  assumes "Steady d0 w" "locked (db w)" "unsent (db w) tx" "uuid_ok E"
    and sent: "sendMoney E tx w = (Ok (Inr h), w1)"
  shows "safe_at d0 {ID tx} (handleWithdrawalSuccess E W tx h) w1"
proof (rule safe_atI)
  fix r w'
  assume run: "handleWithdrawalSuccess E W tx h w1 = (r, w')" and fresh: "fresh_hashes d0 (trace w')"
  note w1 = sendMoney_result [OF sent]
  have nt: "\<not> intx w1" using w1 assms(1) by (simp add: Steady_def)
  from outer_fresh [OF outer.keeps_handleWithdrawalSuccess run nt fresh] w1 assms(1)
  have "h \<notin> r_hash ` set (transactions_t (db w))" by (simp add: Steady_def)
  then have "own_hash (db w1) (tx\<lparr>Status := NewTransaction, Hash := h\<rparr>)"
    using w1 by (auto simp: own_hash_def dest!: core_SomeD)
  moreover have "ID tx \<notin> set (paid (trace w))" using assms(1,3) by (auto simp: Steady_def unsent_def)
  then have "Critical d0 (ID tx) w1"
    using assms(1-3) w1 by (auto simp: Critical_def Steady_def Sound_def safe_now_def unsent_def)
  ultimately have "storing d0 (ID tx) (db w1) (tx\<lparr>Status := NewTransaction, Hash := h\<rparr>) w1"
    using assms(3) by (simp add: storing_def unsent_def)
  from handleWithdrawalSuccess_safe [OF this assms(4) run]
  show "Sound d0 w' \<and> (\<not> is_panic r \<longrightarrow> Steady d0 w' \<and> frame {ID tx} (db w1) (db w'))" .
qed

lemma handleWithdrawalError_safe_at:
  assumes "Steady d0 w" "unsent (db w) tx" "uuid_ok E"
    and sent: "sendMoney E tx w = (Ok (Inl e), w1)"
  shows "safe_at d0 {ID tx} (handleWithdrawalError E e tx) w1"
proof (rule handleWithdrawalError_safe)
  note w1 = sendMoney_result [OF sent]
  from assms(1,2) w1 show "Steady d0 w1"
    by (auto simp: Steady_def Sound_def safe_now_def unsent_def)
  from assms(2) w1 show "unsent (db w1) tx" by simp
qed (rule assms(3))

lemma transact_LockWallet:
  assumes "transact E (LockWallet E (JObj ms)) w = (Ok x, w1)" "\<not> intx w"
  shows "locked (db w1) \<and> core (db w1) = core (db w)"
  using assms
proof (rule transact_cases)
  fix y v
  assume "LockWallet E (JObj ms) ((tick w)\<lparr>intx := True\<rparr>) = (Ok y, v)" "db w1 = db v"
  then show ?thesis
    by (auto simp: LockWallet_def SetMeta_def locked_def core_def dest!: sql_exec_Ok)
next
  show "trace v' = trace v" if "LockWallet E (JObj ms) v = (r, v')" "intx v" for v r v'
    using keepsD [OF calm.keeps_meta_writes(3) that(1)] that(2) calm_intx by blast
qed simp

lemma internalWithdraw_safe:
  assumes "Steady d0 w" "unsent (db w) tx" "uuid_ok E"
  shows "safe_at d0 {ID tx} (internalWithdrawBetweenOurAccounts E W tx acc) w"
proof -
  define tx0 where "tx0 = (if FeeTypeOf tx \<noteq> FixedFee then tx\<lparr>Fee := 0\<rparr> else tx)"
  have tx0: "ID tx0 = ID tx" "unsent (db w) tx0" using assms(2) by (auto simp: tx0_def unsent_def)
  have "safe_at d0 {ID tx} (transact E (internal_transfer E W acc tx0)) w"
  proof (rule safe_transact [OF assms(1) calm.keeps_internal_transfer])
    fix v x v'
    assume "db v = db w" "internal_transfer E W acc tx0 v = (Ok x, v')"
    with internal_transfer_advance [of E W acc tx0 v x v'] tx0 assms show "advance {ID tx} (db w) (db v')"
      by (simp add: Steady_def)
  qed
  moreover have "\<not> intx w" using assms(1) by (simp add: Steady_def)
  ultimately have "safe_at d0 {ID tx} (bindE (transact E (internal_transfer E W acc tx0))
      (\<lambda>_. schedulePendingTxUpdate)) w"
    by (rule safe_bind [OF _ outer_transact [OF calm.keeps_internal_transfer]])
      (auto intro: safe_silent silent_triggers outer.keeps_triggers)
  with assms(1) show ?thesis
    unfolding internalWithdrawBetweenOurAccounts_def tx0_def [symmetric] Let_def
    by (auto intro: safe_intros)
qed

lemma sendWithdrawal_safe:
  assumes "Steady d0 w" "unsent (db w) tx" "uuid_ok E"
  shows "safe_at d0 {ID tx} (sendWithdrawal E W tx u) w"
  unfolding sendWithdrawal_def
proof (rule safe_bind_silent)
  fix acc w1
  assume s1: "Steady d0 w1" and d1: "db w1 = db w"
  let ?rest = "\<lambda>_. bindE SendNotifications (\<lambda>_. if u then schedulePendingTxUpdate else returnE ())"
  let ?handle = "\<lambda>sent. case sent of Inl err \<Rightarrow> handleWithdrawalError E err tx
      | Inr txHash \<Rightarrow> handleWithdrawalSuccess E W tx txHash"
  have rest: "safe_at d0 {ID tx} (?rest x) v" if "Steady d0 v" for x :: unit and v
    using that by (intro safe_silent keeps_intros)
  have send: "safe_at d0 {ID tx} (bindE (sendMoney E tx) (\<lambda>sent. bindE (?handle sent) ?rest)) w2"
    if s2: "Steady d0 w2" and l: "locked (db w2)" and u2: "unsent (db w2) tx" for w2
  proof -
    obtain sent w3 where sm: "sendMoney E tx w2 = (Ok sent, w3)" by (auto simp: sendMoney_def Let_def)
    have "safe_at d0 {ID tx} (?handle sent) w3"
      using handleWithdrawalSuccess_safe_at [OF s2 l u2 assms(3)]
        handleWithdrawalError_safe_at [OF s2 u2 assms(3)] sm by (cases sent) auto
    moreover have "\<not> intx w3" "db w3 = db w2" using sendMoney_result [OF sm] s2 by (auto simp: Steady_def)
    ultimately have "safe_at d0 {ID tx} (bindE (?handle sent) ?rest) w3"
      by (intro safe_bind rest keeps_intros)
    with sm \<open>db w3 = db w2\<close> show ?thesis by (simp add: safe_at_def bindE_def)
  qed
  have lock: "safe_at d0 {ID tx} (transact E (LockWallet E (withdraw_operation (e_lib E) tx))) w1"
  proof (rule safe_transact [OF s1 calm.keeps_meta_writes(3)])
    fix v x v'
    assume d: "db v = db w1" and run: "LockWallet E (withdraw_operation (e_lib E) tx) v = (Ok x, v')"
    from s1 d have "good (db v)" by (simp add: Steady_def)
    with advance_SetMeta [OF run [unfolded LockWallet_def]] d show "advance {ID tx} (db w1) (db v')" by simp
  qed
  show "safe_at d0 {ID tx} (case acc of Some account \<Rightarrow> internalWithdrawBetweenOurAccounts E W tx account
      | None \<Rightarrow> if FeeTypeOf tx \<noteq> PerKBRateFee \<and> FeeTypeOf tx \<noteq> FixedFee
          then failE (GoError ''Fee type not supported: '')
          else bindE (transact E (LockWallet E (withdraw_operation (e_lib E) tx))) (\<lambda>_.
               bindE (sendMoney E tx) (\<lambda>sent. bindE (?handle sent) ?rest))) w1"
  proof (cases acc)
    case (Some account)
    with internalWithdraw_safe [OF s1 _ assms(3)] d1 assms(2) show ?thesis by simp
  next
    case None
    have "safe_at d0 {ID tx} (bindE (transact E (LockWallet E (withdraw_operation (e_lib E) tx))) (\<lambda>_.
        bindE (sendMoney E tx) (\<lambda>sent. bindE (?handle sent) ?rest))) w1"
    proof (rule safe_bind [OF lock])
      fix x w2
      assume l: "transact E (LockWallet E (withdraw_operation (e_lib E) tx)) w1 = (Ok x, w2)" and s2: "Steady d0 w2"
      from transact_LockWallet [OF l [unfolded withdraw_operation_def]] s1 d1 assms(2) have "locked (db w2)" "unsent (db w2) tx"
        by (auto simp: Steady_def unsent_def settled_def)
      with s2 show "safe_at d0 {ID tx} (bindE (sendMoney E tx) (\<lambda>sent. bindE (?handle sent) ?rest)) w2"
        by (rule send)
    qed (use s1 in \<open>auto intro!: keeps_intros simp: Steady_def\<close>)
    with None s1 show ?thesis by (auto intro: safe_intros)
  qed
qed (use assms in \<open>auto intro!: keeps_intros\<close>)

subsection \<open>Pending withdrawals\<close>

text \<open>\<open>sort.Slice\<close> permutes the slice and orders it by amount.\<close>

definition sort_ok :: "env \<Rightarrow> bool" where
  "sort_ok E \<longleftrightarrow> (\<forall>txs. mset (e_sortByAmount E txs) = mset txs \<and>
     sorted (map (unat \<circ> Amount) (e_sortByAmount E txs)))"

lemma backlog_perm: "backlog d txs \<Longrightarrow> mset txs' = mset txs \<Longrightarrow> backlog d txs'"
  unfolding backlog_def by (metis mset_eq_setD mset_eq_imp_distinct_iff mset_map)

lemma GetPendingTransactions_backlog:
  assumes "GetPendingTransactions E w = (Ok txs, w')" and "good (db w)"
  shows "backlog (db w) txs"
proof -
  let ?P = "\<lambda>r. r_status r = Status_String PendingTransaction \<or>
      r_status r = Status_String PendingColdStorageTransaction"
  from query_many_Ok [OF assms(1) [unfolded GetPendingTransactions_def]]
  have dec: "decode_rows (filter ?P (transactions_t (db w))) = Inr txs" by simp
  have "distinct (map ID txs)"
    using assms(2) unfolding decode_rows_ids [OF dec] good_def pk_def ids_def
    by (auto simp: distinct_map_filter)
  moreover have "unsent (db w) tx \<and> waiting (db w) (ID tx)" if "tx \<in> set txs" for tx
  proof -
    from decode_rows_set [OF dec that] obtain r where r: "r \<in> set (transactions_t (db w))" "?P r"
      "transactionFromDatabaseRow r = Inr tx" by auto
    then have "Status tx = PendingTransaction \<or> Status tx = PendingColdStorageTransaction"
      using transactionFromDatabaseRow_ID [OF r(3)] by (auto simp: Status_String_inject)
    then have "pending_status (Status tx)" by (auto simp: pending_status_def)
    from pending_row_unsent [OF assms(2) r(1,3) this] show ?thesis by auto
  qed
  ultimately show ?thesis by (simp add: backlog_def)
qed

lemma send_fitting_safe:
  "Steady d0 w \<Longrightarrow> backlog (db w) txs \<Longrightarrow> uuid_ok E \<Longrightarrow> send_fitting E W b txs w = (r, w') \<Longrightarrow>
     fresh_hashes d0 (trace w') \<Longrightarrow>
     Sound d0 w' \<and> (\<not> is_panic r \<longrightarrow> Steady d0 w') \<and>
     (\<forall>c rest. r = Ok (c, rest) \<longrightarrow> backlog (db w') rest)"
proof (induction txs arbitrary: b w)
  case (Cons tx txs)
  from backlog_Cons [OF Cons.prems(2)] have tx: "unsent (db w) tx" "ID tx \<notin> ID ` set txs"
    "backlog (db w) txs" by auto
  show ?case
  proof (cases "0 \<le> sint (b - Amount tx)")
    case True
    obtain r1 w1 where 1: "sendWithdrawal E W tx False w = (r1, w1)" by (cases "sendWithdrawal E W tx False w")
    note s1 = safe_atD [OF sendWithdrawal_safe [OF Cons.prems(1) tx(1) Cons.prems(3)] 1]
    show ?thesis
    proof (cases r1)
      case (Ok x)
      with True 1 Cons.prems(4) have 2: "send_fitting E W (b - Amount tx) txs w1 = (r, w')"
        by (simp add: bindE_def)
      have nt: "\<not> intx w1" using keepsD [OF outer.keeps_sendWithdrawal 1] Cons.prems(1)
        by (simp add: outer_def Steady_def)
      have "Steady d0 w1" "frame {ID tx} (db w) (db w1)"
        using s1 outer_fresh [OF outer.keeps_send_fitting 2 nt Cons.prems(5)] Ok by auto
      moreover from this(2) tx have "backlog (db w1) txs" by (auto intro: backlog_frame)
      ultimately show ?thesis using Cons.IH [OF _ _ Cons.prems(3) 2 Cons.prems(5)] by blast
    qed (use True 1 Cons.prems(4,5) s1 in \<open>auto simp: bindE_def\<close>)
  next
    case False
    with Cons.prems show ?thesis by (auto simp: returnE_def Steady_Sound)
  qed
qed (auto simp: returnE_def Steady_Sound backlog_def)

lemma tryToUpdatePendingTxns_safe:
  assumes "Steady d0 w" "uuid_ok E" "sort_ok E"
  shows "safe_at d0 UNIV (tryToUpdatePendingTxns E W) w"
  unfolding tryToUpdatePendingTxns_def
proof (rule safe_bind_silent)
  fix txns w1
  assume get: "GetPendingTransactions E w = (Ok txns, w1)" and s1: "Steady d0 w1" and d1: "db w1 = db w"
  let ?fin = "\<lambda>(u :: uint64) (availableBalance, exceeding).
     if exceeding = [] then SetMoneyRequiredFromColdStorage E 0
     else transact E (mark_pending E availableBalance u exceeding)"
  have b: "backlog (db w1) (e_sortByAmount E txns)"
    using GetPendingTransactions_backlog [OF get] assms d1
    by (auto simp: Steady_def sort_ok_def intro: backlog_perm)
  show "safe_at d0 UNIV (bindE (ask (e_Balance E)) (\<lambda>(confBal, unconfBal).
      bindE (send_fitting E W confBal (e_sortByAmount E txns)) (?fin unconfBal))) w1"
  proof (rule safe_bind_silent)
    fix bal :: "uint64 \<times> uint64" and w2
    assume s2: "Steady d0 w2" and d2: "db w2 = db w1"
    obtain conf unconf where bal: "bal = (conf, unconf)" by (cases bal)
    have nt: "\<not> intx w2" using s2 by (simp add: Steady_def)
    have "safe_at d0 UNIV (bindE (send_fitting E W conf (e_sortByAmount E txns)) (?fin unconf)) w2"
    proof (rule safe_bind)
      show "safe_at d0 UNIV (send_fitting E W conf (e_sortByAmount E txns)) w2"
        using send_fitting_safe [OF s2 _ assms(2)] b d2
        by (auto simp: safe_at_def frame_def)
    next
      fix x w3
      assume run: "send_fitting E W conf (e_sortByAmount E txns) w2 = (Ok x, w3)"
        and s3: "Steady d0 w3" and fr: "fresh_hashes d0 (trace w3)"
      obtain c rest where x: "x = (c, rest)" by (cases x)
      have bl: "backlog (db w3) rest"
        using send_fitting_safe [OF s2 _ assms(2) run fr] b d2 x by simp
      have "safe_at d0 UNIV (transact E (mark_pending E c unconf rest)) w3"
      proof (rule safe_transact [OF s3 calm.keeps_mark_pending])
        fix v y v'
        assume "db v = db w3" "mark_pending E c unconf rest v = (Ok y, v')"
        with mark_pending_advance [of E c unconf rest v y v'] assms(2) s3 bl
        show "advance UNIV (db w3) (db v')" by (simp add: Steady_def)
      qed
      with x s3 show "safe_at d0 UNIV (?fin unconf x) w3"
        by (auto simp: SetMoneyRequiredFromColdStorage_def intro: safe_SetMeta)
    qed (use nt in \<open>auto intro!: keeps_intros\<close>)
    then show "safe_at d0 UNIV (case bal of (confBal, unconfBal) \<Rightarrow>
        bindE (send_fitting E W confBal (e_sortByAmount E txns)) (?fin unconfBal)) w2"
      by (simp add: bal)
  qed (use s1 in \<open>auto intro!: keeps_intros\<close>)
qed (use assms in \<open>auto intro!: keeps_intros\<close>)

lemma updatePendingTxns_safe [safe_intros]:
  assumes "Steady d0 w" "uuid_ok E" "sort_ok E"
  shows "safe_at d0 UNIV (updatePendingTxns E W) w"
  unfolding updatePendingTxns_def
proof (rule safe_catch [OF tryToUpdatePendingTxns_safe [OF assms]])
  fix x :: "go_error + unit" and w1
  assume "Steady d0 w1"
  then show "safe_at d0 UNIV (case x of Inl _ \<Rightarrow> modifyE (\<lambda>w. w\<lparr>timers := PendingUpdateTimer # timers w\<rparr>)
      | Inr _ \<Rightarrow> SendNotifications) w1"
    by (cases x) (auto intro!: safe_silent keeps_intros)
qed (use assms in \<open>auto intro!: keeps_intros simp: Steady_def\<close>)

subsection \<open>Requests\<close>

lemma GetTransactionByID_cases:
  assumes "GetTransactionByID E i w = (r, w')"
  shows "silent w w' \<and> (r = Error ErrNoRows \<longrightarrow> i \<notin> set (ids (db w))) \<and> (\<forall>j. r \<noteq> Error (ErrNoTxWithSuchID j))"
  using assms unfolding GetTransactionByID_def
proof (cases rule: query_one_cases)
  case (invalid e)
  with assms show ?thesis
    by (auto simp: GetTransactionByID_def query_one_def bindE_def sql_query_def go_simps silent_def
        first_row_def transactionFromDatabaseRow_def TransactionDirectionFromString_def
        TransactionStatusFromString_def
        split: outcome.splits sum.splits list.splits option.splits)
qed (auto simp: ids_conv silent_def)

lemma ensureTxIDIsFree_Ok:
  assumes "ensureTxIDIsFree E i w = (Ok x, w')"
  shows "i \<notin> set (ids (db w))"
proof -
  obtain r w1 where g: "GetTransactionByID E i w = (r, w1)" by (cases "GetTransactionByID E i w")
  from GetTransactionByID_cases [OF g] have n: "r = Error ErrNoRows \<Longrightarrow> i \<notin> set (ids (db w))"
    "\<And>j. r \<noteq> Error (ErrNoTxWithSuchID j)" by auto
  from assms g have "r = Error ErrNoRows \<or> (\<exists>j. r = Error (ErrNoTxWithSuchID j))"
    by (auto simp: ensureTxIDIsFree_def catchE_def go_simps split: res.splits go_error.splits)
  with n show ?thesis by auto
qed

lemma silent_ensureTxIDIsFree [keeps_intros]: "keeps silent (ensureTxIDIsFree E i)"
  unfolding ensureTxIDIsFree_def
  by (intro keeps_intros) (auto split: go_error.splits intro: keeps_intros)

lemma outer_silent: "keeps silent m \<Longrightarrow> keeps outer m"
  by (auto simp: keeps_def silent_def outer_def)

lemma holdWithdrawal_safe:
  assumes "Steady d0 w" "unsent (db w) tx" "uuid_ok E"
  shows "safe_at d0 {ID tx} (holdWithdrawalUntilConfirmed E tx) w"
  unfolding holdWithdrawalUntilConfirmed_def
proof (rule safe_bind)
  show "safe_at d0 {ID tx} (transact E (updatePendingTxStatus E tx PendingManualConfirmationTransaction)) w"
  proof (rule safe_transact [OF assms(1) calm.keeps_updatePendingTxStatus])
    fix v x v'
    assume "db v = db w" "updatePendingTxStatus E tx PendingManualConfirmationTransaction v = (Ok x, v')"
    with updatePendingTxStatus_advance [of E tx _ v x v'] assms show "advance {ID tx} (db w) (db v')"
      by (simp add: Steady_def)
  qed
  fix x w1
  assume "Steady d0 w1"
  then show "safe_at d0 {ID tx} (bindE (modifyE (\<lambda>w. w\<lparr>txnsWaitingManualConfirmationCount :=
      txnsWaitingManualConfirmationCount w + 1\<rparr>)) (\<lambda>_. SendNotifications)) w1"
    by (intro safe_silent keeps_intros) auto
qed (use assms in \<open>auto intro!: keeps_intros simp: Steady_def\<close>)

lemma wallet_withdraw_safe:
  assumes "Steady d0 w" "uuid_ok E" "ID tx \<noteq> uuid_Nil" "Hash tx = []"
  shows "safe_at d0 {ID tx} (wallet_withdraw E W tx hold) w"
  unfolding wallet_withdraw_def
proof (rule safe_bind_silent)
  fix x w1
  assume run: "ensureTxIDIsFree E (ID tx) w = (Ok x, w1)" and s1: "Steady d0 w1" and d1: "db w1 = db w"
  from ensureTxIDIsFree_Ok [OF run] have "core (db w) (ID tx) = None" by (metis domIff dom_core)
  with assms d1 have "unsent (db w1) tx" by (simp add: unsent_def settled_def)
  with s1 assms(2) show "safe_at d0 {ID tx} (if hold then holdWithdrawalUntilConfirmed E tx
      else sendWithdrawal E W tx True) w1"
    by (simp add: holdWithdrawal_safe sendWithdrawal_safe)
qed (use assms in \<open>auto intro!: keeps_intros outer_silent\<close>)

lemma cancelPendingTx_safe:
  assumes "Steady d0 w" "uuid_ok E" "sort_ok E"
  shows "safe_at d0 UNIV (cancelPendingTx E W i) w"
  unfolding cancelPendingTx_def
proof (rule safe_bind)
  show "safe_at d0 UNIV (transact E (cancel_in_tx E i)) w"
  proof (rule safe_transact [OF assms(1) calm.keeps_cancel_in_tx])
    fix v x v'
    assume "db v = db w" "cancel_in_tx E i v = (Ok x, v')"
    with cancel_in_tx_advance [of E i v x v'] assms show "advance UNIV (db w) (db v')"
      by (auto simp: Steady_def intro: advance_mono)
  qed
  fix x w1
  assume s1: "Steady d0 w1"
  show "safe_at d0 UNIV (bindE decManualConfirmationCount (\<lambda>_.
      bindE (updatePendingTxns E W) (\<lambda>_. SendNotifications))) w1"
  proof (rule safe_bind_silent)
    fix y w2
    assume s2: "Steady d0 w2"
    show "safe_at d0 UNIV (bindE (updatePendingTxns E W) (\<lambda>_. SendNotifications)) w2"
      by (rule safe_bind)
        (use s2 assms in \<open>auto intro!: safe_intros keeps_intros safe_silent [OF silent_triggers(1)] simp: Steady_def\<close>)
  qed (use s1 in \<open>auto intro!: keeps_intros\<close>)
qed (use assms in \<open>auto intro!: keeps_intros simp: Steady_def\<close>)

lemma transact_GetTransactionByID:
  assumes "transact E (GetTransactionByID E i) w = (Ok tx, w1)" "\<not> intx w"
  shows "db w1 = db w \<and> (\<exists>r \<in> set (transactions_t (db w)). r_id r = i \<and> transactionFromDatabaseRow r = Inr tx)"
  using assms
proof (rule transact_cases)
  fix y v
  assume *: "GetTransactionByID E i ((tick w)\<lparr>intx := True\<rparr>) = (Ok y, v)" "db w1 = db v"
    "Ok tx = Ok y \<or> (\<exists>e. Ok tx = Error e)"
  from GetTransactionByID_Ok [OF *(1)] * show ?thesis by auto
next
  show "trace v' = trace v" if "GetTransactionByID E i v = (r, v')" "intx v" for v r v'
    using GetTransactionByID_cases [OF that(1)] by (simp add: silent_def)
qed simp

lemma confirmPendingTx_safe:
  assumes "Steady d0 w" "uuid_ok E"
  shows "safe_at d0 UNIV (confirmPendingTx E W i) w"
  unfolding confirmPendingTx_def
proof (rule safe_bind)
  show "safe_at d0 UNIV (transact E (GetTransactionByID E i)) w"
  proof (rule safe_transact [OF assms(1)])
    fix v x v'
    assume "db v = db w" "GetTransactionByID E i v = (Ok x, v')"
    with assms(1) show "advance UNIV (db w) (db v')"
      by (auto simp: Steady_def dest!: GetTransactionByID_Ok intro: advance_refl)
  qed (intro keeps_intros)
  fix tx w1
  assume run: "transact E (GetTransactionByID E i) w = (Ok tx, w1)" and s1: "Steady d0 w1"
  from transact_GetTransactionByID [OF run] assms(1) obtain r where
    r: "r \<in> set (transactions_t (db w1))" "transactionFromDatabaseRow r = Inr tx"
    by (auto simp: Steady_def)
  show "safe_at d0 UNIV (if Status tx \<noteq> PendingManualConfirmationTransaction
      then failE (GoError ''Tx is not pending manual confirmation'')
      else bindE (sendWithdrawal E W tx True) (\<lambda>_. decManualConfirmationCount)) w1"
  proof (cases "Status tx = PendingManualConfirmationTransaction")
    case True
    then have "pending_status (Status tx)" by (simp add: pending_status_def)
    with pending_row_unsent [OF _ r] s1 have "unsent (db w1) tx" by (simp add: Steady_def)
    from sendWithdrawal_safe [OF s1 this assms(2), of W True]
    have "safe_at d0 UNIV (sendWithdrawal E W tx True) w1" by (simp add: safe_at_def frame_def)
    then have "safe_at d0 UNIV (bindE (sendWithdrawal E W tx True) (\<lambda>_. decManualConfirmationCount)) w1"
      by (rule safe_bind) (use s1 in \<open>auto intro!: keeps_intros safe_silent [OF silent_triggers(3)] simp: Steady_def\<close>)
    with True show ?thesis by simp
  qed (use s1 in \<open>simp add: safe_fail\<close>)
qed (use assms in \<open>auto intro!: keeps_intros simp: Steady_def\<close>)

subsection \<open>Polls and the main loop\<close>

lemma after_poll_safe:
  assumes "Steady d0 w" "uuid_ok E" "sort_ok E"
  shows "safe_at d0 UNIV (after_poll E W r) w"
proof (cases r)
  case (Inr changed)
  have "safe_at d0 UNIV (bindE SendNotifications (\<lambda>_. if changed then updatePendingTxns E W else returnE ())) w"
    by (rule safe_bind_silent) (use assms in \<open>auto intro!: keeps_intros safe_intros\<close>)
  with Inr show ?thesis by (simp add: after_poll_def)
qed (use assms in \<open>simp add: after_poll_def safe_return\<close>)

lemma poll_safe:
  assumes "Steady d0 w" "uuid_ok E" "sort_ok E" "keeps calm body"
    and body: "\<And>v x v'. good (db v) \<Longrightarrow> body v = (Ok x, v') \<Longrightarrow> advance UNIV (db v) (db v')"
  shows "safe_at d0 UNIV (catchE (transact E body) (after_poll E W)) w"
proof (rule safe_catch)
  show "safe_at d0 UNIV (transact E body) w"
  proof (rule safe_transact [OF assms(1,4)])
    fix v x v'
    assume "db v = db w" "body v = (Ok x, v')"
    with body [of v x v'] assms(1) show "advance UNIV (db w) (db v')" by (simp add: Steady_def)
  qed
qed (use assms in \<open>auto intro!: keeps_intros outer_transact after_poll_safe simp: Steady_def\<close>)

lemma checkForWalletUpdates_safe:
  assumes "Steady d0 w" "uuid_ok E" "sort_ok E"
  shows "safe_at d0 UNIV (checkForWalletUpdates E W) w"
proof -
  have new: "safe_at d0 UNIV (checkForNewTransactions E W) v" if "Steady d0 v" for v
    unfolding checkForNewTransactions_def
    by (rule poll_safe) (use that assms in \<open>auto intro!: keeps_intros new_transactions_body_advance\<close>)
  have known: "safe_at d0 UNIV (checkForExistingTransactionUpdates E W) v" if "Steady d0 v" for v
    unfolding checkForExistingTransactionUpdates_def
    by (rule poll_safe) (use that assms in \<open>auto intro!: keeps_intros existing_transactions_body_advance\<close>)
  show ?thesis unfolding checkForWalletUpdates_def
    by (rule safe_bind) (use assms in \<open>auto intro!: new known keeps_intros simp: Steady_def\<close>)
qed

text \<open>The requests that \<open>Withdraw\<close> queues: the identifier is set and nothing is broadcast.\<close>

fun wakeup_ok :: "wakeup \<Rightarrow> bool" where
  "wakeup_ok (WithdrawQueued tx hold) \<longleftrightarrow> ID tx \<noteq> uuid_Nil \<and> Hash tx = []"
| "wakeup_ok _ \<longleftrightarrow> True"

lemma dispatch_safe:
  assumes "Steady d0 w" "uuid_ok E" "sort_ok E" "wakeup_ok wk"
  shows "safe_at d0 UNIV (dispatch E W wk) w"
proof (cases wk)
  case (WithdrawQueued tx h)
  with wallet_withdraw_safe [OF assms(1,2), of tx W h] assms(4) show ?thesis
    by (simp add: dispatch_def safe_at_def frame_def)
next
  case PendingTxUpdate
  have "safe_at d0 UNIV (bindE (modifyE (\<lambda>w. w\<lparr>pendingTxUpdateTrigger := tl (pendingTxUpdateTrigger w)\<rparr>))
      (\<lambda>_. updatePendingTxns E W)) w"
    by (rule safe_bind_silent) (use assms in \<open>auto intro!: keeps_intros safe_intros\<close>)
  with PendingTxUpdate show ?thesis by (simp add: dispatch_def)
next
  case ExternalTxNotification
  with assms(1) show ?thesis by (auto simp: dispatch_def intro!: safe_silent keeps_intros)
qed (use assms in \<open>auto simp: dispatch_def intro: safe_intros cancelPendingTx_safe confirmPendingTx_safe\<close>)

end
