(* ===== verification/SafeBroker.thy ===== *)
theory SafeBroker
  imports Broker SafeWallet
begin

text \<open>
  The HTTP callback and crashes. \<open>delivered\<close> lists the sequence numbers of the notifications
  that the client has acknowledged with status 200. The sender keeps the number of the last
  event it is done with in the database and sets a lock around each call; the invariant is
  of the same shape as that of the payments.
\<close>

subsection \<open>Definitions\<close>

fun delivered :: "effect list \<Rightarrow> int list" where
  "delivered [] = []"
| "delivered (EffPost seq None # t) = seq # delivered t"
| "delivered (_ # t) = delivered t"

definition http_locked :: "database \<Rightarrow> bool" where
  "http_locked d = (case metadata_t d ''http_callback_operation'' of None \<Rightarrow> False | Some v \<Rightarrow> v \<noteq> [])"

definition last_sent :: "database \<Rightarrow> go_error + int" where
  "last_sent d = Atoi (case metadata_t d ''last_http_sent_seq'' of None \<Rightarrow> ''0'' | Some v \<Rightarrow> v)"

definition sent_up_to :: "database \<Rightarrow> int \<Rightarrow> bool" where
  "sent_up_to d seq = (case last_sent d of Inl _ \<Rightarrow> False | Inr n \<Rightarrow> seq \<le> n)"

definition http_safe_now :: "database \<Rightarrow> effect list \<Rightarrow> bool" where
  "http_safe_now d0 t \<longleftrightarrow>
     (\<forall>seq \<in> set (delivered t). http_locked (durable d0 t) \<or> sent_up_to (durable d0 t) seq)"

fun http_crash_safe :: "database \<Rightarrow> effect list \<Rightarrow> bool" where
  "http_crash_safe d0 [] = True"
| "http_crash_safe d0 (e # t) \<longleftrightarrow> http_safe_now d0 (e # t) \<and> http_crash_safe d0 t"

text \<open>The number of the last event that was sent is readable in every committed state.\<close>

fun countable_at :: "effect \<Rightarrow> bool" where
  "countable_at (EffCommit d) = (case last_sent d of Inl _ \<Rightarrow> False | Inr _ \<Rightarrow> True)"
| "countable_at _ = True"

definition HSound :: "database \<Rightarrow> world \<Rightarrow> bool" where
  "HSound d0 w \<longleftrightarrow> http_crash_safe d0 (trace w) \<and> sorted_wrt (>) (delivered (trace w)) \<and>
     list_all countable_at (trace w)"

definition HSteady :: "database \<Rightarrow> int \<Rightarrow> world \<Rightarrow> bool" where
  "HSteady d0 n w \<longleftrightarrow> HSound d0 w \<and> \<not> intx w \<and> durable d0 (trace w) = db w \<and>
     last_sent (db w) = Inr n \<and> (\<forall>seq \<in> set (delivered (trace w)). seq \<le> n)"

text \<open>The notification \<open>seq\<close> has been sent and the result is being stored.\<close>

definition HStoring :: "database \<Rightarrow> int \<Rightarrow> world \<Rightarrow> bool" where
  "HStoring d0 seq w \<longleftrightarrow> HSound d0 w \<and> \<not> intx w \<and> durable d0 (trace w) = db w \<and>
     (\<exists>n. last_sent (db w) = Inr n \<and> (\<forall>s \<in> set (delivered (trace w)). s \<noteq> seq \<longrightarrow> s \<le> n) \<and> n \<le> seq \<and>
          (http_locked (db w) \<or> n = seq))"

definition int64_ok :: "int \<Rightarrow> bool" where
  "int64_ok n \<longleftrightarrow> - (2 ^ 63) \<le> n \<and> n < 2 ^ 63"

lemma HSteady_HSound: "HSteady d0 n w \<Longrightarrow> HSound d0 w"
  by (simp add: HSteady_def)

lemma HStoring_HSound: "HStoring d0 n w \<Longrightarrow> HSound d0 w"
  by (simp add: HStoring_def)

subsection \<open>Statements of the sender\<close>

definition set_meta :: "string \<Rightarrow> string \<Rightarrow> database \<Rightarrow> database" where
  "set_meta k v d = d\<lparr>metadata_t := (metadata_t d)(k \<mapsto> v)\<rparr>"

lemma SetMeta_Ok: "SetMeta E k v w = (Ok x, w') \<Longrightarrow> db w' = set_meta k v (db w)"
  by (auto simp: SetMeta_def set_meta_def dest!: sql_exec_Ok)

lemma meta_facts:
  "last_sent (set_meta ''http_callback_operation'' v d) = last_sent d"
  "http_locked (set_meta ''http_callback_operation'' v d) = (v \<noteq> [])"
  "http_locked (set_meta ''last_http_sent_seq'' v d) = http_locked d"
  "last_sent (set_meta ''last_http_sent_seq'' v d) = Atoi v"
  by (simp_all add: last_sent_def http_locked_def set_meta_def)

lemma Itoa_nonempty: "Itoa n \<noteq> []"
  by (simp add: Itoa_def formatBits_nonempty)

lemma last_sent_stored: "int64_ok n \<Longrightarrow> last_sent (set_meta ''last_http_sent_seq'' (Itoa n) d) = Inr n"
  by (simp add: meta_facts int64_ok_def Atoi_Itoa)

text \<open>A transaction whose body computes the database \<open>g\<close>: it is aborted or commits \<open>g\<close>.\<close>

lemma transact_computes:
  assumes "transact E f w = (r, w')" "\<not> intx w" "keeps calm f"
    and body: "\<And>v x v'. f v = (Ok x, v') \<Longrightarrow> db v' = g (db v)"
  shows "\<not> intx w' \<and>
    ((db w' = db w \<and> trace w' = trace w \<and> \<not> is_ok r) \<or>
     (db w' = g (db w) \<and> trace w' = EffCommit (g (db w)) # trace w \<and> \<not> is_panic r))"
  using assms(1,2)
proof (rule transact_cases)
  fix x v
  assume *: "f ((tick w)\<lparr>intx := True\<rparr>) = (Ok x, v)" "db w' = db v"
    "trace w' = EffCommit (db v) # trace w" "\<not> intx w'" "r = Ok x \<or> (\<exists>e. r = Error e)"
  from body [OF *(1)] * show ?thesis by auto
qed (use keepsD [OF assms(3)] calm_intx in \<open>blast, auto\<close>)

lemma calm_http [keeps_intros]:
  "keeps calm (LockHTTPCallback E n)" "keeps calm (ClearHTTPCallback E)" "keeps calm (store_sent E n)"
  unfolding LockHTTPCallback_def ClearHTTPCallback_def store_sent_def StoreLastHTTPSentSeq_def
    SetMeta_def by (intro keeps_intros calm_sql_exec)+

lemma store_sent_Ok:
  "store_sent E n w = (Ok x, w') \<Longrightarrow>
     db w' = set_meta ''http_callback_operation'' [] (set_meta ''last_http_sent_seq'' (Itoa n) (db w))"
  by (auto simp: store_sent_def bindE_is_Ok StoreLastHTTPSentSeq_def ClearHTTPCallback_def
      dest!: SetMeta_Ok)

lemma persistHTTP_rule:
  assumes "\<And>w r w'. K w \<Longrightarrow> f w = (r, w') \<Longrightarrow>
      (r = Ok () \<longrightarrow> Q w') \<and> (\<forall>e. r = Error e \<longrightarrow> K w') \<and> (\<forall>p. r = Panic p \<longrightarrow> S w')"
    and "\<And>w. K w \<Longrightarrow> S w" and "K w"
    and "persistHTTPCallbackSendResultWithRetry f w = (r, w')"
  shows "(r = Ok () \<and> Q w') \<or> (is_panic r \<and> S w')"
proof -
  from assms(4) obtain m' where
    loop: "persistWithRetry httpCBResultSaveRetries (\<lambda>m v. case f v of (r, v') \<Rightarrow> (r, m, v')) () w = (r, m', w')"
    by (auto simp: persistHTTPCallbackSendResultWithRetry_def dropArg_def split: prod.splits)
  show ?thesis
    by (rule persistWithRetry_rule [where K = "\<lambda>_. K", OF _ _ assms(3) loop])
      (use assms(1,2) in \<open>auto split: prod.splits\<close>)
qed

lemma HSteady_lock_change:
  assumes "HSteady d0 n w" "\<not> intx w'"
    and "(db w' = db w \<and> trace w' = trace w) \<or>
      (db w' = set_meta ''http_callback_operation'' v (db w) \<and> trace w' = EffCommit (db w') # trace w)"
  shows "HSteady d0 n w'"
  using assms by (auto simp: HSteady_def HSound_def http_safe_now_def sent_up_to_def meta_facts)

lemma transact_LockHTTPCallback:
  assumes "HSteady d0 n w" "transact E (LockHTTPCallback E seq) w = (r, w')"
  shows "HSteady d0 n w' \<and> (\<forall>x. r = Ok x \<longrightarrow> http_locked (db w'))"
proof -
  have nt: "\<not> intx w" using assms(1) by (simp add: HSteady_def)
  have "\<not> intx w' \<and> ((db w' = db w \<and> trace w' = trace w \<and> \<not> is_ok r) \<or>
      (db w' = set_meta ''http_callback_operation'' (Itoa seq) (db w) \<and>
       trace w' = EffCommit (set_meta ''http_callback_operation'' (Itoa seq) (db w)) # trace w \<and> \<not> is_panic r))"
    by (rule transact_computes [OF assms(2) nt calm_http(1)])
      (auto simp: LockHTTPCallback_def dest: SetMeta_Ok)
  with HSteady_lock_change [OF assms(1), of w' "Itoa seq"] show ?thesis
    by (auto simp: meta_facts Itoa_nonempty)
qed

lemma transact_ClearHTTPCallback:
  assumes "HSteady d0 n w" "transact E (ClearHTTPCallback E) w = (r, w')"
  shows "HSteady d0 n w'"
proof -
  have nt: "\<not> intx w" using assms(1) by (simp add: HSteady_def)
  have "\<not> intx w' \<and> ((db w' = db w \<and> trace w' = trace w \<and> \<not> is_ok r) \<or>
      (db w' = set_meta ''http_callback_operation'' [] (db w) \<and>
       trace w' = EffCommit (set_meta ''http_callback_operation'' [] (db w)) # trace w \<and> \<not> is_panic r))"
    by (rule transact_computes [OF assms(2) nt calm_http(2)])
      (auto simp: ClearHTTPCallback_def dest: SetMeta_Ok)
  with HSteady_lock_change [OF assms(1), of w' "[]"] show ?thesis by auto
qed

lemma transact_store_sent:
  assumes K: "HStoring d0 seq w" and run: "transact E (store_sent E seq) w = (r, w')" and i: "int64_ok seq"
  shows "HStoring d0 seq w' \<and> (r = Ok () \<longrightarrow> HSteady d0 seq w')"
proof -
  let ?d = "set_meta ''http_callback_operation'' [] (set_meta ''last_http_sent_seq'' (Itoa seq) (db w))"
  have nt: "\<not> intx w" using K by (simp add: HStoring_def)
  have "\<not> intx w' \<and> ((db w' = db w \<and> trace w' = trace w \<and> \<not> is_ok r) \<or>
      (db w' = ?d \<and> trace w' = EffCommit ?d # trace w \<and> \<not> is_panic r))"
    by (rule transact_computes [OF run nt calm_http(3)]) (rule store_sent_Ok)
  moreover have l: "last_sent ?d = Inr seq" by (simp add: meta_facts(1) last_sent_stored i)
  ultimately show ?thesis
  proof (elim conjE disjE)
    assume "\<not> intx w'" and d: "db w' = ?d" "trace w' = EffCommit ?d # trace w"
    have "s \<le> seq" if "s \<in> set (delivered (trace w))" for s
      using K that by (fastforce simp: HStoring_def)
    with K d l \<open>\<not> intx w'\<close> show ?thesis
      by (auto simp: HStoring_def HSteady_def HSound_def http_safe_now_def sent_up_to_def)
  qed (use K in \<open>auto simp: HStoring_def HSound_def\<close>)
qed

lemma persist_clear:
  assumes "HSteady d0 n w"
    and "persistHTTPCallbackSendResultWithRetry (transact E (ClearHTTPCallback E)) w = (r, w')"
  shows "(r = Ok () \<and> HSteady d0 n w') \<or> (is_panic r \<and> HSound d0 w')"
  by (rule persistHTTP_rule [where K = "HSteady d0 n", OF _ _ assms])
    (auto dest: transact_ClearHTTPCallback HSteady_HSound)

lemma persist_sent:
  assumes "int64_ok seq" "HStoring d0 seq w"
    and "persistHTTPCallbackSendResultWithRetry (transact E (store_sent E seq)) w = (r, w')"
  shows "(r = Ok () \<and> HSteady d0 seq w') \<or> (is_panic r \<and> HSound d0 w')"
  by (rule persistHTTP_rule [where K = "HStoring d0 seq", OF _ _ assms(2,3)])
    (use assms(1) in \<open>auto dest: transact_store_sent HStoring_HSound\<close>)

subsection \<open>The sender\<close>

lemma post_state:
  assumes "HSteady d0 n w" "http_locked (db w)" "n < ns_Seq ev"
    and "sendDataToHTTPCallback E ev w = (Ok failed, w')"
  shows "HStoring d0 (ns_Seq ev) w' \<and> (failed \<noteq> None \<longrightarrow> HSteady d0 n w')"
proof -
  from assms(4) have w': "db w' = db w" "intx w' = intx w" "trace w' = EffPost (ns_Seq ev) failed # trace w"
    by (auto elim!: sendData_cases)
  show ?thesis
  proof (cases failed)
    case None
    have "ns_Seq ev \<notin> set (delivered (trace w))" using assms(1,3) by (auto simp: HSteady_def)
    with None w' assms(1-3) show ?thesis
      by (auto simp: HStoring_def HSteady_def HSound_def http_safe_now_def)
  next
    case (Some e)
    with w' assms(1-3) show ?thesis
      by (auto simp: HStoring_def HSteady_def HSound_def http_safe_now_def)
  qed
qed

lemma handleEarly_HSteady: "HSteady d0 n w \<Longrightarrow> HSteady d0 n (handleEarlyErrorPreparingHTTPCallback w)"
  by (simp add: HSteady_def HSound_def handleEarlyErrorPreparingHTTPCallback_def)

lemma HSteady_timers: "HSteady d0 n w \<Longrightarrow> HSteady d0 n (w\<lparr>timers := ts\<rparr>)"
  by (simp add: HSteady_def HSound_def)

text \<open>The events handed to the sender: ordered, and all after the last one that was sent.\<close>

definition queue_ok :: "int \<Rightarrow> NotificationWithSeq list \<Rightarrow> bool" where
  "queue_ok n es \<longleftrightarrow> sorted_wrt (<) (map ns_Seq es) \<and> (\<forall>e \<in> set es. n < ns_Seq e \<and> int64_ok (ns_Seq e))"

lemma queue_ok_Cons:
  "queue_ok n (e # es) \<Longrightarrow> n < ns_Seq e \<and> int64_ok (ns_Seq e) \<and> queue_ok n es \<and> queue_ok (ns_Seq e) es"
  by (auto simp: queue_ok_def)

lemma send_event_safe:
  assumes H: "HSteady d0 n w" and q: "n < ns_Seq ev" "int64_ok (ns_Seq ev)"
    and run: "send_event E ev br w = (r, br', w')"
  shows "HSound d0 w' \<and> (\<not> is_panic r \<longrightarrow>
    (HSteady d0 n w' \<or> HSteady d0 (ns_Seq ev) w') \<and> (\<exists>b. r = Ok b))"
proof (cases "ns_Type ev = NewAddressEvent")
  case False
  obtain r1 w1 where lock: "transact E (LockHTTPCallback E (ns_Seq ev)) w = (r1, w1)"
    by (cases "transact E (LockHTTPCallback E (ns_Seq ev)) w")
  note s1 = transact_LockHTTPCallback [OF H lock]
  show ?thesis
  proof (cases r1)
    case (Ok x)
    consider (gone) p where "sendDataToHTTPCallback E ev w1 = (Panic p, w1)"
      | (sent) failed w2 where "sendDataToHTTPCallback E ev w1 = (Ok failed, w2)"
      by (cases "sendDataToHTTPCallback E ev w1") (auto elim!: sendData_cases)
    then show ?thesis
    proof cases
      case gone
      with run False lock Ok s1 show ?thesis by (auto simp: send_event_def intro: HSteady_HSound)
    next
      case (sent failed w2)
      have s2: "HStoring d0 (ns_Seq ev) w2" "failed \<noteq> None \<Longrightarrow> HSteady d0 n w2"
        using post_state [OF _ _ _ sent] s1 Ok q by auto
      define e1 where "e1 = br\<lparr>httpCallbackRetries := httpCallbackRetries br + 1,
          httpCallbackRetryDelay := httpCallbackRetryDelay br + 1\<rparr>"
      obtain r3 w3 where pc: "persistHTTPCallbackSendResultWithRetry (transact E (ClearHTTPCallback E)) w2 = (r3, w3)"
        by (metis surj_pair)
      obtain r4 w4 where ps: "persistHTTPCallbackSendResultWithRetry (transact E (store_sent E (ns_Seq ev))) w2 = (r4, w4)"
        by (metis surj_pair)
      note sent_saved = persist_sent [OF q(2) s2(1) ps]
      show ?thesis
      proof (cases "failed \<noteq> None \<and> handleHTTPCallbackError e1")
        case True
        with persist_clear [OF s2(2) pc] run False lock Ok sent pc show ?thesis
          by (auto simp: send_event_def e1_def [symmetric] HSteady_HSound Let_def
              intro: HSteady_timers HSteady_HSound split: res.splits elim: is_panic.elims)
      next
        case no_retry: False
        with sent_saved run False lock Ok sent ps show ?thesis
          by (auto simp: send_event_def e1_def [symmetric] Let_def intro: HSteady_HSound
              split: res.splits if_splits elim: is_panic.elims)
      qed
    qed
  qed (use run False lock s1 in
        \<open>auto simp: send_event_def intro: HSteady_HSound handleEarly_HSteady\<close>)
qed (use run H in \<open>auto simp: send_event_def intro: HSteady_HSound\<close>)

lemma send_events_safe:
  "HSteady d0 n w \<Longrightarrow> queue_ok n es \<Longrightarrow> send_events E es br w = (r, br', w') \<Longrightarrow>
     HSound d0 w' \<and> (\<not> is_panic r \<longrightarrow> (\<exists>m \<ge> n. HSteady d0 m w'))"
proof (induction es arbitrary: br w n)
  case (Cons ev es)
  note q = queue_ok_Cons [OF Cons.prems(2)]
  obtain r1 br1 w1 where one: "send_event E ev br w = (r1, br1, w1)" by (metis prod_cases3)
  note s1 = send_event_safe [OF Cons.prems(1) _ _ one]
  show ?case
  proof (cases "r1 = Ok True")
    case True
    with one Cons.prems(3) have rest: "send_events E es br1 w1 = (r, br', w')" by simp
    from s1 q True consider "HSteady d0 n w1" | "HSteady d0 (ns_Seq ev) w1" by auto
    then show ?thesis
    proof cases
      case 2
      with Cons.IH [OF 2 _ rest] q show ?thesis by (meson less_le_trans less_imp_le order_trans)
    qed (use Cons.IH [OF _ _ rest] q in blast)
  next
    case False
    with one Cons.prems(3) s1 q show ?thesis
      by (auto split: res.splits bool.splits intro: less_imp_le HSteady_HSound)
  qed
qed (auto intro: HSteady_HSound)

end
