(* ===== verification/BrokerFrame.thy ===== *)
theory BrokerFrame
  imports Broker Frame
begin

text \<open>
  Relations kept by the operations of the event broker. The broker writes only its own
  metadata entries and the table of muted transactions, and calls the callback URL.
\<close>

definition broker_keys :: "string list" where
  "broker_keys = [''http_callback_operation'', ''last_http_sent_seq'']"

locale broker_relation = quiet_relation R for R :: "world \<Rightarrow> world \<Rightarrow> bool" +
  assumes marking: "k \<in> set broker_keys \<Longrightarrow> keeps R (SetMeta E k v)"
    and muting: "keeps R (MuteEventsWithTxID E i)"
    and posting: "keeps R (sendDataToHTTPCallback E ev)"
    and grouping: "keeps calm f \<Longrightarrow> keeps R f \<Longrightarrow> keeps R (transact E (f :: unit M))"
begin

lemma keeps_http_marks [keeps_intros]:
  "keeps R (LockHTTPCallback E n)" "keeps R (ClearHTTPCallback E)" "keeps R (StoreLastHTTPSentSeq E n)"
  unfolding LockHTTPCallback_def ClearHTTPCallback_def StoreLastHTTPSentSeq_def
  by (simp_all add: marking broker_keys_def)

lemma keeps_store_sent [keeps_intros]: "keeps R (store_sent E n)"
  unfolding store_sent_def by (intro keeps_intros)

lemma keeps_event_reads [keeps_intros]:
  "keeps R (GetEventsFromSeq E n)" "keeps R (GetNextEventFromSeq E n)" "keeps R (GetLastHTTPSentSeq E)"
  "keeps R (CheckHTTPCallbackLock E)"
  unfolding GetEventsFromSeq_def GetNextEventFromSeq_def GetLastHTTPSentSeq_def CheckHTTPCallbackLock_def
  by (intro keeps_intros)+

lemma keeps_broker_Check [keeps_intros]: "keeps R (broker_Check E)"
  unfolding broker_Check_def by (intro keeps_intros)

lemma keeps_mute_target [keeps_intros]: "keeps R (mute_target E i e)"
  unfolding mute_target_def
  by (intro keeps_intros) (auto split: go_error.splits event_data.splits intro!: keeps_intros)

lemma keeps_mute: "keeps3 R (mute E i)"
proof (rule keeps3I)
  fix e w r e' w'
  assume "mute E i e w = (r, e', w')"
  then obtain r1 where "bindE (mute_target E i e) (MuteEventsWithTxID E) w = (r1, w')"
    by (auto simp: mute_def split: prod.splits res.splits)
  moreover have "keeps R (bindE (mute_target E i e) (MuteEventsWithTxID E))"
    by (intro keeps_intros muting)
  ultimately show "R w w'" by (rule keepsD [rotated])
qed

lemma keeps_persistHTTP [keeps_intros]:
  assumes "keeps R f"
  shows "keeps R (persistHTTPCallbackSendResultWithRetry f)"
proof -
  have "keeps3 R (\<lambda>m v. case f v of (r, v') \<Rightarrow> (r, m, v'))"
    by (rule keeps3I) (auto dest: keepsD [OF assms] split: prod.splits)
  from keeps_dropArg [OF keeps_persistWithRetry [OF this]] show ?thesis
    unfolding persistHTTPCallbackSendResultWithRetry_def [abs_def] .
qed

lemma keeps_sending_parts:
  "keeps R (transact E (LockHTTPCallback E n))"
  "keeps R (persistHTTPCallbackSendResultWithRetry (transact E (ClearHTTPCallback E)))"
  "keeps R (persistHTTPCallbackSendResultWithRetry (transact E (store_sent E n)))"
  by (intro keeps_intros grouping;
      simp add: LockHTTPCallback_def ClearHTTPCallback_def store_sent_def StoreLastHTTPSentSeq_def
        SetMeta_def calm_sql_exec calm.keeps_bind)+

lemma keeps_send_event: "keeps3 R (send_event E ev)"
proof (rule keeps3I)
  fix e w r e' w'
  assume run: "send_event E ev e w = (r, e', w')"
  obtain r1 w1 where 1: "transact E (LockHTTPCallback E (ns_Seq ev)) w = (r1, w1)" by (metis surj_pair)
  obtain r2 w2 where 2: "sendDataToHTTPCallback E ev w1 = (r2, w2)" by (metis surj_pair)
  obtain r3 w3 where 3: "persistHTTPCallbackSendResultWithRetry (transact E (ClearHTTPCallback E)) w2 = (r3, w3)"
    by (metis surj_pair)
  obtain r4 w4 where 4: "persistHTTPCallbackSendResultWithRetry (transact E (store_sent E (ns_Seq ev))) w2 = (r4, w4)"
    by (metis surj_pair)
  have k1: "R w w1" by (rule keepsD [OF keeps_sending_parts(1) 1])
  have k2: "R w w2" by (rule trans [OF k1 keepsD [OF posting 2]])
  have k3: "R w w3" by (rule trans [OF k2 keepsD [OF keeps_sending_parts(2) 3]])
  have k4: "R w w4" by (rule trans [OF k2 keepsD [OF keeps_sending_parts(3) 4]])
  have tm: "R v (v\<lparr>timers := ts\<rparr>)" for v ts by (rule quiet) simp_all
  have "w' \<in> {w, w1, w2, w3, w4, w1\<lparr>timers := HTTPSendTimer # timers w1\<rparr>,
      w3\<lparr>timers := HTTPRetryTimer # timers w3\<rparr>}"
    using run 1 2 3 4 by (auto simp: send_event_def handleEarlyErrorPreparingHTTPCallback_def Let_def
        split: res.splits if_splits)
  then show "R w w'" using refl k1 k2 k3 k4 trans [OF k1 tm] trans [OF k3 tm] by blast
qed

lemma keeps_send_events: "keeps3 R (send_events E es)"
proof (induction es)
  case (Cons ev es)
  show ?case
  proof (rule keeps3I)
    fix e w r e' w'
    assume run: "send_events E (ev # es) e w = (r, e', w')"
    obtain r1 e1 w1 where 1: "send_event E ev e w = (r1, e1, w1)" by (metis prod_cases3)
    have "R w w1" by (rule keeps3D [OF keeps_send_event 1])
    moreover from run 1 have "w' = w1 \<or> send_events E es e1 w1 = (r, e', w')"
      by (auto split: res.splits bool.splits)
    ultimately show "R w w'" using keeps3D [OF Cons.IH] by (metis trans)
  qed
qed (auto simp: keeps3_def refl)

lemma keeps_sendHTTPCallbackNotifications: "keeps3 R (sendHTTPCallbackNotifications E b)"
proof (rule keeps3I)
  fix e w r e' w'
  assume run: "sendHTTPCallbackNotifications E b e w = (r, e', w')"
  obtain r1 w1 where 1: "GetLastHTTPSentSeq E w = (r1, w1)" by (metis surj_pair)
  have k1: "R w w1" by (rule keepsD [OF keeps_event_reads(3) 1])
  have tm: "R v (v\<lparr>timers := ts\<rparr>)" for v ts by (rule quiet) simp_all
  show "R w w'"
  proof (cases r1)
    case (Ok n)
    obtain r2 w2 where 2: "GetEventsFromSeq E (n + 1) w1 = (r2, w2)" by (metis surj_pair)
    have k2: "R w w2" by (rule trans [OF k1 keepsD [OF keeps_event_reads(1) 2]])
    have "w' = w \<or> w' = w2 \<or> w' = w2\<lparr>timers := HTTPSendTimer # timers w2\<rparr> \<or>
        (\<exists>es e0. send_events E es e0 w2 = (r, e', w'))"
      using run 1 2 Ok by (auto simp: sendHTTPCallbackNotifications_def Let_def
          handleEarlyErrorPreparingHTTPCallback_def split: res.splits if_splits)
    then show ?thesis using k2 tm keeps3D [OF keeps_send_events] by (metis refl trans)
  qed (use run 1 k1 tm in \<open>auto simp: sendHTTPCallbackNotifications_def Let_def refl
        handleEarlyErrorPreparingHTTPCallback_def intro: trans split: if_splits\<close>)
qed

lemma keeps_broker_dispatch: "keeps3 R (broker_dispatch E wk)"
proof (rule keeps3I)
  fix e w r e' w'
  assume run: "broker_dispatch E wk e w = (r, e', w')"
  have tm: "R v (v\<lparr>timers := ts\<rparr>)" for v ts by (rule quiet) simp_all
  show "R w w'"
  proof (cases wk)
    case WSTrigger
    obtain r1 w1 where 1: "GetEventsFromSeq E (minSeq (eventBroadcaster e)) w = (r1, w1)" by (metis surj_pair)
    have "R w w1" by (rule keepsD [OF keeps_event_reads(1) 1])
    with run 1 WSTrigger tm show ?thesis
      by (auto simp: broker_dispatch_def sendWSNotifications_def intro: trans split: res.splits)
  next
    case (HTTPTrigger b)
    with run keeps3D [OF keeps_sendHTTPCallbackNotifications] show ?thesis
      by (auto simp: broker_dispatch_def)
  next
    case (MuteQueued i)
    with run keeps3D [OF keeps_mute] show ?thesis
      by (auto simp: broker_dispatch_def split: prod.splits res.splits)
  qed (use run in \<open>auto simp: broker_dispatch_def refl\<close>)
qed

end

end
