(* ===== verification/Footprint.thy ===== *)
theory Footprint
  imports SafeBroker BrokerFrame
begin

text \<open>
  Parts of the database that an operation never changes.

  \<open>foot v s p\<close> relates two worlds if the view \<open>v\<close> of the tables is the same in both and in
  every state committed in between, and the effects in between include payments only if \<open>s\<close>
  and notifications only if \<open>p\<close>. The wallet leaves the metadata of the HTTP callback alone,
  the event broker leaves the transactions alone; the two goroutines therefore keep each
  other's invariants.

  \<open>numbered\<close> is the relation that keeps the event table ordered below the sequence.
\<close>

fun allowed :: "(database \<Rightarrow> 'v) \<Rightarrow> bool \<Rightarrow> bool \<Rightarrow> 'v \<Rightarrow> effect \<Rightarrow> bool" where
  "allowed v s p x (EffCommit d) \<longleftrightarrow> v d = x"
| "allowed v s p x (EffSend _ _ _ _ _) \<longleftrightarrow> s"
| "allowed v s p x (EffPost _ _) \<longleftrightarrow> p"

text \<open>The committed state agrees with the tables whenever no transaction is open.\<close>

definition tracks :: "world \<Rightarrow> world \<Rightarrow> bool" where
  "tracks w w' \<longleftrightarrow> (\<forall>d0. durable d0 (trace w) = db w \<longrightarrow> durable d0 (trace w') = db w')"

definition foot :: "(database \<Rightarrow> 'v) \<Rightarrow> bool \<Rightarrow> bool \<Rightarrow> world \<Rightarrow> world \<Rightarrow> bool" where
  "foot v s p w w' \<longleftrightarrow> v (db w') = v (db w) \<and>
     (\<not> intx w \<longrightarrow> \<not> intx w' \<and> tracks w w' \<and>
        (\<exists>u. trace w' = u @ trace w \<and> list_all (allowed v s p (v (db w))) u))"

lemma foot_refl: "foot v s p w w"
  by (simp add: foot_def tracks_def)

lemma foot_trans: "foot v s p a b \<Longrightarrow> foot v s p b c \<Longrightarrow> foot v s p a c"
  by (auto simp: foot_def tracks_def)

lemma foot_same:
  "db w' = db w \<Longrightarrow> trace w' = trace w \<Longrightarrow> intx w' = intx w \<Longrightarrow> foot v s p w w'"
  by (simp add: foot_def tracks_def)

lemma foot_persist:
  "v d = v (db w) \<Longrightarrow> trace w1 = trace w \<Longrightarrow> intx w1 = intx w \<Longrightarrow> foot v s p w (persist d w1)"
  by (auto simp: foot_def tracks_def trace_persist intro: exI [of _ "[EffCommit d]"])

lemma foot_sql_exec:
  assumes "\<And>d d'. f d = Inr d' \<Longrightarrow> v d' = v d"
  shows "keeps (foot v s p) (sql_exec E f)"
proof (rule keepsI)
  fix w r w'
  assume "sql_exec E f w = (r, w')"
  from sql_exec_cases [OF this] assms show "foot v s p w w'"
    by (auto intro: foot_same foot_persist)
qed

lemma foot_StoreEvent:
  assumes "\<And>d es. v (d\<lparr>events_t := es\<rparr>) = v d"
  shows "keeps (foot v s p) (StoreEvent E n)"
proof (rule keepsI)
  fix w r w'
  assume "StoreEvent E n w = (r, w')"
  then show "foot v s p w w'"
    by (cases rule: StoreEvent_cases) (auto intro: foot_same foot_persist simp: assms)
qed

lemma foot_updateReportedConfirmations:
  assumes "\<And>d rs. v (d\<lparr>transactions_t := rs\<rparr>) = v d"
  shows "keeps3 (foot v s p) (\<lambda>tx. updateReportedConfirmations E tx n)"
proof (rule keeps3I)
  fix tx :: Transaction and w r tx' w'
  let ?f = "\<lambda>d. Inr (d\<lparr>transactions_t :=
      map (\<lambda>r. if r_id r = ID tx then r\<lparr>r_reported_confirmations := n\<rparr> else r) (transactions_t d)\<rparr>)"
  assume "updateReportedConfirmations E tx n w = (r, tx', w')"
  then obtain r2 where x: "sql_exec E ?f w = (r2, w')"
    by (auto simp: updateReportedConfirmations_def split: res.splits prod.splits)
  have "keeps (foot v s p) (sql_exec E ?f)" by (rule foot_sql_exec) (auto simp: assms)
  from keepsD [OF this x] show "foot v s p w w'" .
qed

lemma foot_StoreTransaction:
  assumes "\<And>d rs. v (d\<lparr>transactions_t := rs\<rparr>) = v d"
  shows "keeps3 (foot v s p) (StoreTransaction E)"
proof (rule keeps3I)
  fix tx w r tx' w'
  assume "StoreTransaction E tx w = (r, tx', w')"
  then show "foot v s p w w'"
    by (rule StoreTransaction_exec) (auto intro: foot_same foot_persist simp: assms)
qed

lemma foot_MakeTransactIfAvailable:
  assumes "keeps3 calm f" "keeps3 (foot v s p) f"
  shows "keeps3 (foot v s p) (MakeTransactIfAvailable E f)"
proof (rule keeps3I)
  fix m w r m' w'
  assume run: "MakeTransactIfAvailable E f m w = (r, m', w')"
  show "foot v s p w w'"
  proof (cases "intx w")
    case False
    from run False show ?thesis
    proof (rule MakeTransactIfAvailable_cases)
      show "trace v' = trace v" if "f m v = (r, n, v')" "intx v" for v r n v'
        using keeps3D [OF assms(1) that(1)] that(2) calm_intx by blast
    next
      assume "db w' = db w" "trace w' = trace w" "\<not> intx w'"
      with False show ?thesis by (auto intro: foot_same)
    next
      fix x v1
      assume *: "f m ((tick w)\<lparr>intx := True\<rparr>) = (Ok x, m', v1)" "db w' = db v1"
        "trace w' = EffCommit (db v1) # trace w" "\<not> intx w'"
      from keeps3D [OF assms(2) *(1)] have "v (db v1) = v (db w)" by (simp add: foot_def)
      with * show ?thesis
        by (auto simp: foot_def tracks_def intro: exI [of _ "[EffCommit (db v1)]"])
    qed
  next
    case True
    have inner: "v (db v1) = v (db w)" if "f m ((tick w)\<lparr>intx := True\<rparr>) = (r1, m1, v1)" for r1 m1 v1
      using keeps3D [OF assms(2) that] by (simp add: foot_def)
    from run True inner show ?thesis
      by (auto simp: foot_def MakeTransactIfAvailable_def db_Begin_def db_Commit_def db_Rollback_def Let_def
          split: outcome.splits prod.splits res.splits)
  qed
qed

lemma foot_transact:
  assumes "keeps calm f" "keeps (foot v s p) f"
  shows "keeps (foot v s p) (transact E f)"
proof -
  let ?g = "\<lambda>_ v. case f v of (r, v') \<Rightarrow> (r, (), v')"
  have "keeps3 calm ?g" "keeps3 (foot v s p) ?g"
    by (rule keeps3I, auto dest: keepsD [OF assms(1)] keepsD [OF assms(2)] split: prod.splits)+
  from foot_MakeTransactIfAvailable [OF this, of E] show ?thesis
    by (auto simp: keeps_def keeps3_def transact_def split: prod.splits) (metis snd_conv)
qed

subsection \<open>The wallet and the HTTP callback\<close>

definition http_meta :: "database \<Rightarrow> string option \<times> string option" where
  "http_meta d = (metadata_t d ''http_callback_operation'', metadata_t d ''last_http_sent_seq'')"

interpretation wallet_foot: process_relation "foot http_meta True False"
proof
  show "foot http_meta True False a c" if "foot http_meta True False a b" "foot http_meta True False b c" for a b c
    using that by (rule foot_trans)
  show "keeps (foot http_meta True False) (SetMeta E k v)" if "k \<in> set wallet_keys" for E k v
    unfolding SetMeta_def using that
    by (intro foot_sql_exec) (auto simp: http_meta_def wallet_keys_def)
  show "keeps (foot http_meta True False) (StoreAccount E acc)" for E acc
    unfolding StoreAccount_def by (intro foot_sql_exec) (auto simp: http_meta_def split: if_splits)
  show "keeps (foot http_meta True False) (sendMoney E tx)" for E tx
    by (rule keepsI)
      (auto simp: sendMoney_def Let_def foot_def tracks_def intro: exI [of _ "[_]"])
qed (auto intro: foot_refl foot_same foot_StoreEvent foot_updateReportedConfirmations foot_StoreTransaction
    foot_transact foot_MakeTransactIfAvailable simp: http_meta_def)

text \<open>What the wallet does keeps the invariant of the HTTP callback.\<close>

lemma http_meta_eq:
  "http_meta d' = http_meta d \<Longrightarrow> last_sent d' = last_sent d \<and> http_locked d' = http_locked d"
  by (simp add: http_meta_def last_sent_def http_locked_def)

lemma wallet_effects:
  assumes "list_all (allowed http_meta True False (http_meta d)) u"
    and "http_meta (durable d0 t) = http_meta d" and "last_sent d = Inr n"
    and "\<forall>seq \<in> set (delivered t). seq \<le> n" and "http_crash_safe d0 t" and "list_all countable_at t"
  shows "delivered (u @ t) = delivered t \<and> http_crash_safe d0 (u @ t) \<and> list_all countable_at (u @ t) \<and>
    http_meta (durable d0 (u @ t)) = http_meta d"
  using assms
proof (induction u)
  case (Cons e u)
  then have IH: "delivered (u @ t) = delivered t \<and> http_crash_safe d0 (u @ t) \<and>
      list_all countable_at (u @ t) \<and> http_meta (durable d0 (u @ t)) = http_meta d" by simp
  show ?case
  proof (cases e)
    case (EffCommit d1)
    with Cons.prems have "http_meta d1 = http_meta d" by simp
    with EffCommit IH http_meta_eq [of d1 d] Cons.prems show ?thesis
      by (auto simp: http_safe_now_def sent_up_to_def)
  next
    case (EffSend i a m f r)
    with IH http_meta_eq [of "durable d0 (u @ t)" d] Cons.prems show ?thesis
      by (auto simp: http_safe_now_def sent_up_to_def)
  qed (use Cons.prems in auto)
qed simp

lemma wallet_keeps_HSteady:
  assumes "foot http_meta True False w w'" "HSteady d0 n w"
  shows "HSteady d0 n w'"
proof -
  from assms obtain u where u: "trace w' = u @ trace w" "list_all (allowed http_meta True False (http_meta (db w))) u"
    and w': "\<not> intx w'" "tracks w w'" "http_meta (db w') = http_meta (db w)"
    by (auto simp: foot_def HSteady_def)
  from assms(2) have H: "durable d0 (trace w) = db w" "last_sent (db w) = Inr n"
    "\<forall>seq \<in> set (delivered (trace w)). seq \<le> n" "http_crash_safe d0 (trace w)"
    "list_all countable_at (trace w)" "sorted_wrt (>) (delivered (trace w))"
    by (auto simp: HSteady_def HSound_def)
  from wallet_effects [OF u(2) _ H(2-5)] H(1) have "delivered (u @ trace w) = delivered (trace w) \<and>
      http_crash_safe d0 (u @ trace w) \<and> list_all countable_at (u @ trace w)" by simp
  with u(1) w' H http_meta_eq [OF w'(3)] show ?thesis
    by (auto simp: HSteady_def HSound_def tracks_def)
qed

subsection \<open>The broker and the transactions\<close>

definition tx_view :: "database \<Rightarrow> (uuid \<rightharpoonup> tx_row) \<times> uuid list \<times> string option" where
  "tx_view d = (core d, ids d, metadata_t d ''wallet_operation'')"

lemma foot_MuteEvents:
  assumes "\<And>d ms. v (d\<lparr>muted_t := ms\<rparr>) = v d"
  shows "keeps (foot v s p) (MuteEventsWithTxID E i)"
proof (rule keepsI)
  fix w r w'
  assume "MuteEventsWithTxID E i w = (r, w')"
  from MuteEventsWithTxID_exec [OF this] obtain r1 where
    x: "sql_exec E (add_muted i) w = (r1, w')" by blast
  show "foot v s p w w'"
    by (rule keepsD [OF foot_sql_exec x]) (auto simp: assms add_muted_def split: if_splits)
qed

interpretation broker_foot: broker_relation "foot tx_view False True"
proof
  show "foot tx_view False True a c" if "foot tx_view False True a b" "foot tx_view False True b c" for a b c
    using that by (rule foot_trans)
  show "keeps (foot tx_view False True) (SetMeta E k v)" if "k \<in> set broker_keys" for E k v
    unfolding SetMeta_def using that
    by (intro foot_sql_exec) (auto simp: tx_view_def broker_keys_def core_def ids_def)
  show "keeps (foot tx_view False True) (MuteEventsWithTxID E i)" for E i
    by (rule foot_MuteEvents) (simp add: tx_view_def core_def ids_def)
  show "keeps (foot tx_view False True) (sendDataToHTTPCallback E ev)" for E ev
    by (rule keepsI) (auto simp: foot_def tracks_def elim!: sendData_cases)
qed (auto intro: foot_refl foot_same foot_transact)

lemma tx_view_eq:
  assumes "tx_view d' = tx_view d"
  shows "settled d' i = settled d i" "good d' = good d" "locked d' = locked d" "ids d' = ids d"
  using assms by (simp_all add: tx_view_def settled_def good_core locked_def pk_def)

text \<open>The broker may run at any moment of the wallet, also in the window of \<open>Critical\<close>.\<close>

lemma broker_effects:
  assumes "list_all (allowed tx_view False True (tx_view d)) u" and "tx_view (durable d0 t) = tx_view d"
    and "good d" and "crash_safe d0 t" and "orderly d0 t" and "all_good t"
  shows "paid (u @ t) = paid t \<and> crash_safe d0 (u @ t) \<and> orderly d0 (u @ t) \<and> all_good (u @ t) \<and>
    tx_view (durable d0 (u @ t)) = tx_view d"
  using assms
proof (induction u)
  case (Cons e u)
  then have IH: "paid (u @ t) = paid t \<and> crash_safe d0 (u @ t) \<and> orderly d0 (u @ t) \<and>
      all_good (u @ t) \<and> tx_view (durable d0 (u @ t)) = tx_view d" by simp
  then have now: "safe_now d0 (u @ t)" using crash_safe_now by blast
  show ?case
  proof (cases e)
    case (EffCommit d1)
    with Cons.prems have d1: "tx_view d1 = tx_view d" by simp
    note eqs = tx_view_eq [OF d1] tx_view_eq [of "durable d0 (u @ t)" d]
    from EffCommit d1 IH now eqs Cons.prems show ?thesis by (auto simp: safe_now_def)
  qed (use IH now Cons.prems in \<open>auto simp: safe_now_def\<close>)
qed simp

lemma broker_keeps_Sound:
  assumes "foot tx_view False True w w'" "Sound d0 w" "\<not> intx w" "durable d0 (trace w) = db w" "good (db w)"
  shows "Sound d0 w' \<and> \<not> intx w' \<and> durable d0 (trace w') = db w' \<and> good (db w') \<and>
    paid (trace w') = paid (trace w) \<and> tx_view (db w') = tx_view (db w)"
proof -
  from assms obtain u where u: "trace w' = u @ trace w" "list_all (allowed tx_view False True (tx_view (db w))) u"
    and w': "\<not> intx w'" "tracks w w'" "tx_view (db w') = tx_view (db w)"
    by (auto simp: foot_def)
  from assms have "paid (u @ trace w) = paid (trace w) \<and> crash_safe d0 (u @ trace w) \<and>
      orderly d0 (u @ trace w) \<and> all_good (u @ trace w)"
    using broker_effects [OF u(2), of d0 "trace w"] by (simp add: Sound_def)
  with u(1) w' assms tx_view_eq(2) [OF w'(3)] show ?thesis
    by (auto simp: Sound_def tracks_def)
qed

lemma broker_keeps_Steady:
  assumes "foot tx_view False True w w'" "Steady d0 w"
  shows "Steady d0 w'"
proof -
  from assms(2) have "Sound d0 w" "\<not> intx w" "durable d0 (trace w) = db w" "good (db w)"
    by (simp_all add: Steady_def)
  note k = broker_keeps_Sound [OF assms(1) this]
  with tx_view_eq [of "db w'" "db w"] assms(2) show ?thesis by (auto simp: Steady_def)
qed

lemma broker_keeps_Critical:
  assumes "foot tx_view False True w w'" "Critical d0 i w"
  shows "Critical d0 i w'"
proof -
  from assms(2) have "Sound d0 w" "\<not> intx w" "durable d0 (trace w) = db w" "good (db w)"
    by (simp_all add: Critical_def)
  note k = broker_keeps_Sound [OF assms(1) this]
  with tx_view_eq [of "db w'" "db w"] assms(2) show ?thesis by (auto simp: Critical_def)
qed

subsection \<open>The numbers of events\<close>

fun numbered_below :: "int \<Rightarrow> effect \<Rightarrow> bool" where
  "numbered_below n (EffCommit d) = events_ok (events_t d) n"
| "numbered_below n _ = True"

text \<open>
  The event table, and every state of it that was ever committed, is ordered below the next
  value of the sequence, which no rollback takes back.
\<close>

definition numbers_ok :: "world \<Rightarrow> bool" where
  "numbers_ok w \<longleftrightarrow> events_ok (events_t (db w)) (events_seq w) \<and> list_all (numbered_below (events_seq w)) (trace w)"

definition numbered :: "world \<Rightarrow> world \<Rightarrow> bool" where
  "numbered w w' \<longleftrightarrow> (numbers_ok w \<longrightarrow> numbers_ok w' \<and> events_seq w \<le> events_seq w')"

lemma numbered_below_mono:
  "list_all (numbered_below m) t \<Longrightarrow> m \<le> n \<Longrightarrow> list_all (numbered_below n) t"
proof (induction t)
  case (Cons e t)
  then show ?case by (cases e) (auto intro: events_ok_mono)
qed simp

lemma numbered_refl: "numbered w w"
  by (simp add: numbered_def)

lemma numbered_trans: "numbered a b \<Longrightarrow> numbered b c \<Longrightarrow> numbered a c"
  by (auto simp: numbered_def)

lemma numbered_same:
  "events_t (db w') = events_t (db w) \<Longrightarrow> events_seq w' = events_seq w \<Longrightarrow>
     trace w' = trace w \<or> trace w' = EffCommit (db w') # trace w \<Longrightarrow> numbered w w'"
  by (auto simp: numbered_def numbers_ok_def)

lemma numbered_persist:
  "events_t d = events_t (db w) \<Longrightarrow> events_seq w1 = events_seq w \<Longrightarrow> trace w1 = trace w \<Longrightarrow>
     numbered w (persist d w1)"
  by (rule numbered_same) (auto simp: persist_def)

lemma numbered_sql_exec:
  assumes "\<And>d d'. f d = Inr d' \<Longrightarrow> events_t d' = events_t d"
  shows "keeps numbered (sql_exec E f)"
proof (rule keepsI)
  fix w r w'
  assume "sql_exec E f w = (r, w')"
  from sql_exec_cases [OF this] assms show "numbered w w'"
    by (auto intro: numbered_same numbered_persist)
qed

lemma numbered_StoreEvent: "keeps numbered (StoreEvent E n)"
proof (rule keepsI)
  fix w r w'
  assume "StoreEvent E n w = (r, w')"
  then show "numbered w w'"
  proof (cases rule: StoreEvent_cases)
    case (stored row)
    show ?thesis unfolding numbered_def
    proof (intro impI conjI)
      assume "numbers_ok w"
      with stored(1) have "events_ok (events_t (db w) @ [row]) (events_seq w + 1)"
        and "list_all (numbered_below (events_seq w + 1)) (trace w)"
        by (auto simp: numbers_ok_def intro: events_ok_append numbered_below_mono)
      with stored(2) show "numbers_ok w'" by (auto simp: numbers_ok_def persist_def)
      from stored(2) show "events_seq w \<le> events_seq w'" by (auto simp: persist_def)
    qed
  qed (auto intro: numbered_same)
qed

lemma numbered_updateReportedConfirmations:
  "keeps3 numbered (\<lambda>tx. updateReportedConfirmations E tx n)"
proof (rule keeps3I)
  fix tx :: Transaction and w r tx' w'
  let ?f = "\<lambda>d. Inr (d\<lparr>transactions_t :=
      map (\<lambda>r. if r_id r = ID tx then r\<lparr>r_reported_confirmations := n\<rparr> else r) (transactions_t d)\<rparr>)"
  assume "updateReportedConfirmations E tx n w = (r, tx', w')"
  then obtain r2 where x: "sql_exec E ?f w = (r2, w')"
    by (auto simp: updateReportedConfirmations_def split: res.splits prod.splits)
  have "keeps numbered (sql_exec E ?f)" by (rule numbered_sql_exec) auto
  from keepsD [OF this x] show "numbered w w'" .
qed

lemma numbered_MakeTransactIfAvailable:
  assumes "keeps3 numbered f"
  shows "keeps3 numbered (MakeTransactIfAvailable E f)"
proof (rule keeps3I)
  fix m w r m' w'
  assume run: "MakeTransactIfAvailable E f m w = (r, m', w')"
  let ?w1 = "(tick w)\<lparr>intx := True\<rparr>"
  obtain r1 m1 v where f: "f m ?w1 = (r1, m1, v)" by (metis prod_cases3)
  have v: "numbers_ok v \<and> events_seq w \<le> events_seq v" if "numbers_ok w"
    using keeps3D [OF assms f] that by (simp add: numbered_def numbers_ok_def)
  have "(\<exists>b. w' = (tick w)\<lparr>intx := b\<rparr>) \<or> w' = tick w \<or>
      (events_seq w' = events_seq v \<and> (db w' = db w \<and> trace w' = trace v \<or>
         db w' = db v \<and> trace w' = EffCommit (db v) # trace v))"
    using run f by (auto simp: MakeTransactIfAvailable_def db_Begin_def db_Commit_def db_Rollback_def Let_def
        split: outcome.splits res.splits)
  then show "numbered w w'"
    using v by (auto simp: numbered_def numbers_ok_def intro: events_ok_mono)
qed

lemma numbered_transact:
  assumes "keeps numbered f"
  shows "keeps numbered (transact E f)"
proof -
  have "keeps3 numbered (\<lambda>_ v. case f v of (r, v') \<Rightarrow> (r, (), v'))"
    by (rule keeps3I) (auto dest: keepsD [OF assms] split: prod.splits)
  from numbered_MakeTransactIfAvailable [OF this, of E] show ?thesis
    by (auto simp: keeps_def keeps3_def transact_def split: prod.splits) (metis snd_conv)
qed

lemma numbered_StoreTransaction: "keeps3 numbered (StoreTransaction E)"
proof (rule keeps3I)
  fix tx w r tx' w'
  assume "StoreTransaction E tx w = (r, tx', w')"
  then show "numbered w w'"
    by (rule StoreTransaction_exec) (auto intro: numbered_same numbered_persist)
qed

lemma numbered_MuteEvents: "keeps numbered (MuteEventsWithTxID E i)"
proof (rule keepsI)
  fix w r w'
  assume "MuteEventsWithTxID E i w = (r, w')"
  from MuteEventsWithTxID_exec [OF this] obtain r1 where
    x: "sql_exec E (add_muted i) w = (r1, w')" by blast
  show "numbered w w'"
    by (rule keepsD [OF numbered_sql_exec x]) (auto simp: add_muted_def split: if_splits)
qed

interpretation numbered: process_relation numbered
proof
  show "numbered a c" if "numbered a b" "numbered b c" for a b c
    using that by (rule numbered_trans)
  show "keeps numbered (SetMeta E k v)" "keeps numbered (StoreAccount E acc)" for E k v acc
    unfolding SetMeta_def StoreAccount_def by (intro numbered_sql_exec; auto split: if_splits)+
  show "keeps numbered (sendMoney E tx)" for E tx
    by (rule keepsI) (auto simp: sendMoney_def Let_def numbered_def numbers_ok_def)
qed (auto intro: numbered_refl numbered_same numbered_StoreEvent numbered_updateReportedConfirmations
    numbered_StoreTransaction numbered_transact numbered_MakeTransactIfAvailable)

interpretation numbered: broker_relation numbered
proof
  show "keeps numbered (SetMeta E k v)" for E k v
    unfolding SetMeta_def by (rule numbered_sql_exec) auto
  show "keeps numbered (sendDataToHTTPCallback E ev)" for E ev
    by (rule keepsI) (auto simp: numbered_def numbers_ok_def elim!: sendData_cases)
qed (auto intro: numbered_MuteEvents numbered_transact)

end
