(* ===== verification/System.thy ===== *)
theory System
  imports Footprint
begin

text \<open>
  The process over its whole life (\<open>cmd/bitcoin-processing/main.go\<close>): start-up guarded by
  the two integrity checks, turns of the goroutines of the wallet and of the event broker,
  calls made by the API goroutine, and crashes at any moment.
\<close>

subsection \<open>The other operations are safe\<close>

lemma advance_StoreAccount:
  "StoreAccount E acc w = (Ok x, w') \<Longrightarrow> good (db w) \<Longrightarrow> advance A (db w) (db w')"
  by (auto simp: StoreAccount_def core_def ids_def intro!: advance_view dest!: sql_exec_Ok split: if_splits)

lemma advance_broker_Notify:
  assumes "broker_Notify E et dat w = (Ok x, w')" "good (db w)"
  shows "advance A (db w) (db w')"
proof -
  have "keeps same_view (broker_Notify E et dat)" unfolding broker_Notify_def by (intro keeps_intros)
  from advance_keeps [OF this assms] show ?thesis .
qed

lemma CreateAccount_safe:
  assumes "Steady d0 w"
  shows "safe_at d0 {} (CreateAccount E m) w"
  unfolding CreateAccount_def generateNewAddress_def Let_def
proof (rule safe_bind_silent)
  fix address w1
  assume s1: "Steady d0 w1"
  let ?acc = "\<lparr>acc_Address = address, acc_Metainfo = m\<rparr>"
  show "safe_at d0 {} (bindE (transact E (store_account E ?acc)) (\<lambda>_. bindE SendNotifications (\<lambda>_. returnE ?acc))) w1"
  proof (rule safe_bind)
    show "safe_at d0 {} (transact E (store_account E ?acc)) w1"
    proof (rule safe_transact [OF s1 calm.keeps_store_account])
      fix v x v'
      assume d: "db v = db w1" and "store_account E ?acc v = (Ok x, v')"
      then obtain y v1 where 1: "StoreAccount E ?acc v = (Ok y, v1)" and
        2: "broker_Notify E NewAddressEvent (AccountData ?acc) v1 = (Ok x, v')"
        unfolding store_account_def bindE_is_Ok by blast
      have "good (db v)" using s1 d by (simp add: Steady_def)
      from advance_StoreAccount [OF 1 this] have a: "advance {} (db v) (db v1)" .
      from advance_trans [OF a advance_broker_Notify [OF 2 advance_good [OF a]]] d
      show "advance {} (db w1) (db v')" by simp
    qed
    fix x w2 assume "Steady d0 w2"
    then show "safe_at d0 {} (bindE SendNotifications (\<lambda>_. returnE ?acc)) w2"
      by (intro safe_silent keeps_intros)
  qed (use s1 in \<open>auto intro!: keeps_intros simp: Steady_def\<close>)
qed (use assms in \<open>auto intro!: keeps_intros\<close>)

lemma silent_initPending [keeps_intros]: "keeps silent (initPendingManualConfirmationsTxMetric E)"
  unfolding initPendingManualConfirmationsTxMetric_def GetTransactionsWithFilter_def query_many_def
  by (intro keeps_intros) simp_all

lemma silent_checkHotWalletAddress [keeps_intros]: "keeps silent (checkHotWalletAddress E W)"
  unfolding checkHotWalletAddress_def by (intro keeps_intros)

lemma silent_initColdWallet [keeps_intros]: "keeps silent (initColdWallet E s W)"
  unfolding initColdWallet_def by (intro keeps_intros)

lemma silent_GetHotWalletAddress [keeps_intros]: "keeps silent (GetHotWalletAddress E)"
  unfolding GetHotWalletAddress_def GetMeta_def by (intro keeps_intros)

lemma safe_panic [safe_intros]: "Steady d0 w \<Longrightarrow> safe_at d0 A (panicE p) w"
  by (simp add: safe_at_def go_simps Steady_Sound)

lemma generateHotWalletAddress_safe:
  assumes "Steady d0 w"
  shows "safe_at d0 A (generateHotWalletAddress E) w"
  unfolding generateHotWalletAddress_def generateNewAddress_def
proof (rule safe_catch)
  fix x :: "go_error + string" and w1
  assume s1: "Steady d0 w1"
  have "safe_at d0 A (catchE (setHotWalletAddress E a) (\<lambda>s. case s of
      Inl _ \<Rightarrow> failE (GoError ''Error storing generated hot wallet address '')
    | Inr _ \<Rightarrow> returnE a)) w1" for a
    unfolding setHotWalletAddress_def
    by (rule safe_catch [OF safe_SetMeta [OF s1]])
      (use s1 in \<open>auto intro!: outer.setting keeps_intros safe_intros simp: wallet_keys_def Steady_def
          split: sum.splits\<close>)
  then show "safe_at d0 A (case x of Inl _ \<Rightarrow> failE (GoError ''Error generating hot wallet address '')
    | Inr a \<Rightarrow> catchE (setHotWalletAddress E a) (\<lambda>s. case s of
      Inl _ \<Rightarrow> failE (GoError ''Error storing generated hot wallet address '') | Inr _ \<Rightarrow> returnE a)) w1"
    using s1 by (auto intro: safe_intros split: sum.splits)
qed (use assms in \<open>auto intro!: keeps_intros safe_silent [OF silent_basic(2)] simp: Steady_def\<close>)

lemma getOrCreateHotWallet_safe:
  assumes "Steady d0 w"
  shows "safe_at d0 A (getOrCreateHotWallet E setting) w"
proof (cases "setting = []")
  case False
  with assms show ?thesis by (simp add: getOrCreateHotWallet_def safe_return)
next
  case True
  have gen: "safe_at d0 A (catchE (generateHotWalletAddress E) (\<lambda>g. case g of
      Inl _ \<Rightarrow> panicE ''error generating the address'' | Inr a \<Rightarrow> returnE a)) v" if s: "Steady d0 v" for v
    by (rule safe_catch [OF generateHotWalletAddress_safe [OF s]])
      (use s in \<open>auto intro!: keeps_intros safe_intros simp: Steady_def split: sum.splits\<close>)
  from assms have "\<not> intx w" by (simp add: Steady_def)
  then have "safe_at d0 A (catchE (GetHotWalletAddress E) (\<lambda>r. case r of
      Inr a \<Rightarrow> if a \<noteq> [] then returnE a else panicE ''nil error''
    | Inl err \<Rightarrow> if err \<noteq> ErrHotWalletAddressNotGeneratedYet then panicE ''error of the storage''
        else catchE (generateHotWalletAddress E) (\<lambda>g. case g of
          Inl _ \<Rightarrow> panicE ''error generating the address'' | Inr a \<Rightarrow> returnE a))) w"
    by (rule safe_catch [OF safe_silent [OF silent_GetHotWalletAddress assms]
          outer_silent [OF silent_GetHotWalletAddress]])
      (auto intro!: keeps_intros gen safe_intros split: sum.splits)
  with True show ?thesis by (simp add: getOrCreateHotWallet_def)
qed

lemma initHotWallet_safe:
  assumes "Steady d0 w"
  shows "safe_at d0 A (initHotWallet E setting W) w"
  unfolding initHotWallet_def
proof (rule safe_bind [OF getOrCreateHotWallet_safe [OF assms]])
  fix a w1 assume "Steady d0 w1"
  then show "safe_at d0 A (let W' = W\<lparr>hotWalletAddress := a\<rparr> in
      bindE (checkHotWalletAddress E W') (\<lambda>_. returnE W')) w1"
    by (intro safe_silent keeps_intros)
qed (use assms in \<open>auto intro!: keeps_intros simp: Steady_def\<close>)

lemma wallet_init_safe:
  assumes "Steady d0 w" "uuid_ok E" "sort_ok E"
  shows "safe_at d0 UNIV (wallet_init E hs cs W) w"
  unfolding wallet_init_def
proof (rule safe_bind_silent)
  fix x w1 assume s1: "Steady d0 w1"
  show "safe_at d0 UNIV (bindE (initHotWallet E hs W) (\<lambda>W1. bindE (initColdWallet E cs W1) (\<lambda>W2.
      bindE (checkForWalletUpdates E W2) (\<lambda>_. bindE (updatePendingTxns E W2) (\<lambda>_. returnE W2))))) w1"
  proof (rule safe_bind [OF initHotWallet_safe [OF s1]])
    fix W1 w2 assume s2: "Steady d0 w2"
    show "safe_at d0 UNIV (bindE (initColdWallet E cs W1) (\<lambda>W2.
      bindE (checkForWalletUpdates E W2) (\<lambda>_. bindE (updatePendingTxns E W2) (\<lambda>_. returnE W2)))) w2"
    proof (rule safe_bind_silent)
      fix W2 w3 assume s3: "Steady d0 w3"
      show "safe_at d0 UNIV (bindE (checkForWalletUpdates E W2) (\<lambda>_. bindE (updatePendingTxns E W2) (\<lambda>_. returnE W2))) w3"
      proof (rule safe_bind [OF checkForWalletUpdates_safe [OF s3 assms(2,3)]])
        fix y w4 assume "Steady d0 w4"
        then show "safe_at d0 UNIV (bindE (updatePendingTxns E W2) (\<lambda>_. returnE W2)) w4"
          using assms by (intro safe_bind safe_intros keeps_intros) (auto simp: Steady_def)
      qed (use s3 in \<open>auto intro!: keeps_intros simp: Steady_def\<close>)
    qed (use s2 in \<open>auto intro!: keeps_intros\<close>)
  qed (use s1 in \<open>auto intro!: keeps_intros simp: Steady_def\<close>)
qed (use assms in \<open>auto intro!: keeps_intros\<close>)

subsection \<open>The sender of notifications\<close>

lemma GetLastHTTPSentSeq_Ok:
  "GetLastHTTPSentSeq E w = (Ok n, w') \<Longrightarrow> last_sent (db w) = Inr n \<and> w' = tick w"
  by (auto simp: GetLastHTTPSentSeq_def GetMeta_def bindE_def sql_query_def go_simps last_sent_def
      split: outcome.splits option.splits sum.splits prod.splits res.splits)

lemma GetEventsFromSeq_bounds:
  assumes "GetEventsFromSeq E n w = (Ok es, w')" "events_ok (events_t (db w)) m"
  shows "w' = tick w \<and> sorted_wrt (<) (map ns_Seq es) \<and> (\<forall>e \<in> set es. n \<le> ns_Seq e \<and> ns_Seq e < m)"
proof -
  from assms(1) have w': "w' = tick w" and es: "decode_events (e_lib E) (select_events n (db w)) = Inr es"
    by (auto simp: GetEventsFromSeq_def bindE_def sql_query_def go_simps
        split: outcome.splits sum.splits prod.splits res.splits)
  let ?rows = "filter (\<lambda>r. n \<le> ev_seq r \<and> \<not> row_muted (db w) r) (events_t (db w))"
  from decode_events_seqs [OF es] have seqs: "map ns_Seq es = map ev_seq ?rows"
    by (simp add: select_events_filter [OF assms(2)])
  from assms(2) have "sorted_wrt (<) (map ev_seq ?rows)" "\<forall>s \<in> set (map ev_seq ?rows). n \<le> s \<and> s < m"
    by (auto simp: events_ok_def intro: sorted_wrt_map_filter)
  then have "sorted_wrt (<) (map ns_Seq es)" "\<forall>s \<in> set (map ns_Seq es). n \<le> s \<and> s < m"
    unfolding seqs by blast+
  with w' show ?thesis by auto
qed

lemma reads_tick:
  "GetLastHTTPSentSeq E w = (r, w') \<Longrightarrow> w' = tick w"
  "GetEventsFromSeq E n w = (s, w') \<Longrightarrow> w' = tick w"
  by (auto simp: GetLastHTTPSentSeq_def GetEventsFromSeq_def GetMeta_def bindE_def sql_query_def go_simps
      split: outcome.splits option.splits sum.splits prod.splits res.splits)

lemma HSteady_tick: "HSteady d0 n (tick w) = HSteady d0 n w"
  by (simp add: HSteady_def HSound_def)

lemma sendHTTPCallbackNotifications_safe:
  assumes H: "HSteady d0 n w" and nums: "numbers_ok w" "events_seq w \<le> 2 ^ 63"
    and run: "sendHTTPCallbackNotifications E b e w = (r, e', w')"
  shows "HSound d0 w' \<and> (\<not> is_panic r \<longrightarrow> (\<exists>m. HSteady d0 m w'))"
proof (cases "httpCallbackIsRetrying e \<and> \<not> b")
  case False
  obtain r1 w1 where 1: "GetLastHTTPSentSeq E w = (r1, w1)" by (metis surj_pair)
  have w1: "w1 = tick w" by (rule reads_tick(1) [OF 1])
  with H have H1: "HSteady d0 n w1" by (simp add: HSteady_tick)
  show ?thesis
  proof (cases r1)
    case (Ok k)
    with GetLastHTTPSentSeq_Ok 1 H have k: "k = n" by (auto simp: HSteady_def)
    obtain r2 w2 where 2: "GetEventsFromSeq E (n + 1) w1 = (r2, w2)" by (metis surj_pair)
    have H2: "HSteady d0 n w2" using H1 reads_tick(2) [OF 2] by (simp add: HSteady_tick)
    show ?thesis
    proof (cases r2)
      case (Ok es)
      from H have "Atoi (case metadata_t (db w) ''last_http_sent_seq'' of None \<Rightarrow> ''0'' | Some v \<Rightarrow> v) = Inr n"
        by (simp add: HSteady_def last_sent_def)
      from Atoi_bounds [OF this] GetEventsFromSeq_bounds [of E "n + 1" w1 es w2 "events_seq w"] 2 Ok w1 nums
      have "queue_ok n es" by (fastforce simp: queue_ok_def int64_ok_def numbers_ok_def)
      moreover obtain e0 where "send_events E es e0 w2 = (r, e', w')"
        using run False 1 2 Ok \<open>r1 = _\<close> k by (auto simp: sendHTTPCallbackNotifications_def Let_def split: if_splits)
      ultimately show ?thesis using send_events_safe [OF H2] by blast
    qed (use run False 1 2 \<open>r1 = _\<close> k H2 in
        \<open>auto simp: sendHTTPCallbackNotifications_def Let_def intro: handleEarly_HSteady HSteady_HSound\<close>)
  qed (use run False 1 H1 in
      \<open>auto simp: sendHTTPCallbackNotifications_def Let_def intro: handleEarly_HSteady HSteady_HSound\<close>)
qed (use run H in \<open>auto simp: sendHTTPCallbackNotifications_def intro: HSteady_HSound\<close>)

lemma mute_HSteady:
  assumes "HSteady d0 n w" "mute E i e w = (r, e', w')"
  shows "HSteady d0 n w'"
proof -
  from assms(2) obtain r1 where run: "bindE (mute_target E i e) (MuteEventsWithTxID E) w = (r1, w')"
    by (auto simp: mute_def split: prod.splits res.splits)
  have "keeps (foot http_meta True False) (mute_target E i e)"
    unfolding mute_target_def GetNextEventFromSeq_def
    by (intro keeps_intros) (auto split: go_error.splits event_data.splits intro!: keeps_intros)
  moreover have "keeps (foot http_meta True False) (MuteEventsWithTxID E j)" for j
    by (rule foot_MuteEvents) (simp add: http_meta_def)
  ultimately have "keeps (foot http_meta True False) (bindE (mute_target E i e) (MuteEventsWithTxID E))"
    by (rule wallet_foot.keeps_bind)
  from wallet_keeps_HSteady [OF keepsD [OF this run] assms(1)] show ?thesis .
qed

lemma broker_dispatch_safe:
  assumes "HSteady d0 n w" "numbers_ok w" "events_seq w \<le> 2 ^ 63"
    and run: "broker_dispatch E wk e w = (r, e', w')"
  shows "HSound d0 w' \<and> (\<not> is_panic r \<longrightarrow> (\<exists>m. HSteady d0 m w'))"
proof (cases wk)
  case WSTrigger
  obtain r1 w1 where 1: "GetEventsFromSeq E (minSeq (eventBroadcaster e)) w = (r1, w1)" by (metis surj_pair)
  have "HSteady d0 n w1" using assms(1) reads_tick(2) [OF 1] by (simp add: HSteady_tick)
  with run 1 WSTrigger show ?thesis
    by (auto simp: broker_dispatch_def sendWSNotifications_def intro: HSteady_timers HSteady_HSound
        split: res.splits)
next
  case (HTTPTrigger b)
  with run sendHTTPCallbackNotifications_safe [OF assms(1-3)] show ?thesis
    by (simp add: broker_dispatch_def)
next
  case (MuteQueued i)
  obtain r1 e1 w1 where 1: "mute E i e w = (r1, e1, w1)" by (metis prod_cases3)
  with run MuteQueued have "w' = w1" by (auto simp: broker_dispatch_def split: res.splits)
  with mute_HSteady [OF assms(1) 1] show ?thesis by (auto intro: HSteady_HSound)
qed (use run assms(1) in \<open>auto simp: broker_dispatch_def intro: HSteady_HSound\<close>)

subsection \<open>The life of the process\<close>

text \<open>
  \<open>perform\<close> is one operation of the running process: the dispatch of a request or a poll of the
  node by the wallet goroutine, a turn of the broker goroutine or a call made by an API goroutine. A queued withdrawal is one
  that the method \<open>Withdraw\<close> accepted, with the identifier that the API has given it.
\<close>

datatype wallet_call =
    DoDispatch wakeup
  | DoPoll
  | DoWithdraw WithdrawRequest bool
  | DoCreateAccount json
  | DoTriggerWalletUpdate
  | DoGetTransactionsWithFilter string string
  | DoGetBalance
  | DoGetMoneyRequiredFromColdStorage

datatype operation =
    OnWallet wallet_call
  | OnBroker broker_wakeup
  | DoSubscribe int
  | DoUnsubscribe nat
  | DoGetEventsFromSeq int

fun operation_ok :: "operation \<Rightarrow> bool" where
  "operation_ok (OnWallet (DoDispatch (WithdrawQueued _ _))) = False"
| "operation_ok (OnWallet (DoWithdraw request _)) = (req_ID request \<noteq> uuid_Nil)"
| "operation_ok _ = True"

definition perform_wallet :: "env \<Rightarrow> walletData \<Rightarrow> wallet_call \<Rightarrow> unit M" where
  "perform_wallet E W op =
     (case op of
        DoDispatch wk \<Rightarrow> dispatch E W wk
      | DoPoll \<Rightarrow> checkForWalletUpdates E W
      | DoWithdraw request toColdStorage \<Rightarrow>
          (case Withdraw W request toColdStorage of
             Inl e \<Rightarrow> failE e
           | Inr q \<Rightarrow> dispatch E W (WithdrawQueued (iw_tx q) (iw_hold q)))
      | DoCreateAccount m \<Rightarrow> bindE (CreateAccount E m) (\<lambda>_. returnE ())
      | DoTriggerWalletUpdate \<Rightarrow> TriggerWalletUpdate
      | DoGetTransactionsWithFilter df sf \<Rightarrow> bindE (GetTransactionsWithFilter E df sf) (\<lambda>_. returnE ())
      | DoGetBalance \<Rightarrow> bindE (GetBalance E) (\<lambda>_. returnE ())
      | DoGetMoneyRequiredFromColdStorage \<Rightarrow>
          bindE (GetMoneyRequiredFromColdStorage E) (\<lambda>_. returnE ()))"

definition perform ::
  "env \<Rightarrow> walletData \<Rightarrow> operation \<Rightarrow> eventBrokerData \<Rightarrow> world \<Rightarrow> unit res \<times> eventBrokerData \<times> world" where
  "perform E W op e w =
     (case op of
        OnWallet c \<Rightarrow> (case perform_wallet E W c w of (r, w') \<Rightarrow> (r, e, w'))
      | OnBroker wk \<Rightarrow> broker_dispatch E wk e w
      | DoSubscribe seq \<Rightarrow>
          (case broker_SubscribeFromSeq seq e w of (_, e', w') \<Rightarrow> (Ok (), e', w'))
      | DoUnsubscribe ch \<Rightarrow> (Ok (), broker_UnsubscribeFromSeq ch e, w)
      | DoGetEventsFromSeq seq \<Rightarrow>
          (case bindE (GetEventsFromSeq E seq) (\<lambda>_. returnE ()) w of (r, w') \<Rightarrow> (r, e, w')))"

text \<open>Both checks come before any goroutine is started.\<close>

definition start :: "env \<Rightarrow> string \<Rightarrow> string \<Rightarrow> walletData \<Rightarrow> walletData M" where
  "start E hs cs W =
     bindE (wallet_Check E) (\<lambda>_. bindE (broker_Check E) (\<lambda>_. wallet_init E hs cs W))"

text \<open>What is left when the process dies after the effects \<open>t\<close>: the database and the trace.\<close>

definition crashed :: "database \<Rightarrow> effect list \<Rightarrow> world \<Rightarrow> world" where
  "crashed d0 t w = w\<lparr>db := durable d0 t, intx := False, trace := t,
     pendingTxUpdateTrigger := [], externalTxNotifications := [], wsNotificationTrigger := [],
     httpCallbackNotificationTrigger := [], timers := [],
     txnsWaitingManualConfirmationCount := 0, txnsWaitingBlockchainConfirmationCount := 0\<rparr>"

text \<open>
  What the surroundings guarantee of the state \<open>w\<close> that an operation reaches: the node has
  not given a new payment the hash of a transaction that is already stored, and the event
  sequence has not run past the 64-bit integers.
\<close>

definition admissible :: "database \<Rightarrow> world \<Rightarrow> bool" where
  "admissible d0 w \<longleftrightarrow> fresh_hashes d0 (trace w) \<and> events_seq w \<le> 2 ^ 63"

text \<open>
  \<open>life E d0 None w\<close>: the process is down; \<open>life E d0 (Some (W, e)) w\<close>: it runs with the
  wallet \<open>W\<close> and the broker \<open>e\<close>.
\<close>

inductive life :: "env \<Rightarrow> database \<Rightarrow> (walletData \<times> eventBrokerData) option \<Rightarrow> world \<Rightarrow> bool" for E d0 where
  installed: "db w = d0 \<Longrightarrow> trace w = [] \<Longrightarrow> \<not> intx w \<Longrightarrow> events_ok (events_t d0) (events_seq w) \<Longrightarrow>
    admissible d0 w \<Longrightarrow> life E d0 None w"
| started: "life E d0 None w \<Longrightarrow> start E hs cs W w = (Ok W', w') \<Longrightarrow> admissible d0 w' \<Longrightarrow>
    life E d0 (Some (W', NewEventBroker backoff)) w'"
| performed: "life E d0 (Some (W, e)) w \<Longrightarrow> operation_ok op \<Longrightarrow> perform E W op e w = (r, e', w') \<Longrightarrow>
    admissible d0 w' \<Longrightarrow> \<not> is_panic r \<Longrightarrow> life E d0 (Some (W, e')) w'"
| crashed_start: "life E d0 None w \<Longrightarrow> start E hs cs W w = (r, w') \<Longrightarrow> admissible d0 w' \<Longrightarrow>
    suffix t (trace w') \<Longrightarrow> suffix (trace w) t \<Longrightarrow> life E d0 None (crashed d0 t w')"
| crashed_op: "life E d0 (Some (W, e)) w \<Longrightarrow> operation_ok op \<Longrightarrow> perform E W op e w = (r, e', w') \<Longrightarrow>
    admissible d0 w' \<Longrightarrow> suffix t (trace w') \<Longrightarrow> suffix (trace w) t \<Longrightarrow>
    life E d0 None (crashed d0 t w')"

subsection \<open>The invariant\<close>

text \<open>The integrity checks let the process start only if no lock is set.\<close>

lemma wallet_Check_Ok: "wallet_Check E w = (Ok x, w') \<Longrightarrow> \<not> locked (db w) \<and> silent w w'"
  by (auto simp: wallet_Check_def CheckWalletLock_def GetMeta_def catchE_def bindE_def sql_query_def
      go_simps locked_def silent_def split: outcome.splits option.splits if_splits)

lemma broker_Check_Ok: "broker_Check E w = (Ok x, w') \<Longrightarrow> \<not> http_locked (db w)"
  by (auto simp: broker_Check_def CheckHTTPCallbackLock_def GetMeta_def catchE_def bindE_def sql_query_def
      go_simps http_locked_def split: outcome.splits option.splits if_splits)

lemma silent_checks [keeps_intros]: "keeps silent (wallet_Check E)" "keeps silent (broker_Check E)"
  unfolding wallet_Check_def CheckWalletLock_def broker_Check_def CheckHTTPCallbackLock_def GetMeta_def
  by (intro keeps_intros)+

definition Down :: "database \<Rightarrow> world \<Rightarrow> bool" where
  "Down d0 w \<longleftrightarrow> Sound d0 w \<and> \<not> intx w \<and> durable d0 (trace w) = db w \<and> good (db w)"

definition HDown :: "database \<Rightarrow> world \<Rightarrow> bool" where
  "HDown d0 w \<longleftrightarrow> HSound d0 w \<and> \<not> intx w \<and> durable d0 (trace w) = db w \<and> (\<exists>n. last_sent (db w) = Inr n)"

lemma Down_Steady: "Down d0 w \<Longrightarrow> \<not> locked (db w) \<Longrightarrow> Steady d0 w"
  by (auto simp: Down_def Steady_def Sound_def dest!: crash_safe_now simp: safe_now_def)

lemma HDown_HSteady:
  assumes "HDown d0 w" "\<not> http_locked (db w)"
  shows "\<exists>n. HSteady d0 n w"
proof -
  from assms(1) obtain n where n: "last_sent (db w) = Inr n" by (auto simp: HDown_def)
  from assms(1) have "http_safe_now d0 (trace w)"
    by (cases "trace w") (auto simp: HDown_def HSound_def http_safe_now_def)
  with assms n have "\<forall>seq \<in> set (delivered (trace w)). seq \<le> n"
    by (auto simp: HDown_def http_safe_now_def sent_up_to_def)
  with assms(1) n show ?thesis by (auto simp: HDown_def HSteady_def)
qed

text \<open>What holds after any prefix of the work of an operation, and what is left by a crash.\<close>

definition Midway :: "database \<Rightarrow> world \<Rightarrow> bool" where
  "Midway d0 w \<longleftrightarrow> Sound d0 w \<and> HSound d0 w \<and> numbers_ok w \<and> events_ok (events_t d0) (events_seq w)"

definition Up :: "database \<Rightarrow> world \<Rightarrow> bool" where
  "Up d0 w \<longleftrightarrow> Steady d0 w \<and> (\<exists>n. HSteady d0 n w) \<and> Midway d0 w"

lemma Sound_suffix:
  assumes "Sound d0 w" "suffix t (trace w)"
  shows "Sound d0 (crashed d0 t w)"
proof -
  from assms(2) obtain u where u: "trace w = u @ t" by (auto simp: suffix_def)
  from paid_suffix [OF assms(2)] obtain p where "paid (trace w) = p @ paid t" by blast
  with assms u show ?thesis
    by (auto simp: Sound_def crashed_def intro: crash_safe_suffix dest: orderly_append all_good_append)
qed

lemma delivered_append: "\<exists>p. delivered (u @ t) = p @ delivered t"
proof (induction u)
  case (Cons e u)
  then obtain p where p: "delivered (u @ t) = p @ delivered t" by blast
  show ?case
  proof (cases e)
    case (EffPost seq r)
    with p show ?thesis by (cases r) auto
  qed (use p in auto)
qed simp

lemma http_crash_safe_append: "http_crash_safe d0 (u @ t) \<Longrightarrow> http_crash_safe d0 t"
  by (induction u) auto

lemma HSound_suffix:
  assumes "HSound d0 w" "suffix t (trace w)"
  shows "HSound d0 (crashed d0 t w)"
proof -
  from assms(2) obtain u where u: "trace w = u @ t" by (auto simp: suffix_def)
  from delivered_append [of u t] obtain p where "delivered (u @ t) = p @ delivered t" by blast
  with assms(1) u show ?thesis
    by (auto simp: HSound_def crashed_def sorted_wrt_append dest: http_crash_safe_append)
qed

lemma durable_cases: "durable d0 t = d0 \<or> EffCommit (durable d0 t) \<in> set t"
  by (induction d0 t rule: durable.induct) auto

lemma crashed_Down:
  assumes "Midway d0 w" "good d0" "\<exists>n. last_sent d0 = Inr n" "suffix t (trace w)"
  shows "Down d0 (crashed d0 t w) \<and> HDown d0 (crashed d0 t w) \<and> Midway d0 (crashed d0 t w)"
proof -
  from assms(1) have m: "Sound d0 w" "HSound d0 w" "numbers_ok w" "events_ok (events_t d0) (events_seq w)"
    by (simp_all add: Midway_def)
  note s = Sound_suffix [OF m(1) assms(4)] and h = HSound_suffix [OF m(2) assms(4)]
  from s have "all_good t" by (simp add: Sound_def crashed_def)
  with durable_good assms(2) have g: "good (durable d0 t)" by blast
  from h have c: "list_all countable_at t" by (simp add: HSound_def crashed_def)
  from assms(4) m(3) have b: "list_all (numbered_below (events_seq w)) t"
    by (auto simp: numbers_ok_def suffix_def)
  have "\<exists>n. last_sent (durable d0 t) = Inr n"
    using durable_cases [of d0 t] c assms(3) by (auto simp: list_all_iff split: sum.splits)
  moreover have "events_ok (events_t (durable d0 t)) (events_seq w)"
    using durable_cases [of d0 t] b m(4) by (auto simp: list_all_iff)
  ultimately show ?thesis
    using s h g b m(4) by (simp add: Down_def HDown_def Midway_def numbers_ok_def) (simp add: crashed_def)
qed

lemma Up_numbers: "Up d0 w \<Longrightarrow> numbered w w' \<Longrightarrow> numbers_ok w' \<and> events_ok (events_t d0) (events_seq w')"
  by (auto simp: Up_def Midway_def numbered_def intro: events_ok_mono)

lemma Withdraw_wakeup_ok:
  "Withdraw W request cold = Inr q \<Longrightarrow> req_ID request \<noteq> uuid_Nil \<Longrightarrow>
     wakeup_ok (WithdrawQueued (iw_tx q) (iw_hold q))"
  by (auto simp: Withdraw_def outgoing_tx_def Let_def split: prod.splits option.splits sum.splits if_splits)

lemma perform_wallet_safe:
  assumes "Steady d0 w" "uuid_ok E" "sort_ok E" "operation_ok (OnWallet c)"
  shows "safe_at d0 UNIV (perform_wallet E W c) w"
proof (cases c)
  case (DoDispatch wk)
  with assms(4) have "wakeup_ok wk" by (cases wk) auto
  with DoDispatch assms show ?thesis by (simp add: perform_wallet_def dispatch_safe)
next
  case DoPoll
  with assms show ?thesis by (simp add: perform_wallet_def checkForWalletUpdates_safe)
next
  case (DoWithdraw request cold)
  show ?thesis
  proof (cases "Withdraw W request cold")
    case (Inr q)
    with DoWithdraw assms Withdraw_wakeup_ok [OF Inr] show ?thesis
      by (simp add: perform_wallet_def dispatch_safe)
  qed (use DoWithdraw assms in \<open>simp add: perform_wallet_def safe_fail\<close>)
next
  case (DoCreateAccount m)
  have "safe_at d0 UNIV (CreateAccount E m) w"
    using CreateAccount_safe [OF assms(1)] by (simp add: safe_at_def frame_def)
  then have "safe_at d0 UNIV (bindE (CreateAccount E m) (\<lambda>_. returnE ())) w"
    by (rule safe_bind) (use assms in \<open>auto intro!: keeps_intros safe_intros simp: Steady_def\<close>)
  with DoCreateAccount show ?thesis by (simp add: perform_wallet_def)
next
  case DoTriggerWalletUpdate
  with assms(1) show ?thesis
    by (auto simp: perform_wallet_def TriggerWalletUpdate_def intro!: safe_silent keeps_intros)
qed (use assms(1) in \<open>auto simp: perform_wallet_def storage_reads query_many_def GetBalance_def
    GetMoneyRequiredFromColdStorage_def GetMeta_def intro!: safe_silent keeps_intros split: sum.splits\<close>)

context process_relation
begin

lemma keeps_perform_wallet: "keeps R (perform_wallet E W c)"
  unfolding perform_wallet_def GetBalance_def by (cases c) (auto intro!: keeps_intros)

end

lemma perform_safe:
  assumes "Up d0 w" "uuid_ok E" "sort_ok E" "operation_ok op" "events_seq w \<le> 2 ^ 63"
    and run: "perform E W op e w = (r, e', w')" and "fresh_hashes d0 (trace w')"
  shows "Midway d0 w' \<and> (\<not> is_panic r \<longrightarrow> Up d0 w')"
proof (cases op)
  case (OnWallet c)
  with run have c: "perform_wallet E W c w = (r, w')" by (auto simp: perform_def split: prod.splits)
  from assms OnWallet have "safe_at d0 UNIV (perform_wallet E W c) w"
    by (auto simp: Up_def intro: perform_wallet_safe)
  from safe_atD [OF this c assms(7)] have "Sound d0 w'" "\<not> is_panic r \<Longrightarrow> Steady d0 w'" by auto
  moreover from assms(1) obtain n where "HSteady d0 n w" by (auto simp: Up_def)
  from wallet_keeps_HSteady [OF keepsD [OF wallet_foot.keeps_perform_wallet c] this]
  have "HSteady d0 n w'" .
  moreover note Up_numbers [OF assms(1) keepsD [OF numbered.keeps_perform_wallet c]]
  ultimately show ?thesis by (auto simp: Up_def Midway_def HSteady_HSound)
next
  case (OnBroker wk)
  with run have b: "broker_dispatch E wk e w = (r, e', w')" by (simp add: perform_def)
  from assms(1) obtain n where n: "HSteady d0 n w" "numbers_ok w" "Steady d0 w"
    by (auto simp: Up_def Midway_def)
  from broker_dispatch_safe [OF n(1,2) assms(5) b] have "HSound d0 w'" "\<not> is_panic r \<Longrightarrow> \<exists>m. HSteady d0 m w'"
    by auto
  moreover have "Steady d0 w'"
    by (rule broker_keeps_Steady [OF keeps3D [OF broker_foot.keeps_broker_dispatch b] n(3)])
  moreover note Up_numbers [OF assms(1) keeps3D [OF numbered.keeps_broker_dispatch b]]
  ultimately show ?thesis by (auto simp: Up_def Midway_def Steady_Sound)
next
  case (DoGetEventsFromSeq seq)
  obtain r1 w1 where 1: "GetEventsFromSeq E seq w = (r1, w1)" by (metis surj_pair)
  with run DoGetEventsFromSeq reads_tick(2) [OF 1] have "w' = tick w"
    by (cases r1) (auto simp: perform_def bindE_def go_simps)
  with assms(1) show ?thesis
    by (auto simp: Up_def Midway_def Steady_def Sound_def HSteady_def HSound_def numbers_ok_def)
qed (use assms(1) run in
    \<open>auto simp: perform_def broker_SubscribeFromSeq_def Up_def Midway_def Steady_def Sound_def
       HSteady_def HSound_def numbers_ok_def triggerWSNotificationSending_def split: prod.splits\<close>)

lemma start_safe:
  assumes "Down d0 w" "HDown d0 w" "Midway d0 w" "uuid_ok E" "sort_ok E"
    and run: "start E hs cs W w = (r, w')" and "fresh_hashes d0 (trace w')"
  shows "Midway d0 w' \<and> (\<forall>W'. r = Ok W' \<longrightarrow> Up d0 w')"
proof -
  obtain r1 w1 where 1: "wallet_Check E w = (r1, w1)" by (metis surj_pair)
  obtain r2 w2 where 2: "broker_Check E w1 = (r2, w2)" by (metis surj_pair)
  have sil1: "silent w w1" by (rule keepsD [OF silent_checks(1) 1])
  have sil2: "silent w w2" by (rule silent.trans [OF sil1 keepsD [OF silent_checks(2) 2]])
  have mid: "Midway d0 v" if "silent w v" "numbered w v" for v
    using assms(3) that
    by (auto simp: Midway_def silent_def Sound_def HSound_def numbered_def intro: events_ok_mono)
  have n1: "numbered w w1" by (rule keepsD [OF numbered.keeps_wallet_Check 1])
  have n2: "numbered w w2" by (rule numbered_trans [OF n1 keepsD [OF numbered.keeps_broker_Check 2]])
  show ?thesis
  proof (cases "is_ok r1 \<and> is_ok r2")
    case True
    then obtain x y where ok: "r1 = Ok x" "r2 = Ok y" by (cases r1; cases r2) auto
    with 1 2 wallet_Check_Ok [of E w x w1] broker_Check_Ok [of E w1 y w2] sil1
    have "\<not> locked (db w)" "\<not> http_locked (db w)" by (simp_all add: silent_def)
    then have st: "Steady d0 w2" using Down_Steady [OF assms(1)] silent_Steady [OF sil2] by blast
    from \<open>\<not> http_locked (db w)\<close> HDown_HSteady [OF assms(2)] sil2 obtain n where "HSteady d0 n w2"
      by (auto simp: silent_def HSteady_def HSound_def)
    moreover from run 1 2 ok have i: "wallet_init E hs cs W w2 = (r, w')"
      by (simp add: start_def bindE_def)
    ultimately have "HSteady d0 n w'"
      by (blast intro: wallet_keeps_HSteady keepsD [OF wallet_foot.keeps_wallet_init])
    moreover have "Sound d0 w'" "r = Ok W' \<Longrightarrow> Steady d0 w'" for W'
      using safe_atD [OF wallet_init_safe [OF st assms(4,5)] i assms(7)] by auto
    moreover have "numbers_ok w'" "events_ok (events_t d0) (events_seq w')"
      using numbered_trans [OF n2 keepsD [OF numbered.keeps_wallet_init i]] assms(3)
      by (auto simp: numbered_def Midway_def intro: events_ok_mono)
    ultimately show ?thesis by (auto simp: Up_def Midway_def HSteady_HSound)
  next
    case False
    with run 1 2 mid [OF sil1 n1] mid [OF sil2 n2] show ?thesis
      by (cases r1; cases r2) (auto simp: start_def bindE_def)
  qed
qed

definition init_ok :: "database \<Rightarrow> bool" where
  "init_ok d0 \<longleftrightarrow> good d0 \<and> (case last_sent d0 of Inl _ \<Rightarrow> False | Inr _ \<Rightarrow> True)"

lemma init_ok_last_sent: "init_ok d0 \<Longrightarrow> good d0 \<and> (\<exists>n. last_sent d0 = Inr n)"
  by (auto simp: init_ok_def split: sum.splits)

lemma life_admissible: "life E d0 ph w \<Longrightarrow> events_seq w \<le> 2 ^ 63"
  by (induction rule: life.induct) (auto simp: admissible_def crashed_def)

lemma life_invariant:
  assumes "life E d0 ph w" "init_ok d0" "uuid_ok E" "sort_ok E"
  shows "case ph of None \<Rightarrow> Down d0 w \<and> HDown d0 w \<and> Midway d0 w | Some _ \<Rightarrow> Up d0 w"
  using assms
proof (induction rule: life.induct)
  case (installed w)
  with init_ok_last_sent show ?case
    by (auto simp: Down_def HDown_def Midway_def Sound_def HSound_def numbers_ok_def)
next
  case (started w hs cs W W' w' backoff)
  then show ?case using start_safe [of d0 w E hs cs W "Ok W'" w'] by (simp add: admissible_def)
next
  case (performed W e w op r e' w')
  then show ?case
    using perform_safe [of d0 w E op W e r e' w'] life_admissible [OF performed(1)] by (simp add: admissible_def)
next
  case (crashed_start w hs cs W r w' t)
  then have "Midway d0 w'" using start_safe [of d0 w E hs cs W r w'] by (simp add: admissible_def)
  with crashed_start init_ok_last_sent crashed_Down show ?case by simp
next
  case (crashed_op W e w op r e' w' t)
  then have "Midway d0 w'"
    using perform_safe [of d0 w E op W e r e' w'] life_admissible [OF crashed_op(1)] by (simp add: admissible_def)
  with crashed_op init_ok_last_sent crashed_Down show ?case by simp
qed

lemma life_Midway:
  "life E d0 ph w \<Longrightarrow> init_ok d0 \<Longrightarrow> uuid_ok E \<Longrightarrow> sort_ok E \<Longrightarrow> Midway d0 w"
  using life_invariant [of E d0 ph w] by (cases ph) (auto simp: Up_def)

end
