(* ===== verification/Sender.thy ===== *)
theory Sender
  imports System
begin

text \<open>
  Progress of the sender of HTTP notifications: when the database works and the client
  answers with status 200, one call delivers every event that is due, in order.
\<close>

definition healthy :: "env \<Rightarrow> bool" where
  "healthy E \<longleftrightarrow> (\<forall>n. e_sql E n = Succeeds)"

definition accepting :: "env \<Rightarrow> bool" where
  "accepting E \<longleftrightarrow> (\<forall>n body. e_Post E n body = Inr 200)"

text \<open>New addresses are not reported: the caller of the API knows them.\<close>

definition due :: "NotificationWithSeq list \<Rightarrow> NotificationWithSeq list" where
  "due es = filter (\<lambda>ev. ns_Type ev \<noteq> NewAddressEvent) es"

text \<open>A body that succeeds inside a transaction is committed.\<close>

lemma transact_healthy:
  assumes "healthy E" and "f ((tick w)\<lparr>intx := True\<rparr>) = (Ok x, v)"
  shows "transact E f w = (Ok x, (tick v)\<lparr>intx := False, trace := EffCommit (db v) # trace v\<rparr>)"
  using assms by (simp add: healthy_def transact_def MakeTransactIfAvailable_def db_Begin_def db_Commit_def Let_def)

lemma SetMeta_healthy:
  "healthy E \<Longrightarrow> intx w \<Longrightarrow> SetMeta E k v w = (Ok (), (tick w)\<lparr>db := set_meta k v (db w)\<rparr>)"
  by (simp add: healthy_def SetMeta_def sql_exec_def persist_def set_meta_def)

lemma persist_at_once:
  "f w = (Ok (), w') \<Longrightarrow> persistHTTPCallbackSendResultWithRetry f w = (Ok (), w')"
  by (simp add: persistHTTPCallbackSendResultWithRetry_def httpCBResultSaveRetries_def dropArg_def
      numeral_eq_Suc)

lemma send_event_healthy:
  assumes "healthy E" "accepting E" "flattens (ns_Data ev)"
  obtains e' w' where "send_event E ev e w = (Ok True, e', w')"
    "delivered (trace w') = map ns_Seq (due [ev]) @ delivered (trace w)" "events_seq w' = events_seq w"
proof (cases "ns_Type ev = NewAddressEvent")
  case False
  obtain w1 where 1: "transact E (LockHTTPCallback E (ns_Seq ev)) w = (Ok (), w1)"
    and t1: "delivered (trace w1) = delivered (trace w)" "events_seq w1 = events_seq w"
    using transact_healthy [OF assms(1), of "LockHTTPCallback E (ns_Seq ev)" w]
    by (simp add: LockHTTPCallback_def SetMeta_healthy [OF assms(1)])
  obtain w2 where 2: "sendDataToHTTPCallback E ev w1 = (Ok None, w2)"
    and t2: "delivered (trace w2) = ns_Seq ev # delivered (trace w1)" "events_seq w2 = events_seq w1"
    using assms(2) marshalFlattenedEvent_Ok [OF assms(3), of "e_lib E"]
    by (auto simp: sendDataToHTTPCallback_def accepting_def Let_def)
  obtain w3 where 3: "transact E (store_sent E (ns_Seq ev)) w2 = (Ok (), w3)"
    and t3: "delivered (trace w3) = delivered (trace w2)" "events_seq w3 = events_seq w2"
    using transact_healthy [OF assms(1), of "store_sent E (ns_Seq ev)" w2]
    by (simp add: store_sent_def StoreLastHTTPSentSeq_def ClearHTTPCallback_def bindE_def
        SetMeta_healthy [OF assms(1)])
  from False 1 2 persist_at_once [of "transact E (store_sent E (ns_Seq ev))", OF 3] t1 t2 t3 that show thesis
    by (simp add: send_event_def due_def Let_def)
qed (use that in \<open>simp add: send_event_def due_def\<close>)

lemma send_events_healthy:
  assumes "healthy E" "accepting E" "\<forall>ev \<in> set es. flattens (ns_Data ev)"
  shows "\<exists>e' w'. send_events E es e w = (Ok (), e', w') \<and>
    delivered (trace w') = rev (map ns_Seq (due es)) @ delivered (trace w) \<and> events_seq w' = events_seq w"
  using assms(3)
proof (induction es arbitrary: e w)
  case (Cons ev es)
  from Cons.prems have "flattens (ns_Data ev)" by simp
  with assms(1,2) obtain e1 w1 where 1: "send_event E ev e w = (Ok True, e1, w1)"
    "delivered (trace w1) = map ns_Seq (due [ev]) @ delivered (trace w)" "events_seq w1 = events_seq w"
    by (rule send_event_healthy)
  from Cons.IH [of e1 w1] Cons.prems obtain e' w' where "send_events E es e1 w1 = (Ok (), e', w')"
    "delivered (trace w') = rev (map ns_Seq (due es)) @ delivered (trace w1)" "events_seq w' = events_seq w1"
    by auto
  with 1 show ?case by (auto simp: due_def)
qed (auto simp: due_def)

lemma sendHTTP_healthy:
  assumes "healthy E" and "accepting E"
    and "last_sent (db w) = Inr n" and "decode_events (e_lib E) (select_events (n + 1) (db w)) = Inr es"
    and "\<forall>ev \<in> set es. flattens (ns_Data ev)" and "\<not> httpCallbackIsRetrying e \<or> isRetry"
  shows "\<exists>e' w'. sendHTTPCallbackNotifications E isRetry e w = (Ok (), e', w') \<and>
    delivered (trace w') = rev (map ns_Seq (due es)) @ delivered (trace w) \<and> events_seq w' = events_seq w"
proof -
  from assms(1,3) have 1: "GetLastHTTPSentSeq E w = (Ok n, tick w)"
    by (auto simp: GetLastHTTPSentSeq_def GetMeta_def bindE_def sql_query_def go_simps last_sent_def
        healthy_def split: option.splits)
  from assms(1,4) have 2: "GetEventsFromSeq E (n + 1) (tick w) = (Ok es, tick (tick w))"
    by (simp add: GetEventsFromSeq_def bindE_def sql_query_def go_simps healthy_def)
  from send_events_healthy [OF assms(1,2,5), of _ "tick (tick w)"] 1 2 assms(6) show ?thesis
    by (auto simp: sendHTTPCallbackNotifications_def Let_def)
qed

text \<open>An example: one event is waiting when the process comes up.\<close>

definition one_event_db :: database where
  "one_event_db = example_db\<lparr>events_t :=
     [\<lparr>ev_seq = 1, ev_type = ''new-outgoing-tx'', ev_data = OtherData (JObj [])\<rparr>]\<rparr>"

text \<open>
  C11: Every notification that is due is delivered. If the database works and the client
  answers 200, then a call of \<open>sendHTTPCallbackNotifications\<close> (that is not suppressed because a
  retry is pending) returns, and the acknowledged notifications are exactly the events after
  the last one sent, in the order of their numbers, without new addresses and muted ones.
\<close>

theorem notifications_all_sent:
  assumes "healthy E" and "accepting E"
    and "last_sent (db w) = Inr n" and "decode_events (e_lib E) (select_events (n + 1) (db w)) = Inr es"
    and "\<forall>ev \<in> set es. flattens (ns_Data ev)" and "\<not> httpCallbackIsRetrying e \<or> isRetry"
  shows "\<exists>e' w'. sendHTTPCallbackNotifications E isRetry e w = (Ok (), e', w') \<and>
    delivered (trace w') = rev (map ns_Seq (due es)) @ delivered (trace w)"
  using sendHTTP_healthy [OF assms] by blast

theorem notifications_all_sent_witness:
  "\<exists>e' w'. sendHTTPCallbackNotifications example_env False (NewEventBroker 3)
      (example_world\<lparr>db := one_event_db\<rparr>) = (Ok (), e', w') \<and> delivered (trace w') = [1]"
proof -
  let ?w = "example_world\<lparr>db := one_event_db\<rparr>"
  let ?ev = "\<lparr>ns_Type = NewOutgoingTxEvent, ns_Data = OtherData (JObj []), ns_Seq = 1\<rparr>"
  have "last_sent (db ?w) = Inr 0" by code_simp
  moreover have "decode_events (e_lib example_env) (select_events (0 + 1) (db ?w)) = Inr [?ev]" by code_simp
  ultimately show ?thesis
    using notifications_all_sent [of example_env ?w 0 "[?ev]" "NewEventBroker 3" False]
    by (simp add: healthy_def accepting_def example_env_def due_def NewEventBroker_def example_world_def)
qed

subsection \<open>The life of the example\<close>

definition event_world :: world where
  "event_world = example_world\<lparr>db := one_event_db, events_seq := 2\<rparr>"

definition event_wallet :: walletData where
  "event_wallet =
     \<lparr>hotWalletAddress = ''h'', coldWalletAddress = [], minWithdraw = 100, minFeePerKb = 10,
      minFeeFixed = 10, minWithdrawWithoutManualConfirmation = 5000, maxConfirmations = 6\<rparr>"

definition event_start :: "walletData res \<times> world" where
  "event_start = start example_env ''h'' [] event_wallet event_world"

lemma event_start_runs:
  "case event_start of (r, w) \<Rightarrow>
     r = Ok event_wallet \<and> admissible one_event_db w \<and> last_sent (db w) = Inr 0 \<and>
     delivered (trace w) = [] \<and> select_events 1 (db w) = events_t one_event_db"
  by code_simp

lemmas event_start_facts = event_start_runs [unfolded case_prod_beta]

lemma one_event_ok: "init_ok one_event_db"
  by code_simp

lemma event_installed: "life example_env one_event_db None event_world"
  by (rule life.installed) (simp add: event_world_def, simp add: event_world_def example_world_def,
    simp add: event_world_def example_world_def, code_simp+)

lemma event_life:
  "life example_env one_event_db (Some (event_wallet, NewEventBroker 3)) (snd event_start)"
proof (rule life.started [OF event_installed])
  show "start example_env ''h'' [] event_wallet event_world = (Ok event_wallet, snd event_start)"
    using event_start_facts by (simp add: event_start_def prod_eq_iff)
  show "admissible one_event_db (snd event_start)" using event_start_facts by simp
qed

lemma foot_fresh:
  assumes "foot tx_view False True w w'" "\<not> intx w" "fresh_hashes d0 (trace w)"
  shows "fresh_hashes d0 (trace w')"
proof -
  from assms obtain u where u: "trace w' = u @ trace w" "list_all (allowed tx_view False True (tx_view (db w))) u"
    by (auto simp: foot_def)
  from u(2) assms(3) have "fresh_hashes d0 (u @ trace w)"
  proof (induction u)
    case (Cons e u)
    then show ?case by (cases e) auto
  qed simp
  with u(1) show ?thesis by simp
qed

lemma event_told:
  "\<exists>e w. life example_env one_event_db (Some (event_wallet, e)) w \<and> delivered (trace w) = [1]"
proof -
  let ?w = "snd event_start"
  let ?ev = "\<lparr>ns_Type = NewOutgoingTxEvent, ns_Data = OtherData (JObj []), ns_Seq = 1\<rparr>"
  have "decode_events example_lib (events_t one_event_db) = Inr [?ev]" by code_simp
  with event_start_facts sendHTTP_healthy [of example_env ?w 0 "[?ev]" "NewEventBroker 3" False]
  obtain e w where run: "sendHTTPCallbackNotifications example_env False (NewEventBroker 3) ?w = (Ok (), e, w)"
    and d: "delivered (trace w) = [1]" "events_seq w = events_seq ?w"
    by (auto simp: healthy_def accepting_def example_env_def due_def NewEventBroker_def)
  have b: "broker_dispatch example_env (HTTPTrigger False) (NewEventBroker 3) ?w = (Ok (), e, w)"
    using run by (simp add: broker_dispatch_def)
  have env: "uuid_ok example_env" "sort_ok example_env"
    by (auto simp: uuid_ok_def sort_ok_def example_env_def comp_def)
  from life_invariant [OF event_life one_event_ok env] have "\<not> intx ?w" by (simp add: Up_def Steady_def)
  with keeps3D [OF broker_foot.keeps_broker_dispatch b] event_start_facts
  have "fresh_hashes one_event_db (trace w)" by (auto intro: foot_fresh simp: admissible_def)
  then have "admissible one_event_db w" using event_start_facts d by (simp add: admissible_def)
  moreover have "perform example_env event_wallet (OnBroker (HTTPTrigger False)) (NewEventBroker 3) ?w = (Ok (), e, w)"
    using b by (simp add: perform_def)
  ultimately have "life example_env one_event_db (Some (event_wallet, e)) w"
    by (intro life.performed [OF event_life, of "OnBroker (HTTPTrigger False)" "Ok ()"]) auto
  with d(1) show ?thesis by blast
qed

end
