(* ===== verification/NodeRPC.thy ===== *)
theory NodeRPC
  imports Amounts Database
begin

text \<open>
  The client of the Bitcoin node: \<open>bitcoin/nodeapi/rpc.go\<close>.

  The node itself, the RPC client and the amount type of btcsuite are parameters, the record
  \<open>node\<close>. A call of the node is answered by a function of all the requests made so far, the
  current one first, so that a quantification over \<open>node\<close> covers every behaviour of a node.
  The state of the client is that list of requests. A reply to a request is the JSON value of
  its body; a body that is no JSON is an error, as it is for the callers of
  \<open>SendRequestToNode\<close>. The lock \<open>moneySendLock\<close> makes each of the sending methods one step.
\<close>

subsection \<open>Requests and replies\<close>

datatype rpc_request =
    jsonRPCRequest string "json list"
  | jsonRPCRequestWithNamedParams string "(string \<times> json) list"
  | ClientCall string "json list"

type_synonym rpc_log = "rpc_request list"
type_synonym 'a rpc = "(rpc_log, 'a) call"

record TransactionInput =
  in_Txid :: string
  in_Vout :: nat

record Vout =
  out_Value :: float64
  out_Addresses :: "string list"

record TxRawResult =
  Vin :: "TransactionInput list"
  VoutOf :: "Vout list"

record FullGetTransactionResult = GetTransactionResult +
  gt_Hex :: string

record node =
  node_http :: "rpc_log \<Rightarrow> go_error + json"
  node_SetTxFee :: "rpc_log \<Rightarrow> go_error option"
  node_GetBalance :: "rpc_log \<Rightarrow> go_error + uint64"
  node_ListSinceBlock :: "rpc_log \<Rightarrow> go_error + ListTransactionsResult list \<times> string"
  node_GetTransaction :: "rpc_log \<Rightarrow> go_error + FullGetTransactionResult"
  node_DecodeRawTransaction :: "rpc_log \<Rightarrow> go_error + TxRawResult"
  chainhash_NewHashFromStr :: "string \<Rightarrow> go_error + string"
  btcutil_ToBTC :: "uint64 \<Rightarrow> float64"
  btcutil_NewAmount :: "float64 \<Rightarrow> go_error + uint64"

definition answer :: "(rpc_log \<Rightarrow> go_error + 'a) \<Rightarrow> rpc_request \<Rightarrow> 'a rpc" where
  "answer f r hist = (case f (r # hist) of Inl e \<Rightarrow> (Error e, r # hist) | Inr x \<Rightarrow> (Ok x, r # hist))"

definition liftE :: "go_error + 'a \<Rightarrow> 'a rpc" where
  "liftE r hist = (case r of Inl e \<Rightarrow> (Error e, hist) | Inr x \<Rightarrow> (Ok x, hist))"

definition SendRequestToNode :: "node \<Rightarrow> string \<Rightarrow> json list \<Rightarrow> json rpc" where
  "SendRequestToNode N meth params = answer (node_http N) (jsonRPCRequest meth params)"

definition SendRequestToNodeWithNamedParams :: "node \<Rightarrow> string \<Rightarrow> (string \<times> json) list \<Rightarrow> json rpc" where
  "SendRequestToNodeWithNamedParams N meth params =
     answer (node_http N) (jsonRPCRequestWithNamedParams meth params)"

text \<open>
  Decoding of a reply into a Go structure: a member that is absent or \<open>null\<close> leaves the zero
  value, a member of the wrong kind is an error.
\<close>

fun member :: "string \<Rightarrow> json \<Rightarrow> json" where
  "member k (JObj ms) = (case map_of ms k of None \<Rightarrow> JNull | Some j \<Rightarrow> j)"
| "member k _ = JNull"

definition decodeErr :: go_error where
  "decodeErr = GoError ''json: cannot unmarshal''"

fun decode_int :: "json \<Rightarrow> go_error + int" where
  "decode_int JNull = Inr 0"
| "decode_int (JNum s) = Atoi s"
| "decode_int _ = Inl decodeErr"

fun decode_bool :: "json \<Rightarrow> go_error + bool" where
  "decode_bool JNull = Inr False"
| "decode_bool (JBool b) = Inr b"
| "decode_bool _ = Inl decodeErr"

fun decode_float :: "json \<Rightarrow> go_error + float64" where
  "decode_float JNull = Inr ''0''"
| "decode_float (JNum s) = Inr s"
| "decode_float _ = Inl decodeErr"

text \<open>The structure \<open>JSONRPCError\<close>; the pointer to it is nil for \<open>null\<close>.\<close>

definition decode_JSONRPCError :: "json \<Rightarrow> go_error + go_error option" where
  "decode_JSONRPCError j =
     (case j of
        JNull \<Rightarrow> Inr None
      | JObj _ \<Rightarrow>
          (case decode_int (member ''code'' j) of
             Inl e \<Rightarrow> Inl e
           | Inr c \<Rightarrow>
               (case unmarshal_string (member ''message'' j) of
                  Inl e \<Rightarrow> Inl e
                | Inr m \<Rightarrow> Inr (Some (JSONRPCError c m))))
      | _ \<Rightarrow> Inl decodeErr)"

text \<open>
  A structure with the members \<open>Result\<close>, read by \<open>dec\<close>, and \<open>Error\<close>, whose error is the
  result of the call if it is not nil.
\<close>

definition decode_response :: "(json \<Rightarrow> go_error + 'a) \<Rightarrow> json \<Rightarrow> go_error + 'a" where
  "decode_response dec j =
     (case j of
        JObj _ \<Rightarrow>
          (case dec (member ''result'' j) of
             Inl e \<Rightarrow> Inl e
           | Inr x \<Rightarrow>
               (case decode_JSONRPCError (member ''error'' j) of
                  Inl e \<Rightarrow> Inl e
                | Inr (Some err) \<Rightarrow> Inl err
                | Inr None \<Rightarrow> Inr x))
      | JNull \<Rightarrow> dec JNull
      | _ \<Rightarrow> Inl decodeErr)"

definition string_request :: "node \<Rightarrow> string \<Rightarrow> json list \<Rightarrow> string rpc" where
  "string_request N meth params =
     bindE (SendRequestToNode N meth params) (\<lambda>j. liftE (decode_response unmarshal_string j))"

definition CreateNewAddress :: "node \<Rightarrow> string rpc" where
  "CreateNewAddress N = string_request N ''getnewaddress'' []"

definition CreateWallet :: "node \<Rightarrow> string \<Rightarrow> unit rpc" where
  "CreateWallet N name =
     bindE (SendRequestToNodeWithNamedParams N ''createwallet''
              [(''wallet_name'', JStr name), (''load_on_startup'', JBool True)])
       (\<lambda>j. liftE (decode_response (\<lambda>_. Inr ()) j))"

subsection \<open>Transactions\<close>

definition ListTransactionsSinceBlock :: "node \<Rightarrow> string \<Rightarrow> (ListTransactionsResult list \<times> string) rpc" where
  "ListTransactionsSinceBlock N blockHash =
     (if blockHash = [] then answer (node_ListSinceBlock N) (ClientCall ''listsinceblock'' [])
      else case chainhash_NewHashFromStr N blockHash of
             Inl _ \<Rightarrow> failE (GoError ''Error: ListTransactionsSinceBlock: failed to convert block hash'')
           | Inr h \<Rightarrow> answer (node_ListSinceBlock N) (ClientCall ''listsinceblock'' [JStr h]))"

definition node_GetTransactionByHash :: "node \<Rightarrow> string \<Rightarrow> FullGetTransactionResult rpc" where
  "node_GetTransactionByHash N hash =
     (case chainhash_NewHashFromStr N hash of
        Inl _ \<Rightarrow> failE (GoError ''Error: GetTransaction: failed to convert tx hash'')
      | Inr h \<Rightarrow> answer (node_GetTransaction N) (ClientCall ''gettransaction'' [JStr h]))"

fun hex_DecodeString :: "string \<Rightarrow> go_error + nat list" where
  "hex_DecodeString [] = Inr []"
| "hex_DecodeString [c] = Inl (GoError ''encoding/hex'')"
| "hex_DecodeString (c # d # cs) =
     (case (hex_val c, hex_val d) of
        (Some x, Some y) \<Rightarrow>
          (case hex_DecodeString cs of Inl e \<Rightarrow> Inl e | Inr bs \<Rightarrow> Inr ((16 * x + y) # bs))
      | _ \<Rightarrow> Inl (GoError ''encoding/hex''))"

definition decodeRawTransaction :: "node \<Rightarrow> string \<Rightarrow> TxRawResult rpc" where
  "decodeRawTransaction N rawTxHex =
     (case hex_DecodeString rawTxHex of
        Inl e \<Rightarrow> failE e
      | Inr rawTxBytes \<Rightarrow>
          answer (node_DecodeRawTransaction N)
            (ClientCall ''decoderawtransaction'' [JArr (map (\<lambda>b. JNum (Itoa (int b))) rawTxBytes)]))"

definition GetRawTransaction :: "node \<Rightarrow> string \<Rightarrow> TxRawResult rpc" where
  "GetRawTransaction N hash =
     bindE (node_GetTransactionByHash N hash) (\<lambda>transaction. decodeRawTransaction N (gt_Hex transaction))"

subsection \<open>Sending with a fee per kilobyte\<close>

definition sendToAddress :: "node \<Rightarrow> string \<Rightarrow> uint64 \<Rightarrow> bool \<Rightarrow> string rpc" where
  "sendToAddress N address amount recipientPaysFee =
     string_request N ''sendtoaddress''
       [JStr address, JNum (btcutil_ToBTC N amount), JStr [], JStr [], JBool recipientPaysFee]"

definition SendToMultipleAddresses ::
  "'d decimal_api \<Rightarrow> node \<Rightarrow> (string \<times> BTCAmount) list \<Rightarrow> string rpc" where
  "SendToMultipleAddresses D N addresses =
     (if addresses = [] then failE (GoError ''SendToMultipleAddresses got empty list of addresses'')
      else string_request N ''sendmany''
             [JStr [], JObj (map (\<lambda>(a, m). (a, JNum (ToStringedFloat D m))) addresses)])"

definition SetTxFee :: "node \<Rightarrow> uint64 \<Rightarrow> unit rpc" where
  "SetTxFee N fee =
     answer (\<lambda>hist. case node_SetTxFee N hist of Some e \<Rightarrow> Inl e | None \<Rightarrow> Inr ())
       (ClientCall ''settxfee'' [JNum (btcutil_ToBTC N fee)])"

definition SendWithPerKBFee :: "node \<Rightarrow> string \<Rightarrow> BTCAmount \<Rightarrow> BTCAmount \<Rightarrow> bool \<Rightarrow> string rpc" where
  "SendWithPerKBFee N address amount fee recipientPaysFee =
     bindE (SetTxFee N fee) (\<lambda>_. sendToAddress N address amount recipientPaysFee)"

subsection \<open>Sending with a fixed fee\<close>

definition createRawTransaction ::
  "node \<Rightarrow> TransactionInput list \<Rightarrow> (string \<times> float64) list \<Rightarrow> string rpc" where
  "createRawTransaction N inputs outputs =
     string_request N ''createrawtransaction''
       [JArr (map (\<lambda>i. JObj [(''txid'', JStr (in_Txid i)), (''vout'', JNum (Itoa (int (in_Vout i))))]) inputs),
        JObj (map (\<lambda>(a, v). (a, JNum v)) outputs)]"

record fundRawTransactionResult =
  Changepos :: int
  fund_Fee :: float64
  fund_Hex :: string

definition decode_funded :: "json \<Rightarrow> go_error + fundRawTransactionResult option" where
  "decode_funded j =
     (case j of
        JNull \<Rightarrow> Inr None
      | JObj _ \<Rightarrow>
          (case (decode_int (member ''changepos'' j), decode_float (member ''fee'' j),
                 unmarshal_string (member ''hex'' j)) of
             (Inr c, Inr f, Inr h) \<Rightarrow> Inr (Some \<lparr>Changepos = c, fund_Fee = f, fund_Hex = h\<rparr>)
           | _ \<Rightarrow> Inl decodeErr)
      | _ \<Rightarrow> Inl decodeErr)"

text \<open>The options ask for the change at position 0 and the fee to be taken from output 0.\<close>

definition fundRawTransaction :: "node \<Rightarrow> string \<Rightarrow> float64 \<Rightarrow> fundRawTransactionResult option rpc" where
  "fundRawTransaction N rawTx feeRate =
     bindE (SendRequestToNode N ''fundrawtransaction''
              [JStr rawTx,
               JObj [(''changePosition'', JNum ''0''), (''feeRate'', JNum feeRate),
                     (''subtractFeeFromOutputs'', JArr [JNum ''0''])]])
       (\<lambda>j. liftE (decode_response decode_funded j))"

text \<open>
  The recipient's output and the number of outputs that are expected, from the position of
  the change (-1 if there is none).
\<close>

definition recipient_place :: "int \<Rightarrow> nat \<times> nat" where
  "recipient_place changePos =
     (if changePos \<noteq> - 1 then ((if changePos \<noteq> 0 then 0 else 1), 2) else (0, 1))"

definition set_recipient_fee ::
  "node \<Rightarrow> TxRawResult \<Rightarrow> int \<Rightarrow> uint64 \<Rightarrow> string \<Rightarrow> uint64 \<Rightarrow> go_error + TxRawResult" where
  "set_recipient_fee N tx changePos autoFee address fixedFee =
     (case recipient_place changePos of (recipientPos, expectedOutputNumber) \<Rightarrow>
        if length (VoutOf tx) \<noteq> expectedOutputNumber
        then Inl (GoError ''Failed to transform tx to set fixed fee: expected other number of outputs'')
        else
          (let out = VoutOf tx ! recipientPos in
           if length (out_Addresses out) \<noteq> 1
           then Inl (GoError ''Failed to transform tx to set fixed fee: expected one destination address'')
           else if out_Addresses out ! 0 \<noteq> address
           then Inl (GoError ''Failed to transform tx to set fixed fee: address does not match'')
           else case btcutil_NewAmount N (out_Value out) of
                  Inl e \<Rightarrow> Inl e
                | Inr a \<Rightarrow>
                    Inr (tx\<lparr>VoutOf := (VoutOf tx)[recipientPos :=
                              out\<lparr>out_Value := btcutil_ToBTC N (a - fixedFee + autoFee)\<rparr>]\<rparr>)))"

definition transformTxToSetFixedFee ::
  "node \<Rightarrow> fundRawTransactionResult \<Rightarrow> string \<Rightarrow> uint64 \<Rightarrow> TxRawResult rpc" where
  "transformTxToSetFixedFee N rawTxFunded address fixedFee =
     catchE (decodeRawTransaction N (fund_Hex rawTxFunded)) (\<lambda>r.
       case r of
         Inl _ \<Rightarrow> failE (GoError ''Failed to decode tx'')
       | Inr decodedRawTx \<Rightarrow>
           (case btcutil_NewAmount N (fund_Fee rawTxFunded) of
              Inl e \<Rightarrow> failE e
            | Inr autoFee \<Rightarrow>
                liftE (set_recipient_fee N decodedRawTx (Changepos rawTxFunded) autoFee address fixedFee)))"

text \<open>
  The map \<open>finalOutputs\<close> from addresses to values: a later output to the same address
  replaces an earlier one.
\<close>

fun final_outputs :: "Vout list \<Rightarrow> (string \<times> float64) list \<Rightarrow> go_error + (string \<times> float64) list" where
  "final_outputs [] acc = Inr acc"
| "final_outputs (out # outs) acc =
     (if length (out_Addresses out) \<noteq> 1
      then Inl (GoError ''Expected that tx outputs will have 1 destination address'')
      else final_outputs outs
             (filter (\<lambda>(a, _). a \<noteq> out_Addresses out ! 0) acc @ [(out_Addresses out ! 0, out_Value out)]))"

definition encodeTransformedTransaction :: "node \<Rightarrow> TxRawResult \<Rightarrow> string rpc" where
  "encodeTransformedTransaction N tx =
     bindE (liftE (final_outputs (VoutOf tx) [])) (\<lambda>finalOutputs.
       createRawTransaction N (map (\<lambda>i. \<lparr>in_Txid = in_Txid i, in_Vout = in_Vout i\<rparr>) (Vin tx)) finalOutputs)"

definition decode_signed :: "json \<Rightarrow> go_error + (bool \<times> string) option" where
  "decode_signed j =
     (case j of
        JNull \<Rightarrow> Inr None
      | JObj _ \<Rightarrow>
          (case (decode_bool (member ''complete'' j), unmarshal_string (member ''hex'' j)) of
             (Inr c, Inr h) \<Rightarrow> Inr (Some (c, h))
           | _ \<Rightarrow> Inl decodeErr)
      | _ \<Rightarrow> Inl decodeErr)"

text \<open>A reply without result and error makes the code follow a nil pointer.\<close>

definition signRawTransactionWithWallet :: "node \<Rightarrow> string \<Rightarrow> string rpc" where
  "signRawTransactionWithWallet N rawTx =
     bindE (SendRequestToNode N ''signrawtransactionwithwallet'' [JStr rawTx]) (\<lambda>j.
     bindE (liftE (decode_response decode_signed j)) (\<lambda>r.
       case r of None \<Rightarrow> panicE ''nil pointer dereference'' | Some (_, h) \<Rightarrow> returnE h))"

definition sendRawTransaction :: "node \<Rightarrow> string \<Rightarrow> string rpc" where
  "sendRawTransaction N rawTx = string_request N ''sendrawtransaction'' [JStr rawTx]"

definition SendWithFixedFee ::
  "'d decimal_api \<Rightarrow> node \<Rightarrow> string \<Rightarrow> BTCAmount \<Rightarrow> BTCAmount \<Rightarrow> bool \<Rightarrow> string rpc" where
  "SendWithFixedFee D N address amount fee recipientPaysFee =
     (if recipientPaysFee \<and> amount < fee
      then failE (GoError ''Error: Recipient should pay fee, but amount sent is less'')
      else
        (let amount' = (if recipientPaysFee then amount else amount + fee) in
         bindE (createRawTransaction N [] [(address, BTCAmount_ToBTC D amount')]) (\<lambda>rawTx.
         bindE (fundRawTransaction N rawTx (btcutil_ToBTC N MinimalFeeRate)) (\<lambda>funded.
           case funded of
             None \<Rightarrow> panicE ''nil pointer dereference''
           | Some rawTxFunded \<Rightarrow>
               bindE (transformTxToSetFixedFee N rawTxFunded address fee) (\<lambda>transformedTx.
               bindE (encodeTransformedTransaction N transformedTx) (\<lambda>transformedTxEncoded.
               bindE (signRawTransactionWithWallet N transformedTxEncoded) (\<lambda>signedTx.
               sendRawTransaction N signedTx)))))))"

subsection \<open>Addresses and balances\<close>

definition decode_AddressInfo :: "json \<Rightarrow> go_error + AddressInfo option" where
  "decode_AddressInfo j =
     (case j of
        JNull \<Rightarrow> Inr None
      | JObj _ \<Rightarrow>
          (case decode_bool (member ''ismine'' j) of
             Inl e \<Rightarrow> Inl e
           | Inr b \<Rightarrow> Inr (Some \<lparr>IsMine = b\<rparr>))
      | _ \<Rightarrow> Inl decodeErr)"

definition GetAddressInfo :: "node \<Rightarrow> string \<Rightarrow> AddressInfo option rpc" where
  "GetAddressInfo N address =
     bindE (SendRequestToNode N ''getaddressinfo'' [JStr address])
       (\<lambda>j. liftE (decode_response decode_AddressInfo j))"

definition getBalance :: "node \<Rightarrow> uint64 rpc" where
  "getBalance N = answer (node_GetBalance N) (ClientCall ''getbalance'' [JStr ''*''])"

fun decode_float_ptr :: "json \<Rightarrow> go_error + float64 option" where
  "decode_float_ptr JNull = Inr None"
| "decode_float_ptr (JNum s) = Inr (Some s)"
| "decode_float_ptr _ = Inl decodeErr"

definition getUnconfirmedBalance :: "node \<Rightarrow> uint64 rpc" where
  "getUnconfirmedBalance N =
     bindE (SendRequestToNode N ''getunconfirmedbalance'' []) (\<lambda>j.
     bindE (liftE (decode_response decode_float_ptr j)) (\<lambda>r.
       case r of
         None \<Rightarrow> panicE ''nil pointer dereference''
       | Some f \<Rightarrow> liftE (btcutil_NewAmount N f)))"

definition GetConfirmedAndUnconfirmedBalance :: "node \<Rightarrow> (uint64 \<times> uint64) rpc" where
  "GetConfirmedAndUnconfirmedBalance N =
     bindE (getBalance N) (\<lambda>confirmedBalance.
     bindE (getUnconfirmedBalance N) (\<lambda>unconfirmedBalance.
     returnE (confirmedBalance, unconfirmedBalance)))"

end
