(* ===== verification/NodeFees.thy ===== *)
theory NodeFees
  imports NodeRPC Frame
begin

text \<open>
  What the client asks of the Bitcoin node: the fee that \<open>SendWithFixedFee\<close> sets, and that
  a payment is broadcast at most once per call.
\<close>

subsection \<open>Inversion\<close>

lemma liftE_Ok: "liftE r h = (Ok x, h') \<longleftrightarrow> r = Inr x \<and> h' = h"
  by (auto simp: liftE_def split: sum.splits)

lemma answer_Ok: "answer f r h = (Ok x, h') \<longleftrightarrow> f (r # h) = Inr x \<and> h' = r # h"
  by (auto simp: answer_def split: sum.splits)

lemma string_request_Ok:
  "string_request N m ps h = (Ok x, h') \<Longrightarrow> h' = jsonRPCRequest m ps # h"
  by (auto simp: string_request_def bindE_is_Ok SendRequestToNode_def answer_Ok liftE_Ok)

lemma transformTx_Ok:
  assumes "transformTxToSetFixedFee N funded address fee h = (Ok tx', h')"
  obtains tx autoFee where "btcutil_NewAmount N (fund_Fee funded) = Inr autoFee"
    "set_recipient_fee N tx (Changepos funded) autoFee address fee = Inr tx'"
    "\<exists>h. node_DecodeRawTransaction N h = Inr tx"
proof (cases "decodeRawTransaction N (fund_Hex funded) h")
  case (Pair r h1)
  with assms that show thesis
    by (cases r) (auto simp: transformTxToSetFixedFee_def catchE_def go_simps liftE_Ok
        decodeRawTransaction_def answer_def split: sum.splits)
qed

subsection \<open>The fee\<close>

text \<open>The value of an output in satoshi.\<close>

definition out_amount :: "node \<Rightarrow> Vout \<Rightarrow> uint64" where
  "out_amount N out = (case btcutil_NewAmount N (out_Value out) of Inl _ \<Rightarrow> 0 | Inr a \<Rightarrow> a)"

text \<open>
  Documented behaviour of \<open>btcutil\<close>: an amount up to the number of satoshi that can exist
  is recovered from its value in bitcoins.
\<close>

definition btcutil_ok :: "node \<Rightarrow> bool" where
  "btcutil_ok N \<longleftrightarrow> (\<forall>a. unat a \<le> 2100000000000000 \<longrightarrow> btcutil_NewAmount N (btcutil_ToBTC N a) = Inr a)"

lemma set_recipient_fee_cases:
  assumes "set_recipient_fee N tx pos autoFee address fee = Inr tx'"
  obtains k a where "k < length (VoutOf tx)" "btcutil_NewAmount N (out_Value (VoutOf tx ! k)) = Inr a"
    "out_Addresses (VoutOf tx ! k) = [address]" "fst (recipient_place pos) = k"
    "tx' = tx\<lparr>VoutOf := (VoutOf tx)[k := (VoutOf tx ! k)\<lparr>out_Value := btcutil_ToBTC N (a - fee + autoFee)\<rparr>]\<rparr>"
proof -
  obtain k n where p: "recipient_place pos = (k, n)" by (metis surj_pair)
  from p have "k < n" by (auto simp: recipient_place_def split: if_splits)
  with assms p that [of k] show thesis
    by (auto simp: set_recipient_fee_def Let_def length_Suc_conv split: if_splits sum.splits)
qed

lemma sum_list_update_word:
  "k < length xs \<Longrightarrow> sum_list (map f (xs[k := x])) = sum_list (map f xs) + f x - f (xs ! k)"
  for f :: "'a \<Rightarrow> 'b::len word"
proof (induction xs arbitrary: k)
  case (Cons y ys)
  then show ?case by (cases k) (auto simp: algebra_simps)
qed simp

text \<open>
  The fixed fee is exact. The transformation changes the recipient's output only, and
  what the outputs add up to changes from the sum under the node's automatic fee to the sum
  under the fixed fee: the transaction pays the given fee, no more and no less.
\<close>

theorem fixed_fee_exact:
  assumes "btcutil_ok N" and "set_recipient_fee N tx pos autoFee address fee = Inr tx'"
    and "unat (out_amount N (VoutOf tx ! fst (recipient_place pos)) - fee + autoFee) \<le> 2100000000000000"
  shows "sum_list (map (out_amount N) (VoutOf tx')) = sum_list (map (out_amount N) (VoutOf tx)) + autoFee - fee
    \<and> map out_Addresses (VoutOf tx') = map out_Addresses (VoutOf tx) \<and> Vin tx' = Vin tx"
  using assms(2)
proof (rule set_recipient_fee_cases)
  fix k a
  assume k: "k < length (VoutOf tx)" "btcutil_NewAmount N (out_Value (VoutOf tx ! k)) = Inr a"
    "out_Addresses (VoutOf tx ! k) = [address]" "fst (recipient_place pos) = k"
    "tx' = tx\<lparr>VoutOf := (VoutOf tx)[k := (VoutOf tx ! k)\<lparr>out_Value := btcutil_ToBTC N (a - fee + autoFee)\<rparr>]\<rparr>"
  have a: "out_amount N (VoutOf tx ! k) = a" using k(2) by (simp add: out_amount_def)
  with assms(1,3) k(4) have "btcutil_NewAmount N (btcutil_ToBTC N (a - fee + autoFee)) = Inr (a - fee + autoFee)"
    unfolding btcutil_ok_def by blast
  then have "out_amount N ((VoutOf tx ! k)\<lparr>out_Value := btcutil_ToBTC N (a - fee + autoFee)\<rparr>) = a - fee + autoFee"
    by (simp add: out_amount_def)
  with a sum_list_update_word [OF k(1), of "out_amount N"] k(5)
  have "sum_list (map (out_amount N) (VoutOf tx')) = sum_list (map (out_amount N) (VoutOf tx)) + autoFee - fee"
    by (simp add: map_update [symmetric] del: map_update)
  with k show ?thesis by (simp add: map_update list_update_same_conv)
qed

definition example_node :: node where
  "example_node =
     \<lparr>node_http = (\<lambda>h. case h of
        jsonRPCRequest m _ # _ \<Rightarrow>
          (if m = ''fundrawtransaction''
           then Inr (JObj [(''result'', JObj [(''changepos'', JNum ''0''), (''fee'', JNum ''3''), (''hex'', JStr ''00'')])])
           else if m = ''signrawtransactionwithwallet''
           then Inr (JObj [(''result'', JObj [(''complete'', JBool True), (''hex'', JStr ''01'')])])
           else Inr (JObj [(''result'', JStr ''ok'')]))
        | _ \<Rightarrow> Inl decodeErr),
      node_SetTxFee = (\<lambda>_. None), node_GetBalance = (\<lambda>_. Inr 0),
      node_ListSinceBlock = (\<lambda>_. Inr ([], [])), node_GetTransaction = (\<lambda>_. Inl decodeErr),
      node_DecodeRawTransaction = (\<lambda>_. Inr \<lparr>Vin = [\<lparr>in_Txid = ''in'', in_Vout = 0\<rparr>],
         VoutOf = [\<lparr>out_Value = ''40'', out_Addresses = [''change'']\<rparr>,
                   \<lparr>out_Value = ''97'', out_Addresses = [''dest'']\<rparr>]\<rparr>),
      chainhash_NewHashFromStr = Inr, btcutil_ToBTC = FormatUint, btcutil_NewAmount = ParseUint\<rparr>"

definition example_raw :: TxRawResult where
  "example_raw = \<lparr>Vin = [], VoutOf = [\<lparr>out_Value = ''97'', out_Addresses = [''dest'']\<rparr>]\<rparr>"

theorem fixed_fee_exact_witness:
  "sum_list (map (out_amount example_node)
     (VoutOf (example_raw\<lparr>VoutOf := [\<lparr>out_Value = ''95'', out_Addresses = [''dest'']\<rparr>]\<rparr>))) =
   sum_list (map (out_amount example_node) (VoutOf example_raw)) + 3 - 5"
proof -
  have "btcutil_ok example_node" by (simp add: btcutil_ok_def example_node_def)
  moreover have "set_recipient_fee example_node example_raw (- 1) 3 ''dest'' 5 =
      Inr (example_raw\<lparr>VoutOf := [\<lparr>out_Value = ''95'', out_Addresses = [''dest'']\<rparr>]\<rparr>)" by code_simp
  moreover have "out_amount example_node (VoutOf example_raw ! fst (recipient_place (- 1))) - 5 + 3 = 95"
    by code_simp
  ultimately show ?thesis
    using fixed_fee_exact [of example_node example_raw "- 1" 3 "''dest''" 5] by simp
qed

subsection \<open>The payment that is broadcast\<close>

lemma map_of_filter_other: "a \<noteq> b \<Longrightarrow> map_of (filter (\<lambda>(x, _). x \<noteq> b) acc) a = map_of acc a"
  by (induction acc) auto

lemma map_of_filter_own: "map_of (filter (\<lambda>(x, _). x \<noteq> b) acc) b = None"
  by (induction acc) auto

lemma final_outputs_other:
  "final_outputs outs acc = Inr res \<Longrightarrow> [a] \<notin> out_Addresses ` set outs \<Longrightarrow> map_of res a = map_of acc a"
proof (induction outs acc rule: final_outputs.induct)
  case (2 out outs acc)
  then obtain b where b: "out_Addresses out = [b]" by (auto simp: length_Suc_conv split: if_splits)
  with 2 have "a \<noteq> b" by auto
  with 2 b show ?case by (auto simp: map_add_def map_of_filter_other split: option.splits)
qed simp

lemma final_outputs_own:
  "final_outputs outs acc = Inr res \<Longrightarrow> distinct (map out_Addresses outs) \<Longrightarrow> out \<in> set outs \<Longrightarrow>
     out_Addresses out = [a] \<Longrightarrow> map_of res a = Some (out_Value out)"
proof (induction outs acc rule: final_outputs.induct)
  case (2 o1 outs acc)
  then obtain b where b: "out_Addresses o1 = [b]" by (auto simp: length_Suc_conv split: if_splits)
  show ?case
  proof (cases "out = o1")
    case True
    with 2 b have "[a] \<notin> out_Addresses ` set outs" "a = b" by auto
    with 2 b True show ?thesis by (auto simp: final_outputs_other map_of_filter_own map_add_def)
  qed (use 2 b in auto)
qed simp

text \<open>
  The output that \<open>set_recipient_fee\<close> rewrites is the recipient's entry of the outputs that are
  encoded again.
\<close>

lemma recipient_paid:
  assumes set: "set_recipient_fee N tx pos autoFee address fee = Inr tx'"
    and outs: "final_outputs (VoutOf tx') [] = Inr outs"
    and dist: "distinct (map out_Addresses (VoutOf tx))"
    and paid: "\<And>out. out \<in> set (VoutOf tx) \<Longrightarrow> out_Addresses out = [address] \<Longrightarrow>
        btcutil_NewAmount N (out_Value out) = Inr (amount - autoFee)"
  shows "map_of outs address = Some (btcutil_ToBTC N (amount - fee))"
  using set
proof (rule set_recipient_fee_cases)
  fix k a
  let ?out = "(VoutOf tx ! k)\<lparr>out_Value := btcutil_ToBTC N (a - fee + autoFee)\<rparr>"
  assume k: "k < length (VoutOf tx)" "btcutil_NewAmount N (out_Value (VoutOf tx ! k)) = Inr a"
    "out_Addresses (VoutOf tx ! k) = [address]" "tx' = tx\<lparr>VoutOf := (VoutOf tx)[k := ?out]\<rparr>"
  from paid [of "VoutOf tx ! k"] k have "a = amount - autoFee" by auto
  then have v: "out_Value ?out = btcutil_ToBTC N (amount - fee)" by simp
  have "?out \<in> set (VoutOf tx')" using k by (simp add: set_update_memI)
  moreover have "map out_Addresses (VoutOf tx') = map out_Addresses (VoutOf tx)"
    unfolding k(4) by (simp add: map_update k(1) list_update_same_conv)
  with dist have "distinct (map out_Addresses (VoutOf tx'))" by metis
  ultimately show ?thesis using final_outputs_own [OF outs] k(3) v by auto
qed

text \<open>A successful call of \<open>SendWithFixedFee\<close>, step by step.\<close>

lemma SendWithFixedFee_Ok:
  assumes "SendWithFixedFee D N address amount fee True h = (Ok txid, h')"
  obtains rawTx funded h1 j tx autoFee tx' outs enc signed h2 where
    "fee \<le> amount"
    "node_http N (jsonRPCRequest ''fundrawtransaction'' [JStr rawTx,
        JObj [(''changePosition'', JNum ''0''), (''feeRate'', JNum (btcutil_ToBTC N MinimalFeeRate)),
              (''subtractFeeFromOutputs'', JArr [JNum ''0''])]] # h1) = Inr j"
    "decode_response decode_funded j = Inr (Some funded)"
    "btcutil_NewAmount N (fund_Fee funded) = Inr autoFee"
    "\<exists>h. node_DecodeRawTransaction N h = Inr tx"
    "set_recipient_fee N tx (Changepos funded) autoFee address fee = Inr tx'"
    "final_outputs (VoutOf tx') [] = Inr outs"
    "h' = jsonRPCRequest ''sendrawtransaction'' [JStr signed] #
      jsonRPCRequest ''signrawtransactionwithwallet'' [JStr enc] #
      jsonRPCRequest ''createrawtransaction''
        [JArr (map (\<lambda>i. JObj [(''txid'', JStr (in_Txid i)), (''vout'', JNum (Itoa (int (in_Vout i))))]) (Vin tx')),
         JObj (map (\<lambda>(a, v). (a, JNum v)) outs)] # h2"
proof -
  let ?fr = "btcutil_ToBTC N MinimalFeeRate"
  from assms have nl: "\<not> amount < fee" by (auto simp: SendWithFixedFee_def go_simps)
  then have le: "fee \<le> amount" by simp
  from assms nl obtain rawTx h1 funded h2 tx' h3 enc h4 signed h5 where
    1: "createRawTransaction N [] [(address, BTCAmount_ToBTC D amount)] h = (Ok rawTx, h1)" and
    2: "fundRawTransaction N rawTx ?fr h1 = (Ok (Some funded), h2)" and
    3: "transformTxToSetFixedFee N funded address fee h2 = (Ok tx', h3)" and
    4: "encodeTransformedTransaction N tx' h3 = (Ok enc, h4)" and
    5: "signRawTransactionWithWallet N enc h4 = (Ok signed, h5)" and
    6: "sendRawTransaction N signed h5 = (Ok txid, h')"
    unfolding SendWithFixedFee_def by (auto simp: Let_def bindE_is_Ok go_simps split: option.splits)
  from 2 obtain j where j: "node_http N (jsonRPCRequest ''fundrawtransaction'' [JStr rawTx,
        JObj [(''changePosition'', JNum ''0''), (''feeRate'', JNum ?fr),
              (''subtractFeeFromOutputs'', JArr [JNum ''0''])]] # h1) = Inr j"
    "decode_response decode_funded j = Inr (Some funded)"
    by (auto simp: fundRawTransaction_def bindE_is_Ok SendRequestToNode_def answer_Ok liftE_Ok)
  from 3 obtain tx autoFee where t: "btcutil_NewAmount N (fund_Fee funded) = Inr autoFee"
    "set_recipient_fee N tx (Changepos funded) autoFee address fee = Inr tx'"
    "\<exists>h. node_DecodeRawTransaction N h = Inr tx"
    by (rule transformTx_Ok)
  from 4 obtain outs where o: "final_outputs (VoutOf tx') [] = Inr outs"
    and h4: "h4 = jsonRPCRequest ''createrawtransaction''
        [JArr (map (\<lambda>i. JObj [(''txid'', JStr (in_Txid i)), (''vout'', JNum (Itoa (int (in_Vout i))))]) (Vin tx')),
         JObj (map (\<lambda>(a, v). (a, JNum v)) outs)] # h3"
    by (auto simp: encodeTransformedTransaction_def bindE_is_Ok liftE_Ok createRawTransaction_def comp_def
        dest!: string_request_Ok)
  from 5 have h5: "h5 = jsonRPCRequest ''signrawtransactionwithwallet'' [JStr enc] # h4"
    by (auto simp: signRawTransactionWithWallet_def bindE_is_Ok SendRequestToNode_def answer_Ok liftE_Ok
        go_simps split: option.splits)
  from 6 have "h' = jsonRPCRequest ''sendrawtransaction'' [JStr signed] # h5"
    by (auto simp: sendRawTransaction_def dest!: string_request_Ok)
  with le j t o h4 h5 that show thesis by blast
qed



subsection \<open>One broadcast per call\<close>

fun broadcast :: "rpc_request \<Rightarrow> bool" where
  "broadcast (jsonRPCRequest m _) \<longleftrightarrow> m = ''sendrawtransaction'' \<or> m = ''sendtoaddress'' \<or> m = ''sendmany''"
| "broadcast _ \<longleftrightarrow> False"

definition broadcasts :: "rpc_log \<Rightarrow> nat" where
  "broadcasts h = length (filter broadcast h)"

definition offline :: "rpc_log \<Rightarrow> rpc_log \<Rightarrow> bool" where
  "offline h h' \<longleftrightarrow> broadcasts h' = broadcasts h"

interpretation offline: step_relation offline
  by unfold_locales (auto simp: offline_def)

lemma offline_basic [keeps_intros]:
  "\<not> broadcast r \<Longrightarrow> keeps offline (answer f r)" "keeps offline (liftE x)"
  by (rule keepsI, auto simp: answer_def liftE_def offline_def broadcasts_def split: sum.splits)+

lemma offline_parts [keeps_intros]:
  "keeps offline (createRawTransaction N ins outs)" "keeps offline (fundRawTransaction N raw rate)"
  "keeps offline (decodeRawTransaction N raw)" "keeps offline (signRawTransactionWithWallet N raw)"
  "keeps offline (SetTxFee N fee)"
  unfolding createRawTransaction_def fundRawTransaction_def decodeRawTransaction_def
    signRawTransactionWithWallet_def SetTxFee_def string_request_def SendRequestToNode_def
  by (intro keeps_intros; simp)+

lemma offline_tx [keeps_intros]:
  "keeps offline (transformTxToSetFixedFee N funded address fee)"
  "keeps offline (encodeTransformedTransaction N tx)"
  unfolding transformTxToSetFixedFee_def encodeTransformedTransaction_def by (intro keeps_intros)+

text \<open>At most one broadcast, and exactly one if the call succeeds.\<close>

definition one_payment :: "string rpc \<Rightarrow> bool" where
  "one_payment m \<longleftrightarrow> (\<forall>h r h'. m h = (r, h') \<longrightarrow> broadcasts h' \<le> broadcasts h + 1 \<and>
     (is_ok r \<longrightarrow> broadcasts h' = broadcasts h + 1))"

lemma one_payment_request: "broadcast (jsonRPCRequest m ps) \<Longrightarrow> one_payment (string_request N m ps)"
  by (auto simp: one_payment_def string_request_def bindE_def SendRequestToNode_def answer_def liftE_def
      broadcasts_def split: sum.splits)

lemma one_payment_bind:
  assumes "keeps offline m" "\<And>x. one_payment (f x)"
  shows "one_payment (bindE m f)"
  unfolding one_payment_def
proof (intro allI impI)
  fix h r h'
  assume run: "bindE m f h = (r, h')"
  obtain r1 h1 where 1: "m h = (r1, h1)" by (metis surj_pair)
  have "broadcasts h1 = broadcasts h" using keepsD [OF assms(1) 1] by (simp add: offline_def)
  moreover have "\<exists>x. f x h1 = (r, h')" if "r1 = Ok y" for y using run 1 that by (auto simp: bindE_def)
  moreover have "h' = h1 \<and> \<not> is_ok r" if "\<not> is_ok r1" using run 1 that by (cases r1) (auto simp: bindE_def)
  ultimately show "broadcasts h' \<le> broadcasts h + 1 \<and> (is_ok r \<longrightarrow> broadcasts h' = broadcasts h + 1)"
    using assms(2) by (cases r1) (auto simp: one_payment_def, metis+)
qed

lemma one_payment_none: "one_payment (failE e)" "one_payment (panicE p)"
  by (simp_all add: one_payment_def go_simps)

text \<open>
  A payment is broadcast at most once. Whatever the node answers, one call of
  \<open>SendWithFixedFee\<close> makes at most one request that broadcasts a transaction, and it reports
  success only if it made one.
\<close>

theorem SendWithFixedFee_once:
  assumes "SendWithFixedFee D N address amount fee recipientPaysFee h = (r, h')"
  shows "broadcasts h' \<le> broadcasts h + 1 \<and> (is_ok r \<longrightarrow> broadcasts h' = broadcasts h + 1)"
proof -
  have "one_payment (SendWithFixedFee D N address amount fee recipientPaysFee)"
    unfolding SendWithFixedFee_def sendRawTransaction_def Let_def
    by (auto intro!: one_payment_bind one_payment_none one_payment_request keeps_intros split: option.splits)
  with assms show ?thesis by (simp add: one_payment_def)
qed

theorem SendWithFixedFee_once_witness:
  "broadcasts (snd (SendWithFixedFee example_decimal example_node ''dest'' 100 5 True [])) = broadcasts [] + 1"
proof -
  let ?run = "SendWithFixedFee example_decimal example_node ''dest'' 100 5 True []"
  have "is_ok (fst ?run)" by code_simp
  moreover have "?run = (fst ?run, snd ?run)" by simp
  ultimately show ?thesis using SendWithFixedFee_once by metis
qed

text \<open>
  The same for a fee per kilobyte: exactly one broadcast, made after the fee rate was
  set, and none if setting it failed.
\<close>

theorem SendWithPerKBFee_once:
  "(case SendWithPerKBFee N address amount fee recipientPaysFee h of (r, h') \<Rightarrow>
     (case node_SetTxFee N (ClientCall ''settxfee'' [JNum (btcutil_ToBTC N fee)] # h) of
        Some e \<Rightarrow> r = Error e \<and> broadcasts h' = broadcasts h
      | None \<Rightarrow> h' = jsonRPCRequest ''sendtoaddress'' [JStr address, JNum (btcutil_ToBTC N amount), JStr [],
                   JStr [], JBool recipientPaysFee] #
                 ClientCall ''settxfee'' [JNum (btcutil_ToBTC N fee)] # h))"
  by (auto simp: SendWithPerKBFee_def SetTxFee_def sendToAddress_def string_request_def bindE_def
      SendRequestToNode_def answer_def liftE_def broadcasts_def split: option.splits sum.splits)

end
