(* ===== verification/WalletMemory.thy ===== *)
theory WalletMemory
  imports TxView Example
begin

text \<open>
  \<open>InMemoryWalletStorage\<close> (\<open>wallet/memorystorage.go\<close>), and the contract of the interface
  \<open>Storage\<close> (\<open>wallet/storage.go\<close>) that it shares with \<open>PostgresWalletStorage\<close>.

  The storage holds pointers to transactions, which its callers keep and write through. The
  field \<open>objects\<close> is the part of the Go heap with the transactions; a pointer is a position in
  it.

  \<open>ims_db\<close> reads such a storage as a database, so that both storages are seen through the same
  view \<open>core\<close>. The locale \<open>transaction_store\<close> states what a store does to this view; both
  storages are interpretations.
\<close>

subsection \<open>The storage\<close>

record InMemoryWalletStorage =
  objects :: "Transaction list"
  ims_lastSeenBlockHash :: string
  ims_accounts :: "Account list"
  ims_transactions :: "nat list"
  ims_hotWalletAddress :: string
  ims_moneyRequiredFromColdStorage :: uint64
  ims_walletOperationLock :: string
  ims_hotWalletAddressWasSet :: bool

definition newInMemoryWalletStorage :: "Transaction list \<Rightarrow> InMemoryWalletStorage" where
  "newInMemoryWalletStorage objs =
     \<lparr>objects = objs, ims_lastSeenBlockHash = [], ims_accounts = [], ims_transactions = [],
      ims_hotWalletAddress = [], ims_moneyRequiredFromColdStorage = 0,
      ims_walletOperationLock = [], ims_hotWalletAddressWasSet = False\<rparr>"

definition deref :: "InMemoryWalletStorage \<Rightarrow> nat \<Rightarrow> Transaction" where
  "deref s p = objects s ! p"

definition assign :: "nat \<Rightarrow> Transaction \<Rightarrow> InMemoryWalletStorage \<Rightarrow> InMemoryWalletStorage" where
  "assign p tx s = s\<lparr>objects := (objects s)[p := tx]\<rparr>"

definition ims_GetLastSeenBlockHash :: "InMemoryWalletStorage \<Rightarrow> string" where
  "ims_GetLastSeenBlockHash s = ims_lastSeenBlockHash s"

definition ims_SetLastSeenBlockHash :: "string \<Rightarrow> InMemoryWalletStorage \<Rightarrow> InMemoryWalletStorage" where
  "ims_SetLastSeenBlockHash hash s = s\<lparr>ims_lastSeenBlockHash := hash\<rparr>"

definition ims_GetMoneyRequiredFromColdStorage :: "InMemoryWalletStorage \<Rightarrow> uint64" where
  "ims_GetMoneyRequiredFromColdStorage s = ims_moneyRequiredFromColdStorage s"

definition ims_SetMoneyRequiredFromColdStorage :: "uint64 \<Rightarrow> InMemoryWalletStorage \<Rightarrow> InMemoryWalletStorage" where
  "ims_SetMoneyRequiredFromColdStorage amount s = s\<lparr>ims_moneyRequiredFromColdStorage := amount\<rparr>"

definition ims_GetTransactionByHash :: "string \<Rightarrow> InMemoryWalletStorage \<Rightarrow> go_error + nat" where
  "ims_GetTransactionByHash hash s =
     (case find (\<lambda>p. Hash (deref s p) = hash) (ims_transactions s) of
        Some p \<Rightarrow> Inr p | None \<Rightarrow> Inl (GoError ''Transaction with hash not found''))"

definition ims_GetTransactionByID :: "uuid \<Rightarrow> InMemoryWalletStorage \<Rightarrow> go_error + nat" where
  "ims_GetTransactionByID i s =
     (case find (\<lambda>p. ID (deref s p) = i) (ims_transactions s) of
        Some p \<Rightarrow> Inr p | None \<Rightarrow> Inl (ErrNoTxWithSuchID i))"

definition ims_GetTransactionByHashDirectionAndAddress :: "Transaction \<Rightarrow> InMemoryWalletStorage \<Rightarrow> go_error + nat" where
  "ims_GetTransactionByHashDirectionAndAddress tx s =
     (case find (\<lambda>p. Hash (deref s p) = Hash tx \<and> Direction (deref s p) = Direction tx \<and>
                      Address (deref s p) = Address tx) (ims_transactions s) of
        Some p \<Rightarrow> Inr p | None \<Rightarrow> Inl ErrNoTxWithSuchTxHashAndDirection)"

text \<open>The transaction that a store finds, as in \<open>PostgresWalletStorage\<close>.\<close>

definition ims_existing :: "Transaction \<Rightarrow> InMemoryWalletStorage \<Rightarrow> nat option" where
  "ims_existing tx s =
     (case (if ID tx \<noteq> uuid_Nil then ims_GetTransactionByID (ID tx) s else Inl (ErrNoTxWithSuchID (ID tx))) of
        Inr p \<Rightarrow> Some p
      | Inl _ \<Rightarrow>
          if Hash tx \<noteq> []
          then (case ims_GetTransactionByHashDirectionAndAddress tx s of Inr p \<Rightarrow> Some p | Inl _ \<Rightarrow> None)
          else None)"

text \<open>\<open>newID\<close> is what \<open>uuid.NewV4\<close> returns if it is called.\<close>

definition ims_StoreTransaction ::
  "uuid \<Rightarrow> nat \<Rightarrow> InMemoryWalletStorage \<Rightarrow> nat res \<times> InMemoryWalletStorage" where
  "ims_StoreTransaction newID p s =
     (let tx = deref s p in
      case ims_existing tx s of
        Some q \<Rightarrow>
          (case Transaction_Update (deref s q) tx of
             Ok t \<Rightarrow> (Ok q, assign q t s)
           | Error e \<Rightarrow> (Error e, s)
           | Panic m \<Rightarrow> (Panic m, s))
      | None \<Rightarrow>
          (let s1 = (if ID tx = uuid_Nil then assign p (tx\<lparr>ID := newID\<rparr>) s else s)
           in (Ok p, s1\<lparr>ims_transactions := ims_transactions s1 @ [p]\<rparr>)))"

definition ims_GetAccountByAddress :: "string \<Rightarrow> InMemoryWalletStorage \<Rightarrow> Account option" where
  "ims_GetAccountByAddress address s = find (\<lambda>a. acc_Address a = address) (ims_accounts s)"

definition ims_StoreAccount :: "Account \<Rightarrow> InMemoryWalletStorage \<Rightarrow> InMemoryWalletStorage" where
  "ims_StoreAccount account s = s\<lparr>ims_accounts := ims_accounts s @ [account]\<rparr>"

definition ims_GetBroadcastedTransactionsWithLessConfirmations :: "int \<Rightarrow> InMemoryWalletStorage \<Rightarrow> nat list" where
  "ims_GetBroadcastedTransactionsWithLessConfirmations confirmations s =
     filter (\<lambda>p. Hash (deref s p) \<noteq> [] \<and> ReportedConfirmations (deref s p) < confirmations)
       (ims_transactions s)"

definition ims_updateReportedConfirmations ::
  "nat \<Rightarrow> int \<Rightarrow> InMemoryWalletStorage \<Rightarrow> unit res \<times> InMemoryWalletStorage" where
  "ims_updateReportedConfirmations p reportedConfirmations s =
     (case ims_GetTransactionByID (ID (deref s p)) s of
        Inl e \<Rightarrow> (Error e, s)
      | Inr q \<Rightarrow> (Ok (), assign q ((deref s q)\<lparr>ReportedConfirmations := reportedConfirmations\<rparr>) s))"

definition ims_GetHotWalletAddress :: "InMemoryWalletStorage \<Rightarrow> go_error + string" where
  "ims_GetHotWalletAddress s =
     (if ims_hotWalletAddress s = [] \<and> \<not> ims_hotWalletAddressWasSet s
      then Inl ErrHotWalletAddressNotGeneratedYet else Inr (ims_hotWalletAddress s))"

definition ims_setHotWalletAddress :: "string \<Rightarrow> InMemoryWalletStorage \<Rightarrow> InMemoryWalletStorage" where
  "ims_setHotWalletAddress address s =
     s\<lparr>ims_hotWalletAddress := address, ims_hotWalletAddressWasSet := True\<rparr>"

definition ims_GetPendingTransactions :: "InMemoryWalletStorage \<Rightarrow> nat list" where
  "ims_GetPendingTransactions s =
     filter (\<lambda>p. Status (deref s p) = PendingTransaction \<or>
                  Status (deref s p) = PendingColdStorageTransaction) (ims_transactions s)"

definition ims_GetTransactionsWithFilter :: "string \<Rightarrow> string \<Rightarrow> InMemoryWalletStorage \<Rightarrow> nat list" where
  "ims_GetTransactionsWithFilter directionFilter statusFilter s =
     filter (\<lambda>p. \<not> (directionFilter \<noteq> [] \<and> directionFilter \<noteq> Direction_String (Direction (deref s p))) \<and>
                  \<not> (statusFilter \<noteq> [] \<and> statusFilter \<noteq> Status_String (Status (deref s p))))
       (ims_transactions s)"

definition ims_LockWallet :: "json \<Rightarrow> InMemoryWalletStorage \<Rightarrow> InMemoryWalletStorage" where
  "ims_LockWallet operation s = s\<lparr>ims_walletOperationLock := json_Marshal operation\<rparr>"

definition ims_ClearWallet :: "InMemoryWalletStorage \<Rightarrow> InMemoryWalletStorage" where
  "ims_ClearWallet s = s\<lparr>ims_walletOperationLock := []\<rparr>"

definition ims_CheckWalletLock :: "InMemoryWalletStorage \<Rightarrow> bool \<times> string" where
  "ims_CheckWalletLock s = (ims_walletOperationLock s = [], ims_walletOperationLock s)"

subsection \<open>The contract of a transaction store\<close>

text \<open>
  Seen as a map from identifiers to rows, a store either updates the row of the transaction
  (found by its identifier or by hash, direction and address) or adds one.
\<close>

definition found_at :: "Transaction \<Rightarrow> (uuid \<rightharpoonup> tx_row) \<Rightarrow> uuid \<Rightarrow> tx_row \<Rightarrow> bool" where
  "found_at tx v i c \<longleftrightarrow> v i = Some c \<and>
     (if ID tx \<noteq> uuid_Nil \<and> ID tx \<in> dom v then i = ID tx else Hash tx \<noteq> [] \<and> same_payment tx c)"

definition stores_spec :: "Transaction \<Rightarrow> (uuid \<rightharpoonup> tx_row) \<Rightarrow> uuid \<Rightarrow> (uuid \<rightharpoonup> tx_row) \<Rightarrow> bool" where
  "stores_spec tx v i v' \<longleftrightarrow>
     (\<exists>c. found_at tx v i c \<and> v' = v(i \<mapsto> update_core tx c)) \<or>
     ((\<forall>j c. \<not> found_at tx v j c) \<and> v i = None \<and> i \<noteq> uuid_Nil \<and> (ID tx \<noteq> uuid_Nil \<longrightarrow> i = ID tx) \<and>
      v' = v(i \<mapsto> core_row (row_of_tx (tx\<lparr>ID := i\<rparr>))))"

locale transaction_store =
  fixes inv :: "'s \<Rightarrow> bool"
    and view :: "'s \<Rightarrow> uuid \<rightharpoonup> tx_row"
    and stores :: "Transaction \<Rightarrow> 's \<Rightarrow> uuid \<Rightarrow> 's \<Rightarrow> bool"
  assumes refines: "inv s \<Longrightarrow> stores tx s i s' \<Longrightarrow> inv s' \<and> stores_spec tx (view s) i (view s')"
    and no_nil: "inv s \<Longrightarrow> view s uuid_Nil = None"
begin

lemma stored_not_nil: "inv s \<Longrightarrow> stores tx s i s' \<Longrightarrow> i \<noteq> uuid_Nil"
  using refines [of s tx i s'] no_nil [of s] by (auto simp: stores_spec_def found_at_def)

lemma lookup_stored:
  assumes "inv s" "stores tx s i s'"
  shows "\<exists>c. view s' i = Some c \<and> r_hash c = Hash tx \<and> r_status c = Status_String (Status tx) \<and>
    r_block_hash c = BlockHash tx \<and> r_confirmations c = Confirmations tx"
  using refines [OF assms] by (auto simp: stores_spec_def update_core_def row_of_tx_def core_row_def)

lemma others_kept: "inv s \<Longrightarrow> stores tx s i s' \<Longrightarrow> j \<noteq> i \<Longrightarrow> view s' j = view s j"
  using refines [of s tx i s'] by (auto simp: stores_spec_def)

lemma none_lost: "inv s \<Longrightarrow> stores tx s i s' \<Longrightarrow> dom (view s) \<subseteq> dom (view s')"
  using refines [of s tx i s'] by (fastforce simp: stores_spec_def dom_def)

text \<open>Storing a transaction again under the identifier it was given changes nothing.\<close>

lemma store_again:
  assumes "inv s" "stores tx s i s'" "stores (tx\<lparr>ID := i\<rparr>) s' j s''"
  shows "j = i \<and> view s'' = view s'"
proof -
  from lookup_stored [OF assms(1,2)] obtain c where c: "view s' i = Some c" "r_hash c = Hash tx"
    "r_status c = Status_String (Status tx)" "r_block_hash c = BlockHash tx" "r_confirmations c = Confirmations tx"
    by blast
  have "inv s'" using refines [OF assms(1,2)] by blast
  from refines [OF this assms(3)] have "stores_spec (tx\<lparr>ID := i\<rparr>) (view s') j (view s'')" by blast
  moreover have "found_at (tx\<lparr>ID := i\<rparr>) (view s') k d \<longleftrightarrow> k = i \<and> d = c" for k d
    using c stored_not_nil [OF assms(1,2)] by (auto simp: found_at_def)
  moreover have "update_core (tx\<lparr>ID := i\<rparr>) c = c" using c by (simp add: update_core_def)
  ultimately show ?thesis using c by (auto simp: stores_spec_def)
qed

end

lemma found_at_core:
  assumes "pk d"
  shows "found_at tx (core d) i c \<longleftrightarrow>
    (\<exists>r \<in> set (transactions_t d). matches tx d r \<and> i = r_id r \<and> c = core_row r)"
proof
  assume f: "found_at tx (core d) i c"
  then obtain r where "r \<in> set (transactions_t d)" "r_id r = i" "c = core_row r"
    by (auto simp: found_at_def dest: core_SomeD)
  with f show "\<exists>r \<in> set (transactions_t d). matches tx d r \<and> i = r_id r \<and> c = core_row r"
    by (auto simp: found_at_def matches_def dom_core same_payment_def intro!: bexI [of _ r])
next
  assume "\<exists>r \<in> set (transactions_t d). matches tx d r \<and> i = r_id r \<and> c = core_row r"
  then show "found_at tx (core d) i c" using core_lookup [OF assms]
    by (auto simp: found_at_def matches_def dom_core same_payment_def)
qed

lemma core_no_nil: "pk d \<Longrightarrow> core d uuid_Nil = None"
  by (metis domIff dom_core pk_def)

subsection \<open>The Postgres storage\<close>

definition pg_stores :: "Transaction \<Rightarrow> world \<Rightarrow> uuid \<Rightarrow> world \<Rightarrow> bool" where
  "pg_stores tx w i w' \<longleftrightarrow>
     (\<exists>E t tx'. uuid_ok E \<and> StoreTransaction E tx w = (Ok t, tx', w') \<and> ID t = i)"

interpretation pg_store: transaction_store "\<lambda>w. pk (db w)" "\<lambda>w. core (db w)" pg_stores
proof
  fix w tx i w'
  assume pk: "pk (db w)" and "pg_stores tx w i w'"
  then obtain E t tx' where run: "StoreTransaction E tx w = (Ok t, tx', w')" "uuid_ok E" "ID t = i"
    by (auto simp: pg_stores_def)
  from run(1) pk run(2) show "pk (db w') \<and> stores_spec tx (core (db w)) i (core (db w'))"
  proof (cases rule: StoreTransaction_Ok)
    case (updated r)
    then have "found_at tx (core (db w)) i (core_row r)" using run(3) by (auto simp: found_at_core [OF pk])
    with updated run(3) show ?thesis by (auto simp: stores_spec_def)
  next
    case inserted
    have "i \<in> set (ids (db w'))" using inserted(5,8) run(3) dom_core [of "db w'"] by auto
    then have "i \<noteq> uuid_Nil" using inserted(6) by (auto simp: pk_def)
    moreover have "core (db w) i = None" using inserted(4,8) run(3) by (metis domIff dom_core)
    ultimately show ?thesis using inserted run(3)
      unfolding stores_spec_def found_at_core [OF pk] by metis
  qed
qed (rule core_no_nil)

subsection \<open>The memory storage\<close>

definition ims_db :: "InMemoryWalletStorage \<Rightarrow> database" where
  "ims_db s =
     \<lparr>events_t = [], accounts_t = map (\<lambda>a. (acc_Address a, acc_Metainfo a)) (ims_accounts s),
      transactions_t = map (\<lambda>p. row_of_tx (deref s p)) (ims_transactions s),
      metadata_t = (\<lambda>_. None), muted_t = []\<rparr>"

definition ims_ok :: "InMemoryWalletStorage \<Rightarrow> bool" where
  "ims_ok s \<longleftrightarrow> pk (ims_db s) \<and> (\<forall>p \<in> set (ims_transactions s). p < length (objects s))"

definition mem_stores :: "Transaction \<Rightarrow> InMemoryWalletStorage \<Rightarrow> uuid \<Rightarrow> InMemoryWalletStorage \<Rightarrow> bool" where
  "mem_stores tx s i s' \<longleftrightarrow>
     (\<exists>p q newID. p < length (objects s) \<and> deref s p = tx \<and> newID \<noteq> uuid_Nil \<and>
        newID \<notin> set (ids (ims_db s)) \<and> ims_StoreTransaction newID p s = (Ok q, s') \<and> ID (deref s' q) = i)"

lemma r_id_row_of_tx [simp]: "r_id (row_of_tx tx) = ID tx"
  by (simp add: row_of_tx_def)

lemma transactions_ims: "transactions_t (ims_db s) = map (\<lambda>p. row_of_tx (deref s p)) (ims_transactions s)"
  by (simp add: ims_db_def)

lemma ids_ims: "ids (ims_db s) = map (\<lambda>p. ID (deref s p)) (ims_transactions s)"
  by (simp add: ids_def ims_db_def comp_def)

lemma ims_same_id:
  "ims_ok s \<Longrightarrow> p \<in> set (ims_transactions s) \<Longrightarrow> q \<in> set (ims_transactions s) \<Longrightarrow>
     ID (deref s p) = ID (deref s q) \<longleftrightarrow> p = q"
  by (auto simp: ims_ok_def pk_def ids_ims distinct_map dest: inj_onD)

lemma deref_assign:
  "deref (assign q t s) p = (if p = q \<and> q < length (objects s) then t else deref s p)"
  by (cases "q < length (objects s)") (auto simp: deref_def assign_def nth_list_update list_update_beyond)

lemma ims_transactions_assign [simp]:
  "ims_transactions (assign q t s) = ims_transactions s" "length (objects (assign q t s)) = length (objects s)"
  "ims_accounts (assign q t s) = ims_accounts s"
  by (simp_all add: assign_def)

lemma find_filter: "find Q xs = (case filter Q xs of [] \<Rightarrow> None | x # _ \<Rightarrow> Some x)"
  by (induction xs) auto

lemma matches_row_of_tx:
  "matches tx d (row_of_tx t) \<longleftrightarrow>
     (if ID tx \<noteq> uuid_Nil \<and> ID tx \<in> set (ids d) then ID t = ID tx
      else Hash tx \<noteq> [] \<and> Hash t = Hash tx \<and> Direction t = Direction tx \<and> Address t = Address tx)"
  by (auto simp: matches_def same_payment_def row_of_tx_def Direction_String_inject)

lemma ims_existing_Some:
  assumes "ims_existing tx s = Some q"
  shows "q \<in> set (ims_transactions s) \<and> matches tx (ims_db s) (row_of_tx (deref s q))"
proof (cases "ID tx \<noteq> uuid_Nil \<and> ID tx \<in> set (ids (ims_db s))")
  case True
  then obtain p where "find (\<lambda>p. ID (deref s p) = ID tx) (ims_transactions s) = Some p"
    by (cases "find (\<lambda>p. ID (deref s p) = ID tx) (ims_transactions s)") (auto simp: ids_ims find_None_iff)
  with assms True show ?thesis
    by (auto simp: ims_existing_def ims_GetTransactionByID_def matches_row_of_tx dest: find_SomeD)
next
  case False
  then have "ID tx = uuid_Nil \<or> find (\<lambda>p. ID (deref s p) = ID tx) (ims_transactions s) = None"
    unfolding ids_ims find_None_iff set_map by (metis image_eqI)
  with assms have "Hash tx \<noteq> []" "ims_GetTransactionByHashDirectionAndAddress tx s = Inr q"
    by (auto simp: ims_existing_def ims_GetTransactionByID_def split: if_splits sum.splits)
  with False show ?thesis
    by (auto simp: ims_GetTransactionByHashDirectionAndAddress_def matches_row_of_tx
        split: option.splits dest: find_SomeD)
qed

lemma ims_existing_None:
  assumes "ims_existing tx s = None"
  shows "(ID tx \<noteq> uuid_Nil \<longrightarrow> ID tx \<notin> set (ids (ims_db s))) \<and>
    (\<forall>p \<in> set (ims_transactions s). \<not> matches tx (ims_db s) (row_of_tx (deref s p)))"
proof -
  have "ID tx \<noteq> uuid_Nil \<longrightarrow> ID tx \<notin> set (ids (ims_db s))" using assms
    by (auto simp: ims_existing_def ims_GetTransactionByID_def ids_ims find_None_iff split: option.splits)
  moreover from this have "Hash tx = [] \<or> ims_GetTransactionByHashDirectionAndAddress tx s = Inl ErrNoTxWithSuchTxHashAndDirection"
    using assms by (auto simp: ims_existing_def ims_GetTransactionByID_def
        ims_GetTransactionByHashDirectionAndAddress_def split: sum.splits option.splits if_splits)
  ultimately show ?thesis
    by (auto simp: matches_row_of_tx ims_GetTransactionByHashDirectionAndAddress_def find_None_iff
        split: option.splits)
qed

lemma ims_db_update:
  assumes "ims_ok s" "q \<in> set (ims_transactions s)" "Transaction_Update (deref s q) tx = Ok t"
  shows "ims_db (assign q t s) =
    (ims_db s)\<lparr>transactions_t := map (update_row tx (ID (deref s q))) (transactions_t (ims_db s))\<rparr>"
proof -
  have "row_of_tx t = update_row tx (ID (deref s q)) (row_of_tx (deref s q))"
    using assms(3) by (auto simp: Transaction_Update_def update_row_def row_of_tx_def split: if_splits)
  moreover have "q < length (objects s)" using assms by (auto simp: ims_ok_def)
  ultimately show ?thesis using ims_same_id [OF assms(1) _ assms(2)]
    by (auto simp: ims_db_def deref_assign update_row_def)
qed

text \<open>The two cases of \<open>StoreTransaction\<close>: a transaction that is found is updated, any other is added.\<close>

lemma mem_store_found:
  assumes "ims_ok s" "ims_existing tx s = Some q'" "ims_StoreTransaction newID p s = (Ok q, s')"
    and "ID (deref s' q) = i" and tx: "tx = deref s p"
  shows "ims_ok s' \<and> stores_spec tx (core (ims_db s)) i (core (ims_db s'))"
proof -
  have pk: "pk (ims_db s)" using assms(1) by (simp add: ims_ok_def)
  from assms(2,3) tx obtain t where u: "Transaction_Update (deref s q) tx = Ok t" "s' = assign q t s" "q' = q"
    by (auto simp: ims_StoreTransaction_def split: res.splits)
  note q = ims_existing_Some [OF assms(2) [unfolded u(3)]]
  let ?r = "row_of_tx (deref s q)"
  have r: "?r \<in> set (transactions_t (ims_db s))" using q by (simp add: ims_db_def)
  have "ID (deref s' q) = ID (deref s q)"
    using Transaction_Update_Ok [OF u(1)] by (simp add: u(2) deref_assign)
  then have i': "i = r_id ?r" using assms(4) by simp
  note d = ims_db_update [OF assms(1) conjunct1 [OF q] u(1), folded u(2)]
  have "core (ims_db s') = (core (ims_db s))(i \<mapsto> update_core tx (core_row ?r))"
    using core_update [OF pk r, of tx] i' by (simp add: d)
  moreover have "ids (ims_db s') = ids (ims_db s)"
    by (simp add: d ids_def update_row_def comp_def if_distrib cong: if_cong)
  then have "pk (ims_db s')" using pk pk_same_ids by blast
  then have "ims_ok s'" using assms(1) by (simp add: ims_ok_def u(2))
  moreover have "found_at tx (core (ims_db s)) i (core_row ?r)"
    using q r i' by (auto simp: found_at_core [OF pk])
  ultimately show ?thesis unfolding stores_spec_def by blast
qed

lemma mem_store_new:
  assumes "ims_ok s" "ims_existing tx s = None" "ims_StoreTransaction newID p s = (Ok q, s')"
    and i: "ID (deref s' q) = i" and tx: "tx = deref s p"
    and p: "p < length (objects s)" "newID \<noteq> uuid_Nil" "newID \<notin> set (ids (ims_db s))"
  shows "ims_ok s' \<and> stores_spec tx (core (ims_db s)) i (core (ims_db s'))"
proof -
  have pk: "pk (ims_db s)" using assms(1) by (simp add: ims_ok_def)
  note none = ims_existing_None [OF assms(2)]
  define tx1 where "tx1 = tx\<lparr>ID := (if ID tx = uuid_Nil then newID else ID tx)\<rparr>"
  define s1 where "s1 = (if ID tx = uuid_Nil then assign p tx1 s else s)"
  have "(if ID tx = uuid_Nil then assign p (tx\<lparr>ID := newID\<rparr>) s else s) = s1"
    by (simp add: s1_def tx1_def)
  with assms(2,3) have "q = p \<and> s' = s1\<lparr>ims_transactions := ims_transactions s1 @ [p]\<rparr>"
    unfolding ims_StoreTransaction_def Let_def tx [symmetric] by auto
  then have s': "q = p" "ims_transactions s' = ims_transactions s @ [p]" "deref s' = deref s1"
    "length (objects s') = length (objects s)" "ims_accounts s' = ims_accounts s"
    by (auto simp: s1_def deref_def [abs_def])
  have pointee: "deref s1 p = tx1" using p tx by (auto simp: s1_def deref_assign tx1_def)
  have others: "deref s1 x = deref s x" if "x \<in> set (ims_transactions s)" for x
    using that tx pk by (auto simp: s1_def deref_assign pk_def ids_ims)
  have d: "ims_db s' = (ims_db s)\<lparr>transactions_t := transactions_t (ims_db s) @ [row_of_tx tx1]\<rparr>"
    using s' others pointee by (simp add: ims_db_def)
  have new: "ID tx1 \<notin> set (ids (ims_db s))" "ID tx1 \<noteq> uuid_Nil" using none p by (auto simp: tx1_def)
  have "ids (ims_db s') = ids (ims_db s) @ [ID tx1]" by (simp add: d ids_def)
  then have "pk (ims_db s')" using pk_insert [OF pk] new by blast
  then have ok': "ims_ok s'" using assms(1) s' p by (auto simp: ims_ok_def)
  have "core (ims_db s') = (core (ims_db s))(i \<mapsto> core_row (row_of_tx (tx\<lparr>ID := i\<rparr>)))"
    using core_insert [OF new(1)] i s' pointee by (simp add: d tx1_def)
  moreover have "core (ims_db s) i = None" using new(1) i s' pointee by (metis domIff dom_core)
  moreover have "\<not> found_at tx (core (ims_db s)) j c" for j c
    using none by (auto simp: found_at_core [OF pk] transactions_ims)
  ultimately show ?thesis using ok' i s' new pointee by (auto simp: stores_spec_def tx1_def)
qed

interpretation mem_store: transaction_store ims_ok "\<lambda>s. core (ims_db s)" mem_stores
proof
  fix s tx i s'
  assume ok: "ims_ok s" and "mem_stores tx s i s'"
  then obtain p q newID where p: "p < length (objects s)" "tx = deref s p" "newID \<noteq> uuid_Nil"
    "newID \<notin> set (ids (ims_db s))" and run: "ims_StoreTransaction newID p s = (Ok q, s')" "ID (deref s' q) = i"
    by (auto simp: mem_stores_def)
  show "ims_ok s' \<and> stores_spec tx (core (ims_db s)) i (core (ims_db s'))"
    using mem_store_found [OF ok _ run p(2)] mem_store_new [OF ok _ run p(2,1,3,4)] by (cases "ims_existing tx s") auto
qed (simp add: ims_ok_def core_no_nil)

subsection \<open>Rows and reads\<close>

lemma row_roundtrip:
  assumes "Direction tx \<noteq> InvalidDirection" "Status tx \<noteq> InvalidTransaction"
  shows "transactionFromDatabaseRow (row_of_tx tx) = Inr (tx\<lparr>Fresh := False\<rparr>)"
  using assms by (simp add: transactionFromDatabaseRow_def row_of_tx_def
      DirectionFromString_String StatusFromString_String)

definition valid_tx :: "Transaction \<Rightarrow> bool" where
  "valid_tx tx \<longleftrightarrow> Direction tx \<noteq> InvalidDirection \<and> Status tx \<noteq> InvalidTransaction"

definition same_transactions :: "InMemoryWalletStorage \<Rightarrow> world \<Rightarrow> bool" where
  "same_transactions s w \<longleftrightarrow> transactions_t (db w) = transactions_t (ims_db s) \<and>
     (\<forall>p \<in> set (ims_transactions s). valid_tx (deref s p))"

text \<open>What the Postgres storage hands out for a pointer of the memory storage: a copy that is not fresh.\<close>

definition loaded :: "InMemoryWalletStorage \<Rightarrow> nat \<Rightarrow> Transaction" where
  "loaded s p = (deref s p)\<lparr>Fresh := False\<rparr>"

lemma decode_rows_loaded:
  "\<forall>p \<in> set ps. valid_tx (deref s p) \<Longrightarrow>
     decode_rows (map (\<lambda>p. row_of_tx (deref s p)) ps) = Inr (map (loaded s) ps)"
  by (induction ps) (auto simp: row_roundtrip valid_tx_def loaded_def)

lemma query_many_loaded:
  assumes "same_transactions s w" "e_sql E (now w) = Succeeds"
    and "\<And>p. P (row_of_tx (deref s p)) = Q p"
  shows "query_many E P w = (Ok (map (loaded s) (filter Q (ims_transactions s))), tick w)"
proof -
  have "filter P (transactions_t (db w)) = map (\<lambda>p. row_of_tx (deref s p)) (filter Q (ims_transactions s))"
    using assms(1,3) by (simp add: same_transactions_def ims_db_def filter_map comp_def)
  moreover have "decode_rows \<dots> = Inr (map (loaded s) (filter Q (ims_transactions s)))"
    using assms(1) by (intro decode_rows_loaded) (auto simp: same_transactions_def)
  ultimately show ?thesis using assms(2) by (simp add: query_many_def sql_query_def go_simps)
qed

lemma query_one_loaded:
  assumes "same_transactions s w" "e_sql E (now w) = Succeeds"
    and "\<And>p. P (row_of_tx (deref s p)) = Q p"
  shows "query_one E P w =
    (case find Q (ims_transactions s) of Some p \<Rightarrow> Ok (loaded s p) | None \<Rightarrow> Error ErrNoRows, tick w)"
proof -
  have rows: "filter P (transactions_t (db w)) = map (\<lambda>p. row_of_tx (deref s p)) (filter Q (ims_transactions s))"
    using assms(1,3) by (simp add: same_transactions_def ims_db_def filter_map comp_def)
  show ?thesis
  proof (cases "filter Q (ims_transactions s)")
    case Nil
    then have "find Q (ims_transactions s) = None" by (simp add: find_None_iff filter_empty_conv)
    with Nil rows assms(2) show ?thesis by (simp add: query_one_def sql_query_def first_row_def go_simps)
  next
    case (Cons p ps)
    then have f: "find Q (ims_transactions s) = Some p" by (simp add: find_filter)
    then have "valid_tx (deref s p)" using assms(1) by (auto simp: same_transactions_def dest: find_SomeD)
    with Cons f rows assms(2) show ?thesis
      by (simp add: query_one_def sql_query_def first_row_def go_simps row_roundtrip valid_tx_def loaded_def)
  qed
qed

subsection \<open>Properties\<close>

text \<open>
  C13: \<open>PostgresWalletStorage.StoreTransaction\<close> meets the contract of a transaction store: when it
  succeeds, the table seen as a map from identifiers to rows changes in one place only, by the
  update of hash, block hash, confirmations and status of the row found by identifier or by
  hash, direction and address, or by the insertion of a row under a fresh identifier; and the
  primary key is kept.
\<close>

theorem StoreTransaction_refines:
  assumes "pk (db w)" "uuid_ok E" "StoreTransaction E tx w = (Ok t, tx', w')"
  shows "pk (db w') \<and> stores_spec tx (core (db w)) (ID t) (core (db w'))"
proof -
  have "pg_stores tx w (ID t) w'" using assms(2,3) by (auto simp: pg_stores_def)
  from pg_store.refines [OF assms(1) this] show ?thesis .
qed

definition example_tx :: Transaction where
  "example_tx =
     \<lparr>ID = 5, Hash = ''h'', BlockHash = [], Confirmations = 0, Address = ''a'',
      Direction = OutgoingDirection, Status = NewTransaction, Amount = 30, Metainfo = JNull,
      Fee = 1, FeeTypeOf = FixedFee, ColdStorage = False, Fresh = True, ReportedConfirmations = - 1\<rparr>"

definition example_stored :: world where
  "example_stored = snd (snd (StoreTransaction example_env example_tx example_world))"

lemma example_uuid: "uuid_ok example_env"
  by (simp add: uuid_ok_def example_env_def)

lemma example_pk: "pk (db example_world)"
  by (simp add: pk_def ids_def example_world_def example_db_def)

lemma triple_eqI: "fst t = a \<Longrightarrow> fst (snd t) = b \<Longrightarrow> snd (snd t) = c \<Longrightarrow> t = (a, b, c)"
  by (cases t) auto

lemma example_store:
  "StoreTransaction example_env example_tx example_world = (Ok example_tx, example_tx, example_stored)"
proof (rule triple_eqI)
  show "fst (StoreTransaction example_env example_tx example_world) = Ok example_tx" by code_simp
  show "fst (snd (StoreTransaction example_env example_tx example_world)) = example_tx" by code_simp
qed (simp add: example_stored_def)

theorem StoreTransaction_refines_witness:
  "pk (db example_stored) \<and>
   stores_spec example_tx (core (db example_world)) (ID example_tx) (core (db example_stored))"
  by (rule StoreTransaction_refines [OF example_pk example_uuid example_store])

text \<open>
  Storing the same transaction a second time under the identifier it was given (a retried
  call) gives the same identifier and leaves every row as the first call left it.
\<close>

theorem StoreTransaction_idempotent:
  assumes "pk (db w)" "uuid_ok E" "StoreTransaction E tx w = (Ok t, tx', w')"
    and "uuid_ok F" "StoreTransaction F (tx\<lparr>ID := ID t\<rparr>) w' = (Ok u, tx'', w'')"
  shows "ID u = ID t \<and> core (db w'') = core (db w')"
proof -
  have "pg_stores tx w (ID t) w'" "pg_stores (tx\<lparr>ID := ID t\<rparr>) w' (ID u) w''"
    using assms(2-5) by (auto simp: pg_stores_def)
  from pg_store.store_again [OF assms(1) this] show ?thesis .
qed

definition example_stored_twice :: world where
  "example_stored_twice = snd (snd (StoreTransaction example_env example_tx example_stored))"

lemma example_store_again:
  "StoreTransaction example_env (example_tx\<lparr>ID := ID example_tx\<rparr>) example_stored =
     (Ok (example_tx\<lparr>Fresh := False\<rparr>), example_tx, example_stored_twice)"
proof (rule triple_eqI)
  show "fst (StoreTransaction example_env (example_tx\<lparr>ID := ID example_tx\<rparr>) example_stored) =
      Ok (example_tx\<lparr>Fresh := False\<rparr>)" by code_simp
  show "fst (snd (StoreTransaction example_env (example_tx\<lparr>ID := ID example_tx\<rparr>) example_stored)) = example_tx"
    by code_simp
qed (simp add: example_stored_twice_def)

theorem StoreTransaction_idempotent_witness:
  "ID (example_tx\<lparr>Fresh := False\<rparr>) = ID example_tx \<and>
   core (db example_stored_twice) = core (db example_stored)"
  by (rule StoreTransaction_idempotent
      [OF example_pk example_uuid example_store example_uuid example_store_again])

text \<open>
  C35: The memory storage refines the same contract, with the table read off its list of
  pointers, and its storing loses no transaction and keeps identifiers unique.
\<close>

theorem ims_StoreTransaction_refines:
  assumes "ims_ok s" "p < length (objects s)" "newID \<noteq> uuid_Nil" "newID \<notin> set (ids (ims_db s))"
    and "ims_StoreTransaction newID p s = (Ok q, s')"
  shows "ims_ok s' \<and> stores_spec (deref s p) (core (ims_db s)) (ID (deref s' q)) (core (ims_db s')) \<and>
    dom (core (ims_db s)) \<subseteq> dom (core (ims_db s'))"
proof -
  have "mem_stores (deref s p) s (ID (deref s' q)) s'" using assms(2-5) by (auto simp: mem_stores_def)
  from mem_store.refines [OF assms(1) this] mem_store.none_lost [OF assms(1) this] show ?thesis by blast
qed

definition example_memory :: InMemoryWalletStorage where
  "example_memory = newInMemoryWalletStorage [example_tx]"

definition example_memory_stored :: InMemoryWalletStorage where
  "example_memory_stored = snd (ims_StoreTransaction 9 0 example_memory)"

theorem ims_StoreTransaction_refines_witness:
  "ims_ok example_memory_stored \<and>
   stores_spec (deref example_memory 0) (core (ims_db example_memory))
     (ID (deref example_memory_stored 0)) (core (ims_db example_memory_stored)) \<and>
   dom (core (ims_db example_memory)) \<subseteq> dom (core (ims_db example_memory_stored))"
proof (rule ims_StoreTransaction_refines)
  show "ims_ok example_memory" "0 < length (objects example_memory)" "9 \<notin> set (ids (ims_db example_memory))"
    by (simp_all add: ims_ok_def pk_def ids_ims example_memory_def newInMemoryWalletStorage_def)
  show "(9::uuid) \<noteq> uuid_Nil" by simp
  show "ims_StoreTransaction 9 0 example_memory = (Ok 0, example_memory_stored)" by code_simp
qed

text \<open>
  A transaction written to the table and read back is the transaction, apart from the mark
  \<open>fresh\<close>, which only a transaction not yet stored has.
\<close>

theorem transaction_row_roundtrip:
  assumes "Direction tx \<noteq> InvalidDirection" "Status tx \<noteq> InvalidTransaction"
  shows "transactionFromDatabaseRow (row_of_tx tx) = Inr (tx\<lparr>Fresh := False\<rparr>)"
  by (rule row_roundtrip [OF assms])

theorem transaction_row_roundtrip_witness:
  "transactionFromDatabaseRow (row_of_tx example_tx) = Inr (example_tx\<lparr>Fresh := False\<rparr>)"
  by (rule transaction_row_roundtrip) (simp_all add: example_tx_def)



end
