(* ===== verification/Api.thy ===== *)
theory Api
  imports Sender
begin

text \<open>
  The HTTP API (\<open>api/http.go\<close>): one definition per handler, from the text of the request body
  to the response and the state that is left, and the table of the paths.

  A handler runs in a goroutine of its own. What it asks of the wallet or of the event broker
  is done by their goroutines in one turn, for whose result the handler waits.
\<close>

subsection \<open>Requests\<close>

text \<open>The body of a request, or the error of reading it.\<close>

type_synonym request_body = "go_error + string"

definition zero_request :: WithdrawRequest where
  "zero_request = \<lparr>req_ID = uuid_Nil, req_Address = [], req_Amount = 0, req_Fee = 0, req_FeeType = [],
     req_Metainfo = JNull\<rparr>"

definition decode_WithdrawRequest :: "lib \<Rightarrow> json \<Rightarrow> go_error + WithdrawRequest" where
  "decode_WithdrawRequest L j =
     fill_struct (\<lambda>k v req.
       if same_name k ''id'' then fill_uuid L v (\<lambda>i. req\<lparr>req_ID := i\<rparr>) req
       else if same_name k ''address'' then fill_string v (\<lambda>s. req\<lparr>req_Address := s\<rparr>) req
       else if same_name k ''amount'' then fill_by (BTCAmount_UnmarshalJSON (lib_decimal L)) v (\<lambda>a. req\<lparr>req_Amount := a\<rparr>)
       else if same_name k ''fee'' then fill_by (BTCAmount_UnmarshalJSON (lib_decimal L)) v (\<lambda>a. req\<lparr>req_Fee := a\<rparr>)
       else if same_name k ''fee_type'' then fill_string v (\<lambda>s. req\<lparr>req_FeeType := s\<rparr>) req
       else if same_name k ''metainfo'' then Inr (req\<lparr>req_Metainfo := interface_value v\<rparr>)
       else Inr req) j zero_request"

record GetTransactionsFilter =
  filter_Direction :: string
  filter_Status :: string

definition decode_GetTransactionsFilter :: "json \<Rightarrow> go_error + GetTransactionsFilter" where
  "decode_GetTransactionsFilter j =
     fill_struct (\<lambda>k v f.
       if same_name k ''direction'' then fill_string v (\<lambda>s. f\<lparr>filter_Direction := s\<rparr>) f
       else if same_name k ''status'' then fill_string v (\<lambda>s. f\<lparr>filter_Status := s\<rparr>) f
       else Inr f) j \<lparr>filter_Direction = [], filter_Status = []\<rparr>"

definition decode_SubscribeMessage :: "json \<Rightarrow> go_error + int" where
  "decode_SubscribeMessage j =
     fill_struct (\<lambda>k v seq. if same_name k ''seq'' then fill_int v (\<lambda>n. n) seq else Inr seq) j 0"

definition decode_uuid :: "lib \<Rightarrow> string \<Rightarrow> go_error + uuid" where
  "decode_uuid L text =
     (case json_Unmarshal text of Inl e \<Rightarrow> Inl e | Inr j \<Rightarrow> fill_uuid L j (\<lambda>i. i) uuid_Nil)"

subsection \<open>Responses\<close>

record BalanceInfo =
  Balance :: BTCAmount
  BalanceWithUnconf :: BTCAmount

datatype api_data =
    NoData
  | AccountResult Account
  | WithdrawResult WithdrawRequest
  | AddressResult string
  | TransactionsResult "Transaction list"
  | BalanceResult BalanceInfo
  | AmountResult uint64
  | EventsResult "NotificationWithSeq list"

text \<open>The member \<open>error\<close> of a response is the text of the error, or \<open>ok\<close> (\<open>None\<close> here).\<close>

record httpAPIResponse =
  resp_Error :: "go_error option"
  resp_Result :: api_data

definition respond :: "api_data \<Rightarrow> go_error option \<Rightarrow> httpAPIResponse" where
  "respond dat err =
     (case err of
        Some e \<Rightarrow> \<lparr>resp_Error = Some e, resp_Result = NoData\<rparr>
      | None \<Rightarrow> \<lparr>resp_Error = None, resp_Result = dat\<rparr>)"

type_synonym handler = "eventBrokerData \<Rightarrow> world \<Rightarrow> httpAPIResponse res \<times> eventBrokerData \<times> world"

definition refuse :: "go_error \<Rightarrow> handler" where
  "refuse err e w = (Ok (respond NoData (Some err)), e, w)"

text \<open>
  Respond with the result of a call of the wallet. If the call panics in the goroutine of the
  wallet, nobody answers.
\<close>

definition respond_with :: "'a M \<Rightarrow> ('a \<Rightarrow> api_data) \<Rightarrow> handler" where
  "respond_with m f e w =
     (case m w of
        (Ok x, w') \<Rightarrow> (Ok (respond (f x) None), e, w')
      | (Error err, w') \<Rightarrow> (Ok (respond NoData (Some err)), e, w')
      | (Panic p, w') \<Rightarrow> (Panic p, e, w'))"

subsection \<open>Handlers\<close>

definition newBitcoinAddress :: "env \<Rightarrow> request_body \<Rightarrow> handler" where
  "newBitcoinAddress E body =
     (case body of
        Inl err \<Rightarrow> refuse err
      | Inr text \<Rightarrow>
          (case (if text \<noteq> [] then json_Unmarshal text else Inr JNull) of
             Inl err \<Rightarrow> refuse err
           | Inr metainfo \<Rightarrow>
               (case metainfo of
                  JObj _ \<Rightarrow> respond_with (CreateAccount E (interface_value metainfo)) AccountResult
                | JNull \<Rightarrow> respond_with (CreateAccount E JNull) AccountResult
                | _ \<Rightarrow> refuse (GoError ''json: cannot unmarshal into map''))))"

definition notifyWalletTxStatusChanged :: handler where
  "notifyWalletTxStatusChanged = respond_with TriggerWalletUpdate (\<lambda>_. NoData)"

text \<open>
  The request as the handler completes it; \<open>newID\<close> is what \<open>uuid.NewV4\<close> returns if it is
  called.
\<close>

definition complete_request :: "bool \<Rightarrow> uuid \<Rightarrow> WithdrawRequest \<Rightarrow> go_error + WithdrawRequest" where
  "complete_request allowWithdrawalWithoutID newID req =
     (if req_ID req = uuid_Nil \<and> \<not> allowWithdrawalWithoutID
      then Inl (GoError ''Withdrawal without id is not allowed'')
      else
        (let req1 = (if req_ID req = uuid_Nil then req\<lparr>req_ID := newID\<rparr> else req)
         in Inr (if req_FeeType req1 = [] then req1\<lparr>req_FeeType := ''fixed''\<rparr> else req1)))"

definition read_request :: "lib \<Rightarrow> bool \<Rightarrow> uuid \<Rightarrow> request_body \<Rightarrow> go_error + WithdrawRequest" where
  "read_request L allowWithdrawalWithoutID newID body =
     (case body of
        Inl err \<Rightarrow> Inl err
      | Inr text \<Rightarrow>
          (case Decoder_Decode text of
             Inl err \<Rightarrow> Inl err
           | Inr j \<Rightarrow>
               (case decode_WithdrawRequest L j of
                  Inl err \<Rightarrow> Inl err
                | Inr req \<Rightarrow> complete_request allowWithdrawalWithoutID newID req)))"

definition withdrawViaWalletUpdater :: "env \<Rightarrow> walletData \<Rightarrow> internalWithdrawRequest \<Rightarrow> unit M" where
  "withdrawViaWalletUpdater E W q = dispatch E W (WithdrawQueued (iw_tx q) (iw_hold q))"

text \<open>\<open>Withdraw\<close> writes the address of the cold wallet into a request without address.\<close>

definition withdraw :: "env \<Rightarrow> walletData \<Rightarrow> bool \<Rightarrow> uuid \<Rightarrow> bool \<Rightarrow> request_body \<Rightarrow> handler" where
  "withdraw E W allowWithdrawalWithoutID newID toColdStorage body =
     (case read_request (e_lib E) allowWithdrawalWithoutID newID body of
        Inl err \<Rightarrow> refuse err
      | Inr req \<Rightarrow>
          (case Withdraw W req toColdStorage of
             Inl err \<Rightarrow> refuse err
           | Inr q \<Rightarrow> respond_with (withdrawViaWalletUpdater E W q)
                        (\<lambda>_. WithdrawResult (req\<lparr>req_Address := Address (iw_tx q)\<rparr>))))"

definition getHotStorageAddress :: "walletData \<Rightarrow> handler" where
  "getHotStorageAddress W = respond_with (returnE (hotWalletAddress W)) AddressResult"

definition getTransactions :: "env \<Rightarrow> request_body \<Rightarrow> handler" where
  "getTransactions E body =
     (case body of
        Inl err \<Rightarrow> refuse err
      | Inr text \<Rightarrow>
          (case (if text \<noteq> []
                 then (case json_Unmarshal text of Inl err \<Rightarrow> Inl err | Inr j \<Rightarrow> decode_GetTransactionsFilter j)
                 else Inr \<lparr>filter_Direction = [], filter_Status = []\<rparr>) of
             Inl err \<Rightarrow> refuse err
           | Inr txFilter \<Rightarrow>
               respond_with (GetTransactionsWithFilter E (filter_Direction txFilter) (filter_Status txFilter))
                 TransactionsResult))"

definition api_getBalance :: "env \<Rightarrow> handler" where
  "api_getBalance E =
     respond_with (GetBalance E)
       (\<lambda>(conf, all). BalanceResult \<lparr>Balance = conf, BalanceWithUnconf = all\<rparr>)"

definition getRequiredFromColdStorage :: "env \<Rightarrow> handler" where
  "getRequiredFromColdStorage E = respond_with (GetMoneyRequiredFromColdStorage E) AmountResult"

definition CancelPendingTx :: "env \<Rightarrow> walletData \<Rightarrow> uuid \<Rightarrow> unit M" where
  "CancelPendingTx E W i = dispatch E W (CancelQueued i)"

definition ConfirmPendingTransaction :: "env \<Rightarrow> walletData \<Rightarrow> uuid \<Rightarrow> unit M" where
  "ConfirmPendingTransaction E W i = dispatch E W (ConfirmQueued i)"

definition cancelPending :: "env \<Rightarrow> walletData \<Rightarrow> request_body \<Rightarrow> handler" where
  "cancelPending E W body =
     (case body of
        Inl err \<Rightarrow> refuse err
      | Inr text \<Rightarrow>
          (case decode_uuid (e_lib E) text of
             Inl err \<Rightarrow> refuse err
           | Inr i \<Rightarrow> respond_with (CancelPendingTx E W i) (\<lambda>_. NoData)))"

definition confirmPendingTransaction :: "env \<Rightarrow> walletData \<Rightarrow> request_body \<Rightarrow> handler" where
  "confirmPendingTransaction E W body =
     (case body of
        Inl err \<Rightarrow> refuse err
      | Inr text \<Rightarrow>
          (case decode_uuid (e_lib E) text of
             Inl err \<Rightarrow> refuse err
           | Inr i \<Rightarrow> respond_with (ConfirmPendingTransaction E W i) (\<lambda>_. NoData)))"

definition getEvents :: "env \<Rightarrow> request_body \<Rightarrow> handler" where
  "getEvents E body =
     (case body of
        Inl err \<Rightarrow> refuse err
      | Inr text \<Rightarrow>
          (case (if text \<noteq> []
                 then (case json_Unmarshal text of Inl err \<Rightarrow> Inl err | Inr j \<Rightarrow> decode_SubscribeMessage j)
                 else Inr 0) of
             Inl err \<Rightarrow> refuse err
           | Inr seq \<Rightarrow> respond_with (GetEventsFromSeq E seq) EventsResult))"

definition api_MuteEventsWithTxID :: "env \<Rightarrow> uuid \<Rightarrow> handler" where
  "api_MuteEventsWithTxID E txID e w =
     (case mute E txID e w of
        (Ok _, e', w') \<Rightarrow> (Ok (respond NoData None), e', w')
      | (Error err, e', w') \<Rightarrow> (Ok (respond NoData (Some err)), e', w')
      | (Panic p, e', w') \<Rightarrow> (Panic p, e', w'))"

definition muteEvents :: "env \<Rightarrow> request_body \<Rightarrow> handler" where
  "muteEvents E body =
     (case body of
        Inl err \<Rightarrow> refuse err
      | Inr text \<Rightarrow>
          (case (if text \<noteq> CHR 0x22 # ''current_problematic'' @ [CHR 0x22] then decode_uuid (e_lib E) text else Inr uuid_Nil) of
             Inl err \<Rightarrow> refuse err
           | Inr i \<Rightarrow> api_MuteEventsWithTxID E i))"

subsection \<open>Paths\<close>

definition initHTTPAPIServer ::
  "env \<Rightarrow> walletData \<Rightarrow> bool \<Rightarrow> uuid \<Rightarrow> (string \<times> (request_body \<Rightarrow> handler)) list" where
  "initHTTPAPIServer E W allowWithdrawalWithoutID newID =
     [(''/new_wallet'', newBitcoinAddress E),
      (''/notify_wallet'', \<lambda>_. notifyWalletTxStatusChanged),
      (''/withdraw'', withdraw E W allowWithdrawalWithoutID newID False),
      (''/get_hot_storage_address'', \<lambda>_. getHotStorageAddress W),
      (''/get_transactions'', getTransactions E),
      (''/get_balance'', \<lambda>_. api_getBalance E),
      (''/get_required_from_cold_storage'', \<lambda>_. getRequiredFromColdStorage E),
      (''/cancel_pending'', cancelPending E W),
      (''/withdraw_to_cold_storage'', withdraw E W allowWithdrawalWithoutID newID True),
      (''/confirm'', confirmPendingTransaction E W),
      (''/get_events'', getEvents E),
      (''/mute_events'', muteEvents E)]"

text \<open>
  Of the other paths \<open>/ws\<close> is the websocket API and \<open>/metrics\<close> is served by the Prometheus
  library; a request to any other path does not reach the program.
\<close>

definition serve ::
  "env \<Rightarrow> walletData \<Rightarrow> bool \<Rightarrow> uuid \<Rightarrow> string \<Rightarrow> request_body \<Rightarrow> handler option" where
  "serve E W allowWithdrawalWithoutID newID path body =
     map_option (\<lambda>h. h body) (map_of (initHTTPAPIServer E W allowWithdrawalWithoutID newID) path)"

subsection \<open>A request is an operation of the process\<close>

definition performs :: "env \<Rightarrow> walletData \<Rightarrow> handler \<Rightarrow> bool" where
  "performs E W h \<longleftrightarrow> (\<forall>e w r e' w'. h e w = (r, e', w') \<longrightarrow>
     (\<exists>op r0. operation_ok op \<and> perform E W op e w = (r0, e', w') \<and> is_panic r0 = is_panic r))"

named_theorems performs_intros

text \<open>A handler that leaves the state alone, like a wake-up of the broker with nothing to do.\<close>

lemma performs_nothing:
  assumes "\<And>e w. \<exists>x. h e w = (Ok x, e, w)"
  shows "performs E W h"
  unfolding performs_def
proof (intro allI impI exI conjI)
  fix e w r e' w'
  assume "h e w = (r, e', w')"
  with assms [of e w] show "perform E W (OnBroker BrokerStop) e w = (Ok (), e', w')" "is_panic (Ok ()) = is_panic r"
    by (auto simp: perform_def broker_dispatch_def)
qed simp

lemma performs_refuse [performs_intros]: "performs E W (refuse err)"
  by (rule performs_nothing) (simp add: refuse_def)

lemma performs_respond_with:
  assumes "operation_ok op"
    and "\<And>e w. perform E W op e w = (case bindE m (\<lambda>_. returnE ()) w of (r, w') \<Rightarrow> (r, e, w'))"
  shows "performs E W (respond_with m f)"
  unfolding performs_def
proof (intro allI impI)
  fix e w r e' w'
  assume "respond_with m f e w = (r, e', w')"
  then have "perform E W op e w = ((case fst (m w) of Ok _ \<Rightarrow> Ok () | Error err \<Rightarrow> Error err | Panic p \<Rightarrow> Panic p), e', w')
      \<and> is_panic (fst (m w)) = is_panic r"
    by (auto simp: assms(2) respond_with_def bindE_def go_simps split: prod.splits res.splits)
  with assms(1) show "\<exists>op r0. operation_ok op \<and> perform E W op e w = (r0, e', w') \<and> is_panic r0 = is_panic r"
    by (cases "fst (m w)") auto
qed

lemma bindE_unit: "bindE m returnE = m"
  by (rule ext) (simp add: bindE_def go_simps split: prod.splits res.splits)

lemmas performs_defs = perform_def perform_wallet_def CancelPendingTx_def ConfirmPendingTransaction_def
  withdrawViaWalletUpdater_def bindE_unit

lemma performs_CreateAccount [performs_intros]: "performs E W (respond_with (CreateAccount E j) f)"
  by (rule performs_respond_with [of "OnWallet (DoCreateAccount j)"]) (simp_all add: performs_defs)

lemma performs_TriggerWalletUpdate [performs_intros]: "performs E W (respond_with TriggerWalletUpdate f)"
  by (rule performs_respond_with [of "OnWallet DoTriggerWalletUpdate"]) (simp_all add: performs_defs)

lemma performs_GetTransactions [performs_intros]: "performs E W (respond_with (GetTransactionsWithFilter E df sf) f)"
  by (rule performs_respond_with [of "OnWallet (DoGetTransactionsWithFilter df sf)"]) (simp_all add: performs_defs)

lemma performs_GetBalance [performs_intros]: "performs E W (respond_with (GetBalance E) f)"
  by (rule performs_respond_with [of "OnWallet DoGetBalance"]) (simp_all add: performs_defs)

lemma performs_GetMoneyRequired [performs_intros]: "performs E W (respond_with (GetMoneyRequiredFromColdStorage E) f)"
  by (rule performs_respond_with [of "OnWallet DoGetMoneyRequiredFromColdStorage"]) (simp_all add: performs_defs)

lemma performs_GetEvents [performs_intros]: "performs E W (respond_with (GetEventsFromSeq E n) f)"
  by (rule performs_respond_with [of "DoGetEventsFromSeq n"]) (simp_all add: performs_defs)

lemma performs_Cancel [performs_intros]: "performs E W (respond_with (CancelPendingTx E W i) f)"
  by (rule performs_respond_with [of "OnWallet (DoDispatch (CancelQueued i))"]) (simp_all add: performs_defs)

lemma performs_Confirm [performs_intros]: "performs E W (respond_with (ConfirmPendingTransaction E W i) f)"
  by (rule performs_respond_with [of "OnWallet (DoDispatch (ConfirmQueued i))"]) (simp_all add: performs_defs)

lemma performs_address [performs_intros]: "performs E W (respond_with (returnE x) f)"
  by (rule performs_nothing) (simp add: respond_with_def go_simps)

lemma performs_mute [performs_intros]: "performs E W (api_MuteEventsWithTxID E i)"
  unfolding performs_def
proof (intro allI impI)
  fix e w r e' w'
  assume "api_MuteEventsWithTxID E i e w = (r, e', w')"
  then have "\<exists>r0. perform E W (OnBroker (MuteQueued i)) e w = (r0, e', w') \<and> is_panic r0 = is_panic r"
    by (auto simp: api_MuteEventsWithTxID_def perform_def broker_dispatch_def split: prod.splits res.splits)
  then show "\<exists>op r0. operation_ok op \<and> perform E W op e w = (r0, e', w') \<and> is_panic r0 = is_panic r"
    by (intro exI [of _ "OnBroker (MuteQueued i)"]) simp
qed

lemma read_request_ID:
  "read_request L a newID body = Inr req \<Longrightarrow> newID \<noteq> uuid_Nil \<Longrightarrow> req_ID req \<noteq> uuid_Nil"
  by (auto simp: read_request_def complete_request_def Let_def split: sum.splits if_splits)

lemma performs_withdraw:
  assumes "newID \<noteq> uuid_Nil"
  shows "performs E W (withdraw E W a newID cold body)"
proof (cases "read_request (e_lib E) a newID body")
  case (Inl err)
  then show ?thesis by (simp add: withdraw_def performs_refuse)
next
  case (Inr req)
  note id = read_request_ID [OF this assms]
  show ?thesis
  proof (cases "Withdraw W req cold")
    case (Inl err)
    with Inr show ?thesis by (simp add: withdraw_def performs_refuse)
  next
    case q: (Inr q)
    have "performs E W (respond_with (withdrawViaWalletUpdater E W q) f)" for f
      by (rule performs_respond_with [of "OnWallet (DoWithdraw req cold)"])
        (simp_all add: id q performs_defs)
    with Inr q show ?thesis by (simp add: withdraw_def)
  qed
qed

lemma serve_performs:
  assumes "serve E W a newID path body = Some h" "newID \<noteq> uuid_Nil"
  shows "performs E W h"
proof -
  from assms(1) obtain g where g: "(path, g) \<in> set (initHTTPAPIServer E W a newID)" "h = g body"
    by (auto simp: serve_def dest: map_of_SomeD)
  have "performs E W (newBitcoinAddress E body)" "performs E W notifyWalletTxStatusChanged"
    "performs E W (getHotStorageAddress W)" "performs E W (getTransactions E body)"
    "performs E W (api_getBalance E)" "performs E W (getRequiredFromColdStorage E)"
    "performs E W (cancelPending E W body)" "performs E W (confirmPendingTransaction E W body)"
    "performs E W (getEvents E body)" "performs E W (muteEvents E body)"
    unfolding newBitcoinAddress_def notifyWalletTxStatusChanged_def getHotStorageAddress_def getTransactions_def
      api_getBalance_def getRequiredFromColdStorage_def cancelPending_def confirmPendingTransaction_def
      getEvents_def muteEvents_def
    by (auto intro!: performs_intros split: sum.splits json.splits)
  with g performs_withdraw [OF assms(2), of E W a _ body] show ?thesis
    by (auto simp: initHTTPAPIServer_def)
qed

text \<open>
  C9: The guarantees over the life of the installation hold for clients of the API. Whatever
  request a running process receives, the state after the answer is again one of a life of the
  installation, and so is the state left by a crash at any moment of the request.
\<close>

theorem api_request_lives:
  assumes "life E d0 (Some (W, e)) w" "serve E W a newID path body = Some h" "newID \<noteq> uuid_Nil"
    and "h e w = (r, e', w')" "admissible d0 w'"
  shows "(\<not> is_panic r \<longrightarrow> life E d0 (Some (W, e')) w') \<and>
    (\<forall>t. suffix t (trace w') \<longrightarrow> suffix (trace w) t \<longrightarrow> life E d0 None (crashed d0 t w'))"
proof -
  from serve_performs [OF assms(2,3)] assms(4) obtain op r0 where
    op: "operation_ok op" "perform E W op e w = (r0, e', w')" "is_panic r0 = is_panic r"
    unfolding performs_def by blast
  from life.performed [OF assms(1) op(1,2) assms(5)] life.crashed_op [OF assms(1) op(1,2) assms(5)] op(3)
  show ?thesis by blast
qed

definition quoted :: "string \<Rightarrow> string" where
  "quoted s = CHR 0x22 # s @ [CHR 0x22]"

definition example_body :: string where
  "example_body = ''{'' @ quoted ''id'' @ '':'' @ quoted ''5'' @ '', '' @ quoted ''address'' @ '':'' @ quoted ''dest'' @
     '','' @ quoted ''amount'' @ '': '' @ quoted ''500'' @ '','' @ quoted ''fee'' @ '':'' @ quoted ''20'' @ ''}''"

theorem api_request_lives_witness:
  "life example_env one_event_db (Some (event_wallet, NewEventBroker 3))
     ((snd event_start)\<lparr>externalTxNotifications := trySend 3 () (externalTxNotifications (snd event_start))\<rparr>)"
  (is "life _ _ _ ?w'")
proof -
  have h: "serve example_env event_wallet False 9 ''/notify_wallet'' (Inr []) =
      Some notifyWalletTxStatusChanged"
    by (simp add: serve_def initHTTPAPIServer_def)
  have run: "notifyWalletTxStatusChanged (NewEventBroker 3) (snd event_start) =
      (Ok (respond NoData None), NewEventBroker 3, ?w')"
    by (simp add: notifyWalletTxStatusChanged_def respond_with_def TriggerWalletUpdate_def modifyE_def)
  have "admissible one_event_db ?w'" using event_start_facts by (simp add: admissible_def)
  from api_request_lives [OF event_life h _ run this] show ?thesis by simp
qed

lemma Withdraw_Inr:
  assumes "Withdraw W req cold = Inr q"
  shows "Address (iw_tx q) \<noteq> [] \<and> Address (iw_tx q) \<noteq> hotWalletAddress W \<and>
    (req_Address req \<noteq> [] \<longrightarrow> Address (iw_tx q) = req_Address req) \<and>
    req_FeeType req = FeeType_String (FeeTypeOf (iw_tx q)) \<and>
    (\<not> cold \<longrightarrow> minWithdraw W \<le> req_Amount req \<and> req_Address req \<noteq> [] \<and>
       (FeeTypeOf (iw_tx q) = PerKBRateFee \<longrightarrow> minFeePerKb W \<le> req_Fee req) \<and>
       (FeeTypeOf (iw_tx q) = FixedFee \<longrightarrow> minFeeFixed W \<le> req_Fee req)) \<and>
    (iw_hold q \<longleftrightarrow> \<not> cold \<and> minWithdrawWithoutManualConfirmation W < req_Amount req) \<and>
    ID (iw_tx q) = req_ID req \<and> Amount (iw_tx q) = req_Amount req \<and> Fee (iw_tx q) = req_Fee req"
proof -
  obtain ft err where ft: "FeeTypeFromString (req_FeeType req) = (ft, err)" by (metis surj_pair)
  with assms have "err = None" by (cases err) (auto simp: Withdraw_def)
  with ft FeeTypeFromString_ok [of "req_FeeType req"] have "req_FeeType req = FeeType_String ft" by simp
  with assms ft \<open>err = None\<close> show ?thesis
    by (auto simp: Withdraw_def checkWithdrawLimits_def outgoing_tx_def Let_def not_less split: if_splits sum.splits)
qed


definition example_withdrawal :: "httpAPIResponse res \<times> eventBrokerData \<times> world" where
  "example_withdrawal =
     withdraw example_env event_wallet False 9 False (Inr example_body) (NewEventBroker 3) event_world"

lemma example_withdrawal_runs:
  "case example_withdrawal of (r, e, w) \<Rightarrow> is_ok r \<and> paid (trace w) = [5]"
  by code_simp


end
