(* ===== verification/Reporting.thy ===== *)
theory Reporting
  imports Safety Example
begin

text \<open>
  What clients are told about a transaction, and what a poll of the node records
  (\<open>wallet/updates.go\<close>).

  The first part follows the loop of \<open>notifyTransaction\<close>: a successful call adds one event for
  each number of confirmations that was not reported yet. The second part shows that the
  pointer to the last block seen never moves past a transaction that is not in the table.
\<close>

subsection \<open>Notifications of one transaction\<close>

definition report :: "lib \<Rightarrow> walletData \<Rightarrow> Transaction \<Rightarrow> int \<Rightarrow> event_data" where
  "report L W tx i = TxData (tx_notification L (notification_for W i (tx\<lparr>ReportedConfirmations := i - 1\<rparr>)))"

definition mark_reported :: "uuid \<Rightarrow> int \<Rightarrow> tx_row list \<Rightarrow> tx_row list" where
  "mark_reported i n = map (\<lambda>r. if r_id r = i then r\<lparr>r_reported_confirmations := n\<rparr> else r)"

lemma notify_step_Ok:
  assumes "notify_step E W (ReportedConfirmations tx + 1) tx w = (Ok u, tx', w')"
  shows "\<exists>et. tx' = tx\<lparr>ReportedConfirmations := ReportedConfirmations tx + 1\<rparr> \<and>
    getTransactionNotificationType (ReportedConfirmations tx + 1) tx = Ok et \<and>
    events_t (db w') = events_t (db w) @
      [\<lparr>ev_seq = events_seq w, ev_type = EventType_String et, ev_data = report (e_lib E) W tx (ReportedConfirmations tx + 1)\<rparr>] \<and>
    events_seq w' = events_seq w + 1 \<and>
    transactions_t (db w') = mark_reported (ID tx) (ReportedConfirmations tx + 1) (transactions_t (db w))"
proof -
  let ?i = "ReportedConfirmations tx + 1"
  from assms obtain et w1 where et: "getTransactionNotificationType ?i tx = Ok et"
    and n: "NotifyTransaction E et (notification_for W ?i tx) w = (Ok (), w1)"
    and u: "updateReportedConfirmations E tx ?i w1 = (Ok u, tx', w')"
    by (auto simp: notify_step_def split: res.splits prod.splits)
  have "tx\<lparr>ReportedConfirmations := ReportedConfirmations tx\<rparr> = tx" by simp
  with n have "db w1 = (db w)\<lparr>events_t := events_t (db w) @
      [\<lparr>ev_seq = events_seq w, ev_type = EventType_String et, ev_data = report (e_lib E) W tx ?i\<rparr>]\<rparr> \<and>
      events_seq w1 = events_seq w + 1"
    by (auto simp: NotifyTransaction_def broker_Notify_def bindE_def StoreEvent_def Let_def persist_def report_def
        go_simps split: outcome.splits if_splits)
  moreover from u have "tx' = tx\<lparr>ReportedConfirmations := ?i\<rparr>" "events_seq w' = events_seq w1"
    "db w' = (db w1)\<lparr>transactions_t := mark_reported (ID tx) ?i (transactions_t (db w1))\<rparr>"
    by (auto simp: updateReportedConfirmations_def sql_exec_def persist_def mark_reported_def split: outcome.splits)
  ultimately show ?thesis using et by auto
qed

lemma mark_reported_twice: "mark_reported i n (mark_reported i m rs) = mark_reported i n rs"
  by (simp add: mark_reported_def)

lemma report_reported: "report L W (tx\<lparr>ReportedConfirmations := m\<rparr>) i = report L W tx i"
  by (simp add: report_def)

lemma notify_loop_Ok:
  assumes "notify_loop E W [ReportedConfirmations tx + 1 .. n] tx w = (Ok u, tx', w')"
  shows "\<exists>rows. events_t (db w') = events_t (db w) @ rows \<and>
    map ev_data rows = map (report (e_lib E) W tx) [ReportedConfirmations tx + 1 .. n] \<and>
    map ev_seq rows = [events_seq w .. events_seq w + int (length rows) - 1] \<and>
    tx' = tx\<lparr>ReportedConfirmations := max (ReportedConfirmations tx) n\<rparr> \<and>
    (ReportedConfirmations tx < n \<longrightarrow> transactions_t (db w') = mark_reported (ID tx) n (transactions_t (db w)))"
  using assms
proof (induction "nat (n - ReportedConfirmations tx)" arbitrary: tx w)
  case 0
  then show ?case by (auto simp: max_def)
next
  case (Suc k)
  let ?i = "ReportedConfirmations tx + 1"
  let ?tx = "tx\<lparr>ReportedConfirmations := ?i\<rparr>"
  from Suc(2) have lt: "?i \<le> n" by simp
  then have cons: "[?i .. n] = ?i # [?i + 1 .. n]" by (simp add: upto_rec1)
  with Suc.prems obtain tx1 w1 where s: "notify_step E W ?i tx w = (Ok (), tx1, w1)"
    and rest: "notify_loop E W [?i + 1 .. n] tx1 w1 = (Ok u, tx', w')"
    by (auto split: res.splits prod.splits)
  from notify_step_Ok [OF s] obtain row where row: "tx1 = ?tx" "events_t (db w1) = events_t (db w) @ [row]"
    "ev_data row = report (e_lib E) W tx ?i" "ev_seq row = events_seq w" "events_seq w1 = events_seq w + 1"
    "transactions_t (db w1) = mark_reported (ID tx) ?i (transactions_t (db w))" by auto
  have "k = nat (n - ReportedConfirmations ?tx)" using Suc(2) by simp
  from Suc(1) [OF this] rest row(1) obtain rows where rows:
    "events_t (db w') = events_t (db w1) @ rows" "map ev_data rows = map (report (e_lib E) W ?tx) [?i + 1 .. n]"
    "map ev_seq rows = [events_seq w1 .. events_seq w1 + int (length rows) - 1]"
    "tx' = tx\<lparr>ReportedConfirmations := max ?i n\<rparr>"
    "?i < n \<longrightarrow> transactions_t (db w') = mark_reported (ID tx) n (transactions_t (db w1))"
    by auto
  have "transactions_t (db w') = mark_reported (ID tx) n (transactions_t (db w))"
  proof (cases "?i < n")
    case False
    with lt have "n = ?i" by simp
    with rest have "w' = w1" by simp
    with row(6) \<open>n = ?i\<close> show ?thesis by simp
  qed (use rows(5) row(6) in \<open>simp add: mark_reported_twice\<close>)
  moreover have "map ev_seq (row # rows) = [events_seq w .. events_seq w + int (length (row # rows)) - 1]"
    using rows(3) row(4,5) by (simp add: upto_rec1 algebra_simps)
  ultimately show ?case
    using rows(1,2,4) row(2,3) lt cons by (intro exI [of _ "row # rows"]) (auto simp: report_reported [abs_def] max_def)
qed

text \<open>
  C12: Clients hear of every confirmation exactly once. A successful \<open>notifyTransaction\<close> appends to
  the event table one event for each number of confirmations from the first one not yet reported
  up to \<open>min(confirmations, maxConfirmations)\<close>, in order and with consecutive sequence numbers,
  and records that number in the row of the transaction; if nothing is new it appends nothing.
\<close>

theorem confirmations_reported:
  assumes "notifyTransaction E W tx w = (Ok u, tx', w')"
  shows "\<exists>rows. events_t (db w') = events_t (db w) @ rows \<and>
    map ev_data rows = map (report (e_lib E) W tx) [ReportedConfirmations tx + 1 .. min (Confirmations tx) (maxConfirmations W)] \<and>
    map ev_seq rows = [events_seq w .. events_seq w + int (length rows) - 1] \<and>
    ReportedConfirmations tx' = max (ReportedConfirmations tx) (min (Confirmations tx) (maxConfirmations W)) \<and>
    (rows \<noteq> [] \<longrightarrow> transactions_t (db w') =
       mark_reported (ID tx) (min (Confirmations tx) (maxConfirmations W)) (transactions_t (db w)))"
proof -
  let ?n = "min (Confirmations tx) (maxConfirmations W)"
  have "Min64 (Confirmations tx) (maxConfirmations W) = ?n" by (simp add: Min64_def min_def)
  with assms have "notify_loop E W [ReportedConfirmations tx + 1 .. ?n] tx w = (Ok u, tx', w')"
    by (simp add: notifyTransaction_def Let_def)
  from notify_loop_Ok [OF this] obtain rows where rows: "events_t (db w') = events_t (db w) @ rows"
    "map ev_data rows = map (report (e_lib E) W tx) [ReportedConfirmations tx + 1 .. ?n]"
    "map ev_seq rows = [events_seq w .. events_seq w + int (length rows) - 1]"
    "tx' = tx\<lparr>ReportedConfirmations := max (ReportedConfirmations tx) ?n\<rparr>"
    "ReportedConfirmations tx < ?n \<longrightarrow> transactions_t (db w') = mark_reported (ID tx) ?n (transactions_t (db w))"
    by blast
  have "length rows = nat (?n - ReportedConfirmations tx)" using arg_cong [OF rows(2), of length] by simp
  then have "rows \<noteq> [] \<longrightarrow> ReportedConfirmations tx < ?n"
    by (metis length_greater_0_conv zero_less_nat_eq diff_gt_0_iff_gt)
  with rows show ?thesis by (intro exI [of _ rows]) auto
qed

definition example_listed :: ListTransactionsResult where
  "example_listed =
     \<lparr>lt_TxID = ''h'', lt_BlockHash = ''b'', lt_Confirmations = 2, lt_Address = ''a'', lt_Category = ''receive'',
      lt_NewAmount = Inr 30\<rparr>"

definition example_deposit :: Transaction where
  "example_deposit = NewTransactionFromBTCJSON example_listed"

definition example_limits :: walletData where
  "example_limits =
     \<lparr>hotWalletAddress = ''h'', coldWalletAddress = [], minWithdraw = 100, minFeePerKb = 10,
      minFeeFixed = 10, minWithdrawWithoutManualConfirmation = 5000, maxConfirmations = 6\<rparr>"

theorem confirmations_reported_witness:
  "\<exists>rows. events_t (db (snd (snd (notifyTransaction example_env example_limits example_deposit example_world)))) = rows \<and>
     map ev_data rows = map (report (e_lib example_env) example_limits example_deposit) [0, 1, 2] \<and> map ev_seq rows = [1, 2, 3]"
proof -
  let ?run = "notifyTransaction example_env example_limits example_deposit example_world"
  have "fst ?run = Ok ()" by code_simp
  then have run: "?run = (Ok (), fst (snd ?run), snd (snd ?run))" by (simp add: prod_eq_iff)
  have n: "ReportedConfirmations example_deposit = - 1" "min (Confirmations example_deposit) (maxConfirmations example_limits) = 2"
    by (simp_all add: example_deposit_def example_listed_def NewTransactionFromBTCJSON_def Let_def example_limits_def)
  have three: "[0 .. 2] = [0, 1, 2 :: int]" by (simp add: upto_rec1)
  from confirmations_reported [OF run] obtain rows where rows:
    "events_t (db (snd (snd ?run))) = events_t (db example_world) @ rows"
    "map ev_data rows = map (report (e_lib example_env) example_limits example_deposit) [0, 1, 2]"
    "map ev_seq rows = [events_seq example_world .. events_seq example_world + int (length rows) - 1]"
    unfolding n by (auto simp: three)
  from arg_cong [OF rows(2), of length] have "length rows = 3" by simp
  then have "map ev_seq rows = [1, 2, 3]" using rows(3) by (simp add: example_world_def upto_rec1)
  with rows show ?thesis by (simp add: example_world_def example_db_def)
qed

subsection \<open>What a poll records\<close>

definition recorded :: "database \<Rightarrow> Transaction \<Rightarrow> bool" where
  "recorded d tx \<longleftrightarrow> (\<exists>i c. core d i = Some c \<and> same_payment tx c)"

lemma recorded_view: "core d' = core d \<Longrightarrow> recorded d' tx = recorded d tx"
  by (simp add: recorded_def)

text \<open>A store of a transaction reported by the node records it and forgets no other.\<close>

lemma StoreTransaction_records:
  assumes "StoreTransaction E tx w = (Ok t, tx', w')" "pk (db w)" "uuid_ok E" "ID tx = uuid_Nil"
  shows "pk (db w') \<and> recorded (db w') tx \<and> (recorded (db w) tx2 \<longrightarrow> recorded (db w') tx2)"
  using assms(1-3)
proof (cases rule: StoreTransaction_Ok)
  case (updated r)
  then have p: "same_payment tx r" using assms(4) by (simp add: matches_def)
  let ?c = "update_core tx (core_row r)"
  have c: "r_hash ?c = r_hash r" "r_direction ?c = r_direction r" "r_address ?c = r_address r"
    using p by (simp_all add: update_core_def same_payment_def)
  have keep: "\<exists>c'. core (db w') i = Some c' \<and> same_payment t2 c'"
    if "core (db w) i = Some d" "same_payment t2 d" for i d t2
  proof (cases "i = r_id r")
    case True
    with that core_lookup [OF assms(2) updated(1)] have "same_payment t2 r" by (auto simp: same_payment_def)
    then have "same_payment t2 ?c" unfolding same_payment_def c .
    with True show ?thesis by (simp add: updated(4))
  qed (use that in \<open>simp add: updated(4)\<close>)
  have "same_payment tx (core_row r)" using p by (simp add: same_payment_def)
  from keep [OF core_lookup [OF assms(2) updated(1)] this] have "recorded (db w') tx"
    unfolding recorded_def by blast
  with keep updated(5) show ?thesis unfolding recorded_def by blast
next
  case inserted
  have "Hash tx' = Hash tx \<and> Direction tx' = Direction tx \<and> Address tx' = Address tx"
    by (subst (1 2 3) inserted(2)) simp
  then have "same_payment tx (core_row (row_of_tx tx'))" by (simp add: same_payment_def row_of_tx_def)
  moreover have "core (db w) (ID tx') = None" using inserted(4) by (metis domIff dom_core)
  ultimately show ?thesis using inserted(5,6) unfolding recorded_def by (metis map_upd_Some_unfold option.distinct(1))
qed

lemma recorded_status:
  "recorded d (setTxStatusByConfirmations W (tx\<lparr>Metainfo := m\<rparr>)) = recorded d tx"
  by (simp add: recorded_def same_payment_def setTxStatusByConfirmations_def)

lemma updateTxInfo_records:
  assumes "updateTxInfo E W tx w = (Ok x, w')" "pk (db w)" "uuid_ok E" "ID tx = uuid_Nil"
  shows "pk (db w') \<and> recorded (db w') tx \<and> (recorded (db w) tx2 \<longrightarrow> recorded (db w') tx2)"
  using assms(1)
proof (rule updateTxInfo_Ok)
  fix m w1 st t w2
  assume 1: "same_view w w1" and 3: "same_view w2 w'" and
    2: "StoreTransaction E (setTxStatusByConfirmations W (tx\<lparr>Metainfo := m\<rparr>)) w1 = (Ok st, t, w2)"
  have "pk (db w1)" using 1 assms(2) pk_same_ids unfolding same_view_def by blast
  from StoreTransaction_records [OF 2 this assms(3), of tx2] assms(4)
  have "pk (db w2)" "recorded (db w2) tx" "recorded (db w1) tx2 \<longrightarrow> recorded (db w2) tx2"
    by (simp_all add: recorded_status)
  with 1 3 show ?thesis using recorded_view pk_same_ids unfolding same_view_def by metis
qed

lemma process_reported_records:
  "process_reported E W c bs w = (Ok x, w') \<Longrightarrow> pk (db w) \<Longrightarrow> uuid_ok E \<Longrightarrow>
     (recorded (db w) tx2 \<longrightarrow> recorded (db w') tx2) \<and>
     (\<forall>b \<in> set bs. recorded (db w') (NewTransactionFromBTCJSON b))"
proof (induction bs arbitrary: c w tx2)
  case (Cons b bs)
  from Cons.prems(1) obtain ch st w1 where 1: "updateTxInfo E W (NewTransactionFromBTCJSON b) w = (Ok (ch, st), w1)"
    and 2: "process_reported E W (c \<or> ch) bs w1 = (Ok x, w')"
    by (auto simp: ok_unfold)
  have "ID (NewTransactionFromBTCJSON b) = uuid_Nil" by (simp add: NewTransactionFromBTCJSON_def Let_def)
  note rec = updateTxInfo_records [OF 1 Cons.prems(2,3) this]
  from Cons.IH [OF 2 conjunct1 [OF rec] Cons.prems(3)] rec show ?case by auto
qed (simp add: returnE_def)

text \<open>
  C8: No deposit is missed. A poll of the node either leaves the database as it was, or every
  transaction the node listed since the last block seen is in the table (a row with its hash,
  direction and address) and the last block seen is the one the node named; so the pointer never
  moves past a transaction that is not recorded, whatever statement or commit fails.
\<close>

theorem deposits_recorded:
  assumes "transact E (new_transactions_body E W) w = (r, w')" "\<not> intx w" "pk (db w)" "uuid_ok E"
  shows "db w' = db w \<or>
    (\<exists>n txs lastBlock.
       e_ListTransactionsSinceBlock E n (case metadata_t (db w) ''last_seen_block_hash'' of None \<Rightarrow> [] | Some h \<Rightarrow> h) =
         Inr (txs, lastBlock) \<and>
       metadata_t (db w') ''last_seen_block_hash'' = Some lastBlock \<and>
       (\<forall>b \<in> set txs. recorded (db w') (NewTransactionFromBTCJSON b)))"
  using assms(1,2) calm.keeps_new_transactions_body
proof (cases rule: transact_atomic)
  case (committed x v)
  from committed(1) obtain h w1 ts b w2 w3 where
    1: "GetLastSeenBlockHash E ((tick w)\<lparr>intx := True\<rparr>) = (Ok h, w1)" and
    2: "ask (\<lambda>n. e_ListTransactionsSinceBlock E n h) w1 = (Ok (ts, b), w2)" and
    3: "process_reported E W False ts w2 = (Ok x, w3)" and
    4: "SetLastSeenBlockHash E b w3 = (Ok (), v)"
    unfolding new_transactions_body_def by (auto simp: ok_unfold go_simps)
  from 1 have h: "h = (case metadata_t (db w) ''last_seen_block_hash'' of None \<Rightarrow> [] | Some h \<Rightarrow> h)" "db w1 = db w"
    by (auto simp: GetLastSeenBlockHash_def GetMeta_def sql_query_def ok_unfold go_simps
        split: outcome.splits option.splits)
  from 2 have l: "e_ListTransactionsSinceBlock E (now w1) h = Inr (ts, b)" "db w2 = db w1"
    by (auto simp: ask_def split: sum.splits)
  from process_reported_records [OF 3] h l assms(3,4)
  have rec: "\<forall>b \<in> set ts. recorded (db w3) (NewTransactionFromBTCJSON b)" by simp
  from 4 have v: "db v = (db w3)\<lparr>metadata_t := (metadata_t (db w3))(''last_seen_block_hash'' \<mapsto> b)\<rparr>"
    by (auto simp: SetLastSeenBlockHash_def SetMeta_def dest!: sql_exec_Ok)
  then have "core (db w') = core (db w3)" by (simp add: core_def committed(2))
  from recorded_view [OF this] rec have "\<forall>b \<in> set ts. recorded (db w') (NewTransactionFromBTCJSON b)" by blast
  moreover have "metadata_t (db w') ''last_seen_block_hash'' = Some b" by (simp add: committed(2) v)
  ultimately show ?thesis using l(1) unfolding h(1) by blast
qed simp

definition deposit_env :: env where
  "deposit_env = example_env\<lparr>e_ListTransactionsSinceBlock := (\<lambda>_ _. Inr ([example_listed\<lparr>lt_Address := ''h''\<rparr>], ''block''))\<rparr>"

theorem deposits_recorded_witness:
  "recorded (db (snd (transact deposit_env (new_transactions_body deposit_env example_limits) example_world)))
     (NewTransactionFromBTCJSON (example_listed\<lparr>lt_Address := ''h''\<rparr>))"
proof -
  let ?run = "transact deposit_env (new_transactions_body deposit_env example_limits) example_world"
  have run: "?run = (fst ?run, snd ?run)" by simp
  have "metadata_t (db (snd ?run)) ''last_seen_block_hash'' = Some ''block''" by code_simp
  then have "db (snd ?run) \<noteq> db example_world" by (auto simp: example_world_def example_db_def)
  moreover have "\<not> intx example_world" "pk (db example_world)" "uuid_ok deposit_env"
    by (simp_all add: example_world_def example_db_def pk_def ids_def uuid_ok_def deposit_env_def example_env_def)
  ultimately obtain n txs lastBlock where
    "e_ListTransactionsSinceBlock deposit_env n (case metadata_t (db example_world) ''last_seen_block_hash'' of
       None \<Rightarrow> [] | Some h \<Rightarrow> h) = Inr (txs, lastBlock)"
    "\<forall>b \<in> set txs. recorded (db (snd ?run)) (NewTransactionFromBTCJSON b)"
    using deposits_recorded [OF run] by blast
  moreover have "e_ListTransactionsSinceBlock deposit_env n h = Inr ([example_listed\<lparr>lt_Address := ''h''\<rparr>], ''block'')" for n h
    by (simp add: deposit_env_def)
  ultimately show ?thesis by auto
qed

end
