(* ===== verification/Shortfall.thy ===== *)
theory Shortfall
  imports SafeWallet Example
begin

text \<open>
  Pending withdrawals (\<open>wallet/pending.go\<close>): how much money has to come from the cold storage,
  and what cancelling does.
\<close>

subsection \<open>Money required from the cold storage\<close>

text \<open>
  Both loops over the pending withdrawals take them from the front while the balance covers
  them; \<open>greedy\<close> is what they return.
\<close>

fun greedy :: "uint64 \<Rightarrow> Transaction list \<Rightarrow> uint64 \<times> Transaction list" where
  "greedy b [] = (b, [])"
| "greedy b (tx # txs) = (if 0 \<le> sint (b - Amount tx) then greedy (b - Amount tx) txs else (b, tx # txs))"

lemma send_fitting_greedy: "send_fitting E W b txs w = (Ok r, w') \<Longrightarrow> r = greedy b txs"
  by (induction txs arbitrary: b w) (auto simp: ok_unfold go_simps split: if_splits)

lemma mark_fitting_greedy: "mark_fitting E b txs w = (Ok r, w') \<Longrightarrow> r = greedy b txs"
  by (induction txs arbitrary: b w) (auto simp: ok_unfold go_simps split: if_splits)

definition amounts :: "Transaction list \<Rightarrow> nat" where
  "amounts txs = sum_list (map (\<lambda>tx. unat (Amount tx)) txs)"

lemma amounts_simps [simp]: "amounts [] = 0" "amounts (tx # txs) = unat (Amount tx) + amounts txs"
  "amounts (xs @ ys) = amounts xs + amounts ys"
  by (simp_all add: amounts_def)

lemma amounts_perm: "mset xs = mset ys \<Longrightarrow> amounts xs = amounts ys"
  unfolding amounts_def by (metis mset_map sum_mset_sum_list)

lemma mark_exceeding_left: "mark_exceeding E b txs w = (Ok l, w') \<Longrightarrow> l = b - of_nat (amounts txs)"
  by (induction txs arbitrary: b w) (fastforce simp: ok_unfold go_simps diff_diff_eq)+

lemma sint_nonneg_iff: "0 \<le> sint (x :: uint64) \<longleftrightarrow> unat x < 2 ^ 63"
proof -
  have "0 \<le> sint x \<longleftrightarrow> even (uint x div 2 ^ 63)"
    by (simp add: sint_uint bit_iff_odd)
  moreover have "uint x < 2 ^ 64" using uint_lt2p [of x] by simp
  then have "uint x div 2 ^ 63 = (if uint x < 2 ^ 63 then 0 else 1)"
    using uint_ge_0 [of x] by (auto simp: div_pos_geq)
  ultimately have "0 \<le> sint x \<longleftrightarrow> uint x < 2 ^ 63" by simp
  moreover have "uint x = int (unat x)" by simp
  ultimately show ?thesis by (metis of_nat_less_iff of_nat_numeral of_nat_power)
qed

lemma covered_iff:
  assumes "unat b < 2 ^ 63" "unat a < 2 ^ 63"
  shows "0 \<le> sint (b - a :: uint64) \<longleftrightarrow> unat a \<le> unat b"
    and "unat a \<le> unat b \<Longrightarrow> unat (b - a) = unat b - unat a"
  using assms unfolding sint_nonneg_iff by (auto simp: unat_sub_if')

lemma greedy_total:
  assumes "greedy b txs = (left, exceeding)" "unat b + amounts txs < 2 ^ 63"
  shows "\<exists>fitting. txs = fitting @ exceeding \<and> amounts fitting \<le> unat b \<and> unat left = unat b - amounts fitting \<and>
    (exceeding \<noteq> [] \<longrightarrow> unat left < amounts exceeding)"
  using assms
proof (induction txs arbitrary: b)
  case (Cons tx txs)
  have small: "unat b < 2 ^ 63" "unat (Amount tx) < 2 ^ 63" using Cons.prems(2) by auto
  show ?case
  proof (cases "unat (Amount tx) \<le> unat b")
    case True
    note diff = covered_iff(2) [OF small True]
    have rest: "greedy (b - Amount tx) txs = (left, exceeding)" "unat (b - Amount tx) + amounts txs < 2 ^ 63"
      using Cons.prems True covered_iff(1) [OF small] diff by auto
    from Cons.IH [OF rest] obtain fitting where f: "txs = fitting @ exceeding" "amounts fitting \<le> unat (b - Amount tx)"
      "unat left = unat (b - Amount tx) - amounts fitting" "exceeding \<noteq> [] \<longrightarrow> unat left < amounts exceeding" by blast
    then show ?thesis using diff True by (intro exI [of _ "tx # fitting"]) auto
  next
    case False
    with Cons.prems covered_iff(1) [OF small] show ?thesis by (intro exI [of _ "[]"]) auto
  qed
qed auto

text \<open>The shortfall: what the withdrawals add up to beyond the balance, as the code computes it.\<close>

lemma shortfall_word:
  assumes "unat left < amounts exceeding" "amounts exceeding < 2 ^ 63"
  shows "- (left - of_nat (amounts exceeding)) = (of_nat (amounts exceeding - unat left) :: uint64)"
proof -
  have "of_nat (amounts exceeding - unat left) = (of_nat (amounts exceeding) - of_nat (unat left) :: uint64)"
    using assms(1) by (simp add: of_nat_diff)
  then show ?thesis by simp
qed

lemma SetMoney_Ok:
  "SetMoneyRequiredFromColdStorage E x w = (Ok u, w') \<Longrightarrow>
     metadata_t (db w') ''money_required_from_cold_storage'' = Some (FormatUint x)"
  by (auto simp: SetMoneyRequiredFromColdStorage_def SetMeta_def dest!: sql_exec_Ok)

lemma mark_pending_Ok:
  assumes run: "mark_pending E b u txs w = (Ok x, w')"
    and small: "unat b + unat u + amounts txs < 2 ^ 63" and "unat b < amounts txs"
  shows "metadata_t (db w') ''money_required_from_cold_storage'' =
    Some (FormatUint (of_nat (amounts txs - (unat b + unat u))))"
proof -
  obtain left exceeding where split: "(if 0 < u then greedy (b + u) txs else (b, txs)) = (left, exceeding)"
    by (metis surj_pair)
  from run split have money: "metadata_t (db w') ''money_required_from_cold_storage'' =
      Some (FormatUint (if exceeding = [] then 0 else - (left - of_nat (amounts exceeding))))"
    by (auto simp: mark_pending_def ok_unfold go_simps split: if_splits
        dest!: mark_fitting_greedy mark_exceeding_left SetMoney_Ok)
  have sum: "unat (b + u) = unat b + unat u" using small by (simp add: unat_plus_if')
  have "\<exists>fitting. txs = fitting @ exceeding \<and> amounts fitting \<le> unat b + unat u \<and>
      unat left = unat b + unat u - amounts fitting \<and> (exceeding \<noteq> [] \<longrightarrow> unat left < amounts exceeding)"
  proof (cases "0 < u")
    case True
    with split have "greedy (b + u) txs = (left, exceeding)" by simp
    from greedy_total [OF this] small show ?thesis by (simp add: sum)
  next
    case False
    then have "u = 0" by (simp add: word_gt_0)
    with split assms(3) show ?thesis by (intro exI [of _ "[]"]) auto
  qed
  then obtain fitting where f: "txs = fitting @ exceeding" "amounts fitting \<le> unat b + unat u"
    "unat left = unat b + unat u - amounts fitting" "exceeding \<noteq> [] \<longrightarrow> unat left < amounts exceeding" by blast
  show ?thesis
  proof (cases "exceeding = []")
    case True
    with money f(1,2) show ?thesis by simp
  next
    case False
    with f small have "- (left - of_nat (amounts exceeding)) = (of_nat (amounts exceeding - unat left) :: uint64)"
      by (intro shortfall_word) auto
    moreover have "amounts exceeding - unat left = amounts txs - (unat b + unat u)" using f by simp
    ultimately show ?thesis using money False by simp
  qed
qed

lemma tryToUpdatePendingTxns_money:
  assumes run: "tryToUpdatePendingTxns E W w = (Ok x, w')" and "sort_ok E"
    and pending: "GetPendingTransactions E w = (Ok txns, w1)"
    and balance: "e_Balance E (now w1) = Inr (confBal, unconfBal)"
    and small: "unat confBal + unat unconfBal + amounts txns < 2 ^ 63" and "\<not> intx w"
  shows "metadata_t (db w') ''money_required_from_cold_storage'' =
    Some (FormatUint (of_nat (amounts txns - (unat confBal + unat unconfBal))))"
proof -
  let ?txs = "e_sortByAmount E txns"
  have sum: "amounts ?txs = amounts txns" using assms(2) by (intro amounts_perm) (simp add: sort_ok_def)
  from run pending balance obtain r w2 where s: "send_fitting E W confBal ?txs (tick w1) = (Ok r, w2)"
    and rest: "(case r of (b, exceeding) \<Rightarrow> if exceeding = [] then SetMoneyRequiredFromColdStorage E 0
        else transact E (mark_pending E b unconfBal exceeding)) w2 = (Ok x, w')"
    by (auto simp: tryToUpdatePendingTxns_def ok_unfold ask_def)
  obtain b exceeding where g: "greedy confBal ?txs = (b, exceeding)" by (metis surj_pair)
  have r: "r = (b, exceeding)" using send_fitting_greedy [OF s] g by simp
  from greedy_total [OF g] small sum obtain fitting where f: "?txs = fitting @ exceeding"
    "amounts fitting \<le> unat confBal" "unat b = unat confBal - amounts fitting"
    "exceeding \<noteq> [] \<longrightarrow> unat b < amounts exceeding" by auto
  show ?thesis
  proof (cases "exceeding = []")
    case True
    with rest r f sum show ?thesis by (auto dest!: SetMoney_Ok)
  next
    case False
    with rest r have t: "transact E (mark_pending E b unconfBal exceeding) w2 = (Ok x, w')" by simp
    have "\<not> intx w1" using pending assms(6)
      by (auto simp: GetPendingTransactions_def query_many_def ok_unfold sql_query_def go_simps
          split: outcome.splits sum.splits)
    then have n: "\<not> intx w2" using keepsD [OF outer.keeps_send_fitting s] by (simp add: outer_def)
    from t n calm.keeps_mark_pending show ?thesis
    proof (cases rule: transact_atomic)
      case (committed y v)
      have "unat b + unat unconfBal + amounts exceeding < 2 ^ 63" using f sum small by auto
      from mark_pending_Ok [OF committed(1) this] f(4) False
      have "metadata_t (db v) ''money_required_from_cold_storage'' =
        Some (FormatUint (of_nat (amounts exceeding - (unat b + unat unconfBal))))" by simp
      moreover have "amounts exceeding - (unat b + unat unconfBal) = amounts txns - (unat confBal + unat unconfBal)"
        using f sum by auto
      ultimately show ?thesis using committed(2) by simp
    qed simp
  qed
qed

text \<open>
  C19: The money required from the cold storage is the shortfall. When the pending withdrawals
  were processed without an error, the amount stored is what they add up to beyond the balance
  with its unconfirmed part (zero if the balance suffices); no wrap-around occurs as long as the
  sums stay below \<open>2 ^ 63\<close> satoshi.
\<close>

theorem money_required:
  assumes "tryToUpdatePendingTxns E W w = (Ok x, w')" and "sort_ok E"
    and "GetPendingTransactions E w = (Ok txns, w1)"
    and "e_Balance E (now w1) = Inr (confBal, unconfBal)"
    and "unat confBal + unat unconfBal + amounts txns < 2 ^ 63" and "\<not> intx w"
    and "e_sql F (now w') = Succeeds"
  shows "GetMoneyRequiredFromColdStorage F w' =
    (Ok (of_nat (amounts txns - (unat confBal + unat unconfBal))), tick w')"
  using tryToUpdatePendingTxns_money [OF assms(1-6)] assms(7)
  by (simp add: GetMoneyRequiredFromColdStorage_def GetMeta_def sql_query_def bindE_def go_simps ParseUint_FormatUint)

definition poor_env :: env where
  "poor_env = example_env\<lparr>e_Balance := (\<lambda>_. Inr (20, 5))\<rparr>"

definition poor_limits :: walletData where
  "poor_limits =
     \<lparr>hotWalletAddress = ''h'', coldWalletAddress = [], minWithdraw = 1, minFeePerKb = 1,
      minFeeFixed = 1, minWithdrawWithoutManualConfirmation = 50, maxConfirmations = 6\<rparr>"

definition poor_tx :: Transaction where
  "poor_tx =
     \<lparr>ID = 5, Hash = [], BlockHash = [], Confirmations = 0, Address = ''a'',
      Direction = OutgoingDirection, Status = PendingTransaction, Amount = 30, Metainfo = JNull,
      Fee = 1, FeeTypeOf = FixedFee, ColdStorage = False, Fresh = False, ReportedConfirmations = - 1\<rparr>"

definition poor_world :: world where
  "poor_world = example_world\<lparr>db := example_db\<lparr>transactions_t := [row_of_tx poor_tx]\<rparr>\<rparr>"

theorem money_required_witness:
  "fst (GetMoneyRequiredFromColdStorage example_env
     (snd (tryToUpdatePendingTxns poor_env poor_limits poor_world))) = Ok 5"
proof -
  let ?run = "tryToUpdatePendingTxns poor_env poor_limits poor_world"
  have "fst ?run = Ok ()" by code_simp
  then have 1: "?run = (Ok (), snd ?run)" by (simp add: prod_eq_iff)
  have 2: "sort_ok poor_env" by (simp add: sort_ok_def poor_env_def example_env_def comp_def)
  have "fst (GetPendingTransactions poor_env poor_world) = Ok [poor_tx]" by code_simp
  then have 3: "GetPendingTransactions poor_env poor_world = (Ok [poor_tx], snd (GetPendingTransactions poor_env poor_world))"
    by (simp add: prod_eq_iff)
  have a: "unat (Amount poor_tx) = 30" by (simp add: poor_tx_def)
  from money_required [OF 1 2 3, of 20 5 example_env] a show ?thesis
    by (simp add: poor_env_def poor_world_def example_world_def example_env_def)
qed

subsection \<open>Cancelling\<close>

lemma row_update_status:
  assumes "transactionFromDatabaseRow r = Inr tx"
  shows "update_core (tx\<lparr>Status := st\<rparr>) (core_row r) = (core_row r)\<lparr>r_status := Status_String st\<rparr>"
  using assms by (auto simp: transactionFromDatabaseRow_def update_core_def core_row_def split: sum.splits)

lemma cancel_in_tx_Ok:
  assumes "cancel_in_tx E i w = (Ok x, w')" "pk (db w)" "uuid_ok E"
  shows "\<exists>c tx. core (db w) i = Some c \<and> pending_name (r_status c) \<and>
    core (db w') = (core (db w))(i \<mapsto> c\<lparr>r_status := Status_String CancelledTransaction\<rparr>) \<and>
    ID tx = i \<and> Status tx = CancelledTransaction \<and>
    events_t (db w') = events_t (db w) @ [\<lparr>ev_seq = events_seq w,
      ev_type = EventType_String PendingTxCancelledEvent, ev_data = TxData (tx_notification (e_lib E) tx)\<rparr>]"
proof -
  from assms(1) obtain tx w1 where 1: "GetTransactionByID E i w = (Ok tx, w1)" and p: "pending_status (Status tx)"
    and u: "updatePendingTxStatus E tx CancelledTransaction w1 = (Ok x, w')"
    by (auto simp: cancel_in_tx_def ok_unfold go_simps split: if_splits)
  from 1 [unfolded GetTransactionByID_def] obtain r where r: "w1 = tick w" "r \<in> set (transactions_t (db w))" "r_id r = i"
    "transactionFromDatabaseRow r = Inr tx" by (cases rule: query_one_cases) auto
  note row = transactionFromDatabaseRow_ID [OF r(4)]
  from p have "Status tx \<noteq> CancelledTransaction" by (auto simp: pending_status_def)
  with u obtain t tx' w2 where s: "StoreTransaction E (tx\<lparr>Status := CancelledTransaction\<rparr>) w1 = (Ok t, tx', w2)"
    and n: "NotifyTransaction E PendingTxCancelledEvent tx' w2 = (Ok x, w')"
    by (auto simp: updatePendingTxStatus_def ok_unfold)
  have pk1: "pk (db w1)" and in_ids: "i \<in> set (ids (db w1))" using assms(2) r by (auto simp: ids_conv)
  then have nz: "i \<noteq> uuid_Nil" by (auto simp: pk_def)
  obtain v where v: "db v = db w1" "events_seq v = events_seq w1"
    "w2 = v \<or> (\<exists>rs. w2 = persist ((db w1)\<lparr>transactions_t := rs\<rparr>) (tick v))" by (rule StoreTransaction_exec [OF s])
  then have ev: "events_t (db w2) = events_t (db w) \<and> events_seq w2 = events_seq w"
    using r(1) by (auto simp: persist_def)
  from s pk1 assms(3) have "core (db w2) = (core (db w))(i \<mapsto> (core_row r)\<lparr>r_status := Status_String CancelledTransaction\<rparr>) \<and>
      tx' = tx\<lparr>Status := CancelledTransaction\<rparr>"
  proof (cases rule: StoreTransaction_Ok)
    case (updated r')
    then have "r_id r' = i" using row r in_ids nz by (simp add: matches_def)
    then have "r' = r" using updated(1) r assms(2) by (auto simp: pk_def ids_def intro: distinct_map_inj)
    with updated(3,4) r row_update_status [OF r(4)] show ?thesis by simp
  next
    case inserted
    with row r in_ids nz show ?thesis by (auto simp: matches_def)
  qed
  moreover from n have "db w' = (db w2)\<lparr>events_t := events_t (db w2) @ [\<lparr>ev_seq = events_seq w2,
      ev_type = EventType_String PendingTxCancelledEvent, ev_data = TxData (tx_notification (e_lib E) tx')\<rparr>]\<rparr>"
    by (auto simp: NotifyTransaction_def broker_Notify_def bindE_def StoreEvent_def Let_def persist_def go_simps
        split: outcome.splits if_splits)
  moreover have "core (db w) i = Some (core_row r)" using core_lookup [OF assms(2) r(2)] r(3) by simp
  moreover have "pending_name (r_status (core_row r))" using p row by (metis core_row_simps(3) pending_name_String)
  ultimately show ?thesis using row r(3) ev
    by (intro exI [of _ "core_row r"] exI [of _ tx']) (auto simp: core_def)
qed



end
