(* ===== verification/Retries.thy ===== *)
theory Retries
  imports Sender
begin

text \<open>
  How often things are tried again: the storing of a result (\<open>persistWithdrawResultWithRetry\<close>,
  \<open>persistHTTPCallbackSendResultWithRetry\<close>) and the delivery of a notification
  (\<open>handleHTTPCallbackError\<close>).
\<close>

subsection \<open>Storing a result\<close>

text \<open>The state after \<open>k\<close> attempts that all failed.\<close>

fun after_errors :: "('m \<Rightarrow> world \<Rightarrow> unit res \<times> 'm \<times> world) \<Rightarrow> nat \<Rightarrow> 'm \<Rightarrow> world \<Rightarrow> ('m \<times> world) option" where
  "after_errors f 0 m w = Some (m, w)"
| "after_errors f (Suc k) m w =
     (case f m w of (Error _, m', w') \<Rightarrow> after_errors f k m' w' | _ \<Rightarrow> None)"

lemma persistWithRetry_attempts:
  "persistWithRetry n f m w = (r, m', w') \<Longrightarrow>
     \<exists>k m1 w1 s. k \<le> n \<and> after_errors f k m w = Some (m1, w1) \<and> f m1 w1 = (s, m', w') \<and>
       (case s of Ok _ \<Rightarrow> r = Ok () | Panic p \<Rightarrow> r = Panic p | Error _ \<Rightarrow> k = n \<and> is_panic r)"
proof (induction n arbitrary: m w)
  case 0
  then show ?case by (intro exI [of _ 0]) (auto split: prod.splits res.splits)
next
  case (Suc n)
  obtain s m1 w1 where f: "f m w = (s, m1, w1)" by (metis prod_cases3)
  show ?case
  proof (cases s)
    case (Error e)
    with Suc.prems f have "persistWithRetry n f m1 w1 = (r, m', w')" by simp
    from Suc.IH [OF this] obtain k m2 w2 t where "k \<le> n" "after_errors f k m1 w1 = Some (m2, w2)"
      "f m2 w2 = (t, m', w')" "case t of Ok _ \<Rightarrow> r = Ok () | Panic p \<Rightarrow> r = Panic p | Error _ \<Rightarrow> k = n \<and> is_panic r"
      by blast
    with f Error show ?thesis by (intro exI [of _ "Suc k"] exI [of _ m2] exI [of _ w2] exI [of _ t]) (auto split: res.splits)
  qed (use Suc.prems f in \<open>auto intro!: exI [of _ 0]\<close>)
qed

text \<open>
  C24: Storing the result of a payment ends after at most eleven attempts, and gives up only by
  stopping the wallet. There is an attempt, the first or one after at most ten that failed, with
  whose effect the call ends: a success or a panic of that attempt is the result; if it failed
  too, it was the last one and the result is a panic, so that the lock stays set and no later
  request is served.
\<close>

theorem persist_result_bounded:
  assumes "persistWithdrawResultWithRetry f m w = (r, w')"
  shows "\<exists>k m1 w1 s m'. k \<le> 10 \<and> after_errors f k m w = Some (m1, w1) \<and> f m1 w1 = (s, m', w') \<and>
    (case s of Ok _ \<Rightarrow> r = Ok () | Panic p \<Rightarrow> r = Panic p | Error _ \<Rightarrow> k = 10 \<and> is_panic r)"
proof -
  from assms obtain m' where "persistWithRetry 10 f m w = (r, m', w')"
    by (auto simp: persistWithdrawResultWithRetry_def dropArg_def withdrawSaveRetries_def split: prod.splits)
  from persistWithRetry_attempts [OF this] show ?thesis by blast
qed

text \<open>An attempt that fails twice and then succeeds.\<close>

definition flaky :: "nat \<Rightarrow> world \<Rightarrow> unit res \<times> nat \<times> world" where
  "flaky m w = (if m < 2 then (Error ErrNoRows, m + 1, w) else (Ok (), m, w))"

theorem persist_result_bounded_witness:
  "\<exists>k m1 w1 s m'. k \<le> 10 \<and> after_errors flaky k 0 example_world = Some (m1, w1) \<and>
     flaky m1 w1 = (s, m', example_world) \<and> s = Ok ()"
proof -
  have "persistWithdrawResultWithRetry flaky 0 example_world = (Ok (), example_world)"
    by (simp add: persistWithdrawResultWithRetry_def dropArg_def withdrawSaveRetries_def flaky_def numeral_eq_Suc)
  from persist_result_bounded [OF this] obtain k m1 w1 s m' where "k \<le> 10"
    "after_errors flaky k 0 example_world = Some (m1, w1)" "flaky m1 w1 = (s, m', example_world)"
    "case s of Ok _ \<Rightarrow> Ok () = Ok () | Panic p \<Rightarrow> Ok () = Panic p | Error _ \<Rightarrow> k = 10 \<and> is_panic (Ok ())"
    by blast
  then show ?thesis by (cases s) auto
qed

subsection \<open>Delivering a notification\<close>

definition retries_ok :: "eventBrokerData \<Rightarrow> bool" where
  "retries_ok e \<longleftrightarrow> 0 < httpCallbackBackoff e \<longrightarrow>
     0 \<le> httpCallbackRetries e \<and> httpCallbackRetries e < httpCallbackBackoff e"

lemma send_event_retries:
  "send_event E ev e w = (Ok b, e', w') \<Longrightarrow> retries_ok e \<Longrightarrow> retries_ok e'"
  by (auto simp: send_event_def Let_def retries_ok_def handleHTTPCallbackError_def
      split: if_splits prod.splits res.splits)

lemma send_events_retries:
  "send_events E es e w = (Ok u, e', w') \<Longrightarrow> retries_ok e \<Longrightarrow> retries_ok e'"
proof (induction es arbitrary: e w)
  case (Cons ev es)
  obtain r e1 w1 where s: "send_event E ev e w = (r, e1, w1)" by (metis prod_cases3)
  with Cons show ?case by (cases r) (auto dest!: send_event_retries split: bool.splits if_splits)
qed simp

lemma persist_no_error: "persistHTTPCallbackSendResultWithRetry f w \<noteq> (Error err, w')"
proof
  assume "persistHTTPCallbackSendResultWithRetry f w = (Error err, w')"
  then obtain m' where "persistWithRetry httpCBResultSaveRetries (\<lambda>m v. case f v of (r, v') \<Rightarrow> (r, m, v')) () w =
      (Error err, m', w')"
    by (auto simp: persistHTTPCallbackSendResultWithRetry_def dropArg_def split: prod.splits)
  from persistWithRetry_attempts [OF this] obtain s :: "unit res" where
    "case s of Ok _ \<Rightarrow> Error err = Ok () | Panic p \<Rightarrow> Error err = Panic p | Error _ \<Rightarrow> is_panic (Error err :: unit res)"
    by (auto split: res.splits)
  then show False by (cases s) auto
qed

lemma send_event_no_error: "send_event E ev e w \<noteq> (Error err, e', w')"
  using persist_no_error by (auto simp: send_event_def Let_def elim!: sendData_cases split: if_splits prod.splits res.splits)

lemma send_events_no_error: "send_events E es e w \<noteq> (Error err, e', w')"
proof (induction es arbitrary: e w)
  case (Cons ev es)
  obtain r e1 w1 where s: "send_event E ev e w = (r, e1, w1)" by (metis prod_cases3)
  with Cons send_event_no_error [of E ev e w] show ?case by (cases r) (auto split: bool.splits)
qed simp

lemma sendHTTP_retries:
  assumes "sendHTTPCallbackNotifications E b e w = (r, e', w')" "retries_ok e" "\<not> is_panic r"
  shows "retries_ok e'"
proof -
  let ?e = "if httpCallbackIsRetrying e
    then e\<lparr>httpCallbackIsRetrying := False, httpCallbackRetryingSeq := - 1\<rparr> else e"
  have ok: "retries_ok ?e" using assms(2) by (simp add: retries_ok_def)
  have "e' = e \<or> e' = ?e \<or> (\<exists>es v. send_events E es ?e v = (r, e', w'))"
    using assms(1) by (auto simp: sendHTTPCallbackNotifications_def Let_def split: if_splits prod.splits res.splits)
  then show ?thesis
  proof (elim disjE exE)
    fix es v
    assume run: "send_events E es ?e v = (r, e', w')"
    with assms(3) send_events_no_error obtain u where "r = Ok u" by (cases r) auto
    with run ok send_events_retries show ?thesis by blast
  qed (use ok assms(2) in simp_all)
qed

lemma broker_dispatch_retries:
  assumes "broker_dispatch E wk e w = (r, e', w')" "retries_ok e" "\<not> is_panic r"
  shows "retries_ok e'"
proof (cases wk)
  case (HTTPTrigger b)
  with assms(1) have "sendHTTPCallbackNotifications E b e w = (r, e', w')" by (simp add: broker_dispatch_def)
  from sendHTTP_retries [OF this assms(2,3)] show ?thesis .
next
  case (MuteQueued i)
  obtain r1 e1 w1 where m: "mute E i e w = (r1, e1, w1)" by (metis prod_cases3)
  then have "e1 = e \<or> e1 = reset_retries e" unfolding mute_def by (simp split: prod.splits res.splits)
  moreover have "e' = e1" using assms(1) MuteQueued m by (cases r1) (simp_all add: broker_dispatch_def)
  ultimately have "e' = e \<or> e' = reset_retries e" by simp
  with assms(2) show ?thesis by (auto simp: reset_retries_def retries_ok_def)
qed (use assms(1,2) in \<open>auto simp: broker_dispatch_def sendWSNotifications_def retries_ok_def
    split: prod.splits res.splits\<close>)

lemma perform_retries:
  assumes "perform E W op e w = (r, e', w')" "retries_ok e" "\<not> is_panic r"
  shows "retries_ok e'"
proof (cases op)
  case (OnBroker wk)
  with assms(1) have "broker_dispatch E wk e w = (r, e', w')" by (simp add: perform_def)
  from broker_dispatch_retries [OF this assms(2,3)] show ?thesis .
qed (use assms(1,2) in \<open>auto simp: perform_def broker_SubscribeFromSeq_def broker_UnsubscribeFromSeq_def
    retries_ok_def split: prod.splits\<close>)

text \<open>
  A notification is retried at most \<open>http_callback_backoff\<close> times. In every state of a running
  process with a positive limit, the counter of retries is below the limit; with the next failure
  that reaches it the sender gives the event up and the counter starts again at zero.
\<close>

theorem retry_counter_bounded:
  assumes "life E d0 (Some (W, e)) w" and "0 < httpCallbackBackoff e"
  shows "0 \<le> httpCallbackRetries e \<and> httpCallbackRetries e < httpCallbackBackoff e"
proof -
  have "retries_ok (NewEventBroker backoff)" for backoff by (simp add: retries_ok_def NewEventBroker_def)
  note new = this
  have "life E d0 ph w \<Longrightarrow> ph = Some (W, e) \<Longrightarrow> retries_ok e" for ph W e w
    by (induction arbitrary: W e rule: life.induct) (auto intro: perform_retries new)
  with assms show ?thesis by (auto simp: retries_ok_def)
qed

theorem retry_counter_bounded_witness:
  "0 \<le> httpCallbackRetries (NewEventBroker 3) \<and>
   httpCallbackRetries (NewEventBroker 3) < httpCallbackBackoff (NewEventBroker 3)"
  by (rule retry_counter_bounded [OF event_life]) (simp add: NewEventBroker_def)

definition rejecting :: "env \<Rightarrow> bool" where
  "rejecting E \<longleftrightarrow> (\<forall>n body. e_Post E n body \<noteq> Inr 200)"

text \<open>
  C28: An event that cannot be delivered does not block the others for ever. With a working
  database and a client that refuses, an attempt to deliver an event either leaves it to be tried
  again, with the counter one higher and the number of the last event sent unchanged, or - when the
  counter reaches the limit - gives it up: the event counts as sent, the counter is zero and the
  loop goes on to the next event.
\<close>

theorem undeliverable_given_up:
  assumes "healthy E" "rejecting E" "flattens (ns_Data ev)" "ns_Type ev \<noteq> NewAddressEvent"
    and "0 < httpCallbackBackoff e" and "int64_ok (ns_Seq ev)"
  shows "\<exists>e' w'. send_event E ev e w =
      (Ok (httpCallbackBackoff e \<le> httpCallbackRetries e + 1), e', w') \<and>
    (if httpCallbackBackoff e \<le> httpCallbackRetries e + 1
     then last_sent (db w') = Inr (ns_Seq ev) \<and> httpCallbackRetries e' = 0
     else last_sent (db w') = last_sent (db w) \<and> httpCallbackRetries e' = httpCallbackRetries e + 1 \<and>
       httpCallbackIsRetrying e' \<and> httpCallbackRetryingSeq e' = ns_Seq ev)"
proof -
  obtain w1 where 1: "transact E (LockHTTPCallback E (ns_Seq ev)) w = (Ok (), w1)"
    and d1: "db w1 = set_meta ''http_callback_operation'' (Itoa (ns_Seq ev)) (db w)"
    using transact_healthy [OF assms(1), of "LockHTTPCallback E (ns_Seq ev)" w]
    by (simp add: LockHTTPCallback_def SetMeta_healthy [OF assms(1)])
  from marshalFlattenedEvent_Ok [OF assms(3)] obtain body where body: "marshalFlattenedEvent (e_lib E) ev = Ok body" by blast
  have "e_Post E (now w1) body \<noteq> Inr 200" using assms(2) by (simp add: rejecting_def)
  then obtain err where "(case e_Post E (now w1) body of Inl err \<Rightarrow> Some err | Inr code \<Rightarrow>
      if code = 200 then None else Some (GoError ''Got response with code calling HTTP callback'')) = Some err"
    by (cases "e_Post E (now w1) body") auto
  then obtain w2 where 2: "sendDataToHTTPCallback E ev w1 = (Ok (Some err), w2)" and d2: "db w2 = db w1"
    using body by (simp add: sendDataToHTTPCallback_def Let_def)
  obtain w3 where 3: "transact E (store_sent E (ns_Seq ev)) w2 = (Ok (), w3)"
    and d3: "last_sent (db w3) = Inr (ns_Seq ev)"
    using transact_healthy [OF assms(1), of "store_sent E (ns_Seq ev)" w2] assms(6)
    by (simp add: store_sent_def StoreLastHTTPSentSeq_def ClearHTTPCallback_def bindE_def
        SetMeta_healthy [OF assms(1)] last_sent_def set_meta_def Atoi_Itoa int64_ok_def)
  obtain w4 where 4: "transact E (ClearHTTPCallback E) w2 = (Ok (), w4)" and d4: "last_sent (db w4) = last_sent (db w)"
    using transact_healthy [OF assms(1), of "ClearHTTPCallback E" w2]
    by (simp add: ClearHTTPCallback_def SetMeta_healthy [OF assms(1)] last_sent_def set_meta_def d1 d2)
  show ?thesis using assms(4,5) 1 2 persist_at_once [of "transact E (store_sent E (ns_Seq ev))", OF 3]
      persist_at_once [of "transact E (ClearHTTPCallback E)", OF 4] d3 d4
    by (auto simp: send_event_def Let_def handleHTTPCallbackError_def)
qed

theorem undeliverable_given_up_witness:
  "\<exists>e' w'. send_event (example_env\<lparr>e_Post := (\<lambda>_ _. Inr 500)\<rparr>)
      \<lparr>ns_Type = NewOutgoingTxEvent, ns_Data = OtherData (JObj []), ns_Seq = 7\<rparr> (NewEventBroker 1) example_world =
      (Ok True, e', w') \<and> last_sent (db w') = Inr 7"
  using undeliverable_given_up [of "example_env\<lparr>e_Post := (\<lambda>_ _. Inr 500)\<rparr>"
      "\<lparr>ns_Type = NewOutgoingTxEvent, ns_Data = OtherData (JObj []), ns_Seq = 7\<rparr>" "NewEventBroker 1" example_world]
  by (auto simp: healthy_def rejecting_def example_env_def NewEventBroker_def int64_ok_def)

end
