(* ===== verification/Startup.thy ===== *)
theory Startup
  imports Sender
begin

text \<open>
  Starting the process (\<open>cmd/bitcoin-processing/main.go\<close>, \<open>wallet/integrity.go\<close>,
  \<open>events/integrity.go\<close>, \<open>wallet/hotwallet.go\<close>, \<open>wallet/coldwallet.go\<close>), and the event
  table over the life of the installation.
\<close>

subsection \<open>Refusing to start\<close>

text \<open>
  C21: After a crash in the middle of a payment or of a notification the process does not start.
  While one of the two locks is set, the start-up panics before any goroutine runs: nothing is
  written to the database, nothing is sent to the node or to the client.
\<close>

theorem start_refused:
  assumes "start E hs cs W w = (r, w')" "locked (db w) \<or> http_locked (db w)"
  shows "is_panic r \<and> db w' = db w \<and> trace w' = trace w"
proof -
  obtain r1 w1 where 1: "wallet_Check E w = (r1, w1)" by (metis surj_pair)
  obtain r2 w2 where 2: "broker_Check E w1 = (r2, w2)" by (metis surj_pair)
  have s1: "silent w w1" by (rule keepsD [OF silent_checks(1) 1])
  have s2: "silent w w2" by (rule silent.trans [OF s1 keepsD [OF silent_checks(2) 2]])
  have p: "is_ok r1 \<or> is_panic r1" "is_ok r2 \<or> is_panic r2"
    using 1 2 by (auto simp: wallet_Check_def broker_Check_def catchE_def go_simps
        split: prod.splits res.splits sum.splits if_splits)
  have "\<not> (is_ok r1 \<and> is_ok r2)"
  proof
    assume "is_ok r1 \<and> is_ok r2"
    then obtain x y where "r1 = Ok x" "r2 = Ok y" by (cases r1; cases r2) auto
    with 1 2 wallet_Check_Ok [of E w x w1] broker_Check_Ok [of E w1 y w2] s1 assms(2) show False
      by (auto simp: silent_def)
  qed
  with assms(1) 1 2 p s1 s2 show ?thesis
    by (cases r1; cases r2) (auto simp: start_def bindE_def silent_def)
qed

definition locked_world :: world where
  "locked_world = example_world\<lparr>db := set_meta ''wallet_operation'' ''{}'' example_db\<rparr>"

theorem start_refused_witness:
  "is_panic (fst (start example_env ''h'' [] event_wallet locked_world))"
proof -
  let ?run = "start example_env ''h'' [] event_wallet locked_world"
  have "locked (db locked_world)" by code_simp
  moreover have "?run = (fst ?run, snd ?run)" by simp
  ultimately show ?thesis using start_refused [of example_env "''h''" "[]" event_wallet locked_world] by blast
qed

subsection \<open>The addresses\<close>

lemma initHotWallet_Ok:
  assumes "initHotWallet E hs W w = (Ok W', w')"
  shows "(\<exists>n info. e_GetAddressInfo E n (hotWalletAddress W') = Inr info \<and> IsMine info) \<and>
    coldWalletAddress W' = coldWalletAddress W \<and> (hs \<noteq> [] \<longrightarrow> hotWalletAddress W' = hs)"
proof -
  from assms obtain a w1 x where a: "getOrCreateHotWallet E hs w = (Ok a, w1)"
    and c: "checkHotWalletAddress E (W\<lparr>hotWalletAddress := a\<rparr>) w1 = (Ok x, w')" and W': "W' = W\<lparr>hotWalletAddress := a\<rparr>"
    by (auto simp: initHotWallet_def Let_def ok_unfold go_simps)
  from c have "\<exists>info. e_GetAddressInfo E (now w1) a = Inr info \<and> IsMine info"
    by (cases "e_GetAddressInfo E (now w1) a")
      (auto simp: checkHotWalletAddress_def catchE_def ask_def go_simps split: if_splits)
  moreover have "hs \<noteq> [] \<longrightarrow> a = hs" using a by (auto simp: getOrCreateHotWallet_def go_simps)
  ultimately show ?thesis using W' by auto
qed

lemma initColdWallet_Ok:
  assumes "initColdWallet E cs W w = (Ok W', w')"
  shows "W' = W\<lparr>coldWalletAddress := cs\<rparr> \<and>
    (cs \<noteq> [] \<longrightarrow> (\<exists>n info. e_GetAddressInfo E n cs = Inr info \<and> \<not> IsMine info))"
  using assms
  by (auto simp: initColdWallet_def Let_def catchE_def ask_def go_simps split: sum.splits if_splits)

text \<open>
  C37: A process that came up works on addresses the node vouched for: the node named the hot
  wallet address as one of its own, and the cold wallet address, if one is configured, as not its
  own; both are those of the settings where the settings give them.
\<close>

theorem start_addresses:
  assumes "start E hs cs W w = (Ok W', w')"
  shows "(\<exists>n info. e_GetAddressInfo E n (hotWalletAddress W') = Inr info \<and> IsMine info) \<and>
    coldWalletAddress W' = cs \<and> (hs \<noteq> [] \<longrightarrow> hotWalletAddress W' = hs) \<and>
    (cs \<noteq> [] \<longrightarrow> (\<exists>n info. e_GetAddressInfo E n cs = Inr info \<and> \<not> IsMine info))"
proof -
  from assms obtain w1 W1 w2 W2 w3 w4 where h: "initHotWallet E hs W w1 = (Ok W1, w2)"
    and c: "initColdWallet E cs W1 w3 = (Ok W2, w4)" and "W' = W2"
    by (auto simp: start_def wallet_init_def ok_unfold go_simps)
  with initHotWallet_Ok [OF h] initColdWallet_Ok [OF c] show ?thesis by simp
qed

theorem start_addresses_witness:
  "\<exists>n info. e_GetAddressInfo example_env n (hotWalletAddress event_wallet) = Inr info \<and> IsMine info"
proof -
  have "start example_env ''h'' [] event_wallet event_world = (Ok event_wallet, snd event_start)"
    using event_start_facts by (simp add: event_start_def prod_eq_iff)
  from start_addresses [OF this] show ?thesis by blast
qed

subsection \<open>The event table\<close>



lemma decode_events_pairs:
  "decode_events L rs = Inr es \<Longrightarrow>
     map (\<lambda>ev. (ns_Seq ev, ns_Data ev)) es = map (\<lambda>r. (ev_seq r, generic_data L (ev_data r))) rs"
  by (induction rs arbitrary: es) (auto split: sum.splits)



subsection \<open>Muting\<close>

text \<open>
  C38: A muted transaction is not reported any more. After a successful \<open>mute\<close> with an identifier,
  every query for events returns what it returned before without the events of that transaction;
  the other events and their order stay.
\<close>

theorem muted_not_reported:
  assumes "mute E i e w = (Ok x, e', w')" "i \<noteq> uuid_Nil"
  shows "select_events seq (db w') = filter (\<lambda>r. data_id (ev_data r) \<noteq> Some i) (select_events seq (db w))"
proof -
  obtain w1 where "MuteEventsWithTxID E i w = (Ok (), w1)" "w' = w1" using assms
    by (auto simp: mute_def mute_target_def bindE_def go_simps split: prod.splits res.splits)
  then have d: "db w' = (db w)\<lparr>muted_t := muted_t (db w) @ [i]\<rparr>"
    by (auto simp: MuteEventsWithTxID_def catchE_def add_muted_def go_simps dest!: sql_exec_Ok
        split: prod.splits res.splits go_error.splits if_splits)
  have "filter (\<lambda>r. seq \<le> ev_seq r \<and> \<not> row_muted (db w') r) (events_t (db w)) =
      filter (\<lambda>r. data_id (ev_data r) \<noteq> Some i) (filter (\<lambda>r. seq \<le> ev_seq r \<and> \<not> row_muted (db w) r) (events_t (db w)))"
    by (auto simp: d row_muted_def intro!: filter_cong split: option.splits)
  then show ?thesis by (simp add: select_events_def d filter_sort)
qed

definition told_row :: event_row where
  "told_row = \<lparr>ev_seq = 1, ev_type = ''new-outgoing-tx'',
     ev_data = TxData (tx_notification example_lib (NewTransactionFromBTCJSON
       \<lparr>lt_TxID = ''h'', lt_BlockHash = [], lt_Confirmations = 0, lt_Address = ''a'', lt_Category = ''send'',
        lt_NewAmount = Inr 30\<rparr>\<lparr>ID := 5\<rparr>))\<rparr>"

definition told_world :: world where
  "told_world = example_world\<lparr>db := example_db\<lparr>events_t := [told_row]\<rparr>\<rparr>"

theorem muted_not_reported_witness:
  "select_events 1 (db told_world) = [told_row] \<and>
   select_events 1 (db (snd (snd (mute example_env 5 (NewEventBroker 3) told_world)))) = []"
proof -
  let ?run = "mute example_env 5 (NewEventBroker 3) told_world"
  have ev: "events_t (db told_world) = [told_row]" "muted_t (db told_world) = []"
    by (simp_all add: told_world_def example_db_def)
  have id: "data_id (ev_data told_row) = Some 5" "ev_seq told_row = 1" by (simp_all add: told_row_def tx_notification_def)
  have sel: "select_events 1 (db told_world) = [told_row]"
    by (simp add: select_events_def ev row_muted_def id)
  have "fst ?run = Ok ()" by code_simp
  then have run: "?run = (Ok (), fst (snd ?run), snd (snd ?run))" by (simp add: prod_eq_iff)
  from muted_not_reported [OF run, of 1] sel id show ?thesis by simp
qed

end
