(* ===== verification/Payments.thy ===== *)
theory Payments
  imports Sender
begin

text \<open>
  What a withdrawal does when nothing fails (\<open>wallet/withdraw.go\<close>): a payment through the node,
  and a transfer between two accounts of the wallet.
\<close>

subsection \<open>Storage calls that succeed\<close>

lemma query_one_none:
  "healthy E \<Longrightarrow> \<forall>x \<in> set (transactions_t (db w)). \<not> P x \<Longrightarrow> query_one E P w = (Error ErrNoRows, tick w)"
  by (simp add: query_one_def bindE_def sql_query_def healthy_def first_row_def go_simps filter_empty_conv)

lemma lookup_existing_none:
  "healthy E \<Longrightarrow> \<forall>x \<in> set (transactions_t (db w)). \<not> P x \<Longrightarrow>
     lookup_existing (query_one E P) w = (Ok None, tick w)"
  by (simp add: lookup_existing_def catchE_def query_one_none go_simps)

definition unknown_tx :: "Transaction \<Rightarrow> database \<Rightarrow> bool" where
  "unknown_tx tx d \<longleftrightarrow> ID tx \<noteq> uuid_Nil \<and>
     (\<forall>r \<in> set (transactions_t d). r_id r \<noteq> ID tx \<and> (Hash tx \<noteq> [] \<longrightarrow> r_hash r \<noteq> Hash tx))"

lemma StoreTransaction_healthy:
  assumes "healthy E" "intx w" "unknown_tx tx (db w)"
  shows "\<exists>w'. StoreTransaction E tx w = (Ok tx, tx, w') \<and> intx w' \<and> trace w' = trace w \<and>
    db w' = (db w)\<lparr>transactions_t := transactions_t (db w) @ [row_of_tx tx]\<rparr>"
proof -
  have "\<exists>w1. existing_transaction E tx w = (Ok None, w1) \<and> db w1 = db w \<and> intx w1 \<and> trace w1 = trace w"
    using assms unfolding existing_transaction_def GetTransactionByID_def GetTransactionByHashDirectionAndAddress_def
    by (cases "Hash tx = []") (auto simp: unknown_tx_def bindE_def lookup_existing_none go_simps)
  then obtain w1 where w1: "existing_transaction E tx w = (Ok None, w1)" "db w1 = db w" "intx w1" "trace w1 = trace w"
    by blast
  moreover have "ID tx \<notin> r_id ` set (transactions_t (db w))" using assms(3) by (auto simp: unknown_tx_def)
  ultimately show ?thesis using assms
    by (simp add: StoreTransaction_def unknown_tx_def sql_exec_def insert_tx_def healthy_def persist_def)
qed

lemma notify_loop_healthy:
  assumes "healthy E" "Direction tx = IncomingDirection \<or> Direction tx = OutgoingDirection"
  shows "\<exists>tx' w'. notify_loop E W ns tx w = (Ok (), tx', w')"
  using assms(2)
proof (induction ns arbitrary: tx w)
  case (Cons i ns)
  obtain et where et: "getTransactionNotificationType i tx = Ok et"
    using Cons.prems by (cases "i = 0") (auto simp: getTransactionNotificationType_def)
  obtain w1 where n: "NotifyTransaction E et (notification_for W i tx) w = (Ok (), w1)"
    using assms(1) by (simp add: NotifyTransaction_def broker_Notify_def bindE_def StoreEvent_def healthy_def Let_def go_simps)
  obtain w2 where u: "updateReportedConfirmations E tx i w1 = (Ok (), tx\<lparr>ReportedConfirmations := i\<rparr>, w2)"
    using assms(1) by (simp add: updateReportedConfirmations_def sql_exec_def healthy_def)
  from Cons.IH [of "tx\<lparr>ReportedConfirmations := i\<rparr>" w2] Cons.prems et n u show ?case
    by (simp add: notify_step_def)
qed simp

lemma notifyTransaction_healthy:
  assumes "healthy E" "Direction tx = IncomingDirection \<or> Direction tx = OutgoingDirection" "intx w"
  shows "\<exists>tx' w'. notifyTransaction E W tx w = (Ok (), tx', w') \<and> same_view w w' \<and> intx w' \<and> trace w' = trace w"
proof -
  from notify_loop_healthy [OF assms(1,2)] obtain tx' w' where n: "notifyTransaction E W tx w = (Ok (), tx', w')"
    unfolding notifyTransaction_def Let_def by blast
  with keeps3D [OF same_view.keeps_notifyTransaction n] calm_intx [OF keeps3D [OF calm.keeps_notifyTransaction n] assms(3)]
  show ?thesis by blast
qed

lemma MakeTransact_healthy:
  assumes "healthy E" and "f m ((tick w)\<lparr>intx := True\<rparr>) = (Ok x, m', v)"
  shows "MakeTransactIfAvailable E f m w =
    (Ok x, m', (tick v)\<lparr>intx := False, trace := EffCommit (db v) # trace v\<rparr>)"
  using assms by (simp add: healthy_def MakeTransactIfAvailable_def db_Begin_def db_Commit_def Let_def)

subsection \<open>A payment through the node\<close>

lemma persist_success_healthy:
  assumes "healthy E" "intx w" "unknown_tx tx (db w)" "Direction tx = OutgoingDirection"
  shows "\<exists>tx' w'. persist_success E W tx w = (Ok (), tx', w') \<and> trace w' = trace w \<and>
    core (db w') = (core (db w))(ID tx \<mapsto> core_row (row_of_tx tx)) \<and> \<not> locked (db w')"
proof -
  from StoreTransaction_healthy [OF assms(1-3)] obtain w1 where s: "StoreTransaction E tx w = (Ok tx, tx, w1)"
    "intx w1" "trace w1 = trace w" "db w1 = (db w)\<lparr>transactions_t := transactions_t (db w) @ [row_of_tx tx]\<rparr>" by blast
  have "ID tx \<notin> set (ids (db w))" using assms(3) by (auto simp: unknown_tx_def ids_conv)
  from core_insert [OF this] s(4) have c1: "core (db w1) = (core (db w))(ID tx \<mapsto> core_row (row_of_tx tx))" by simp
  obtain tx' w2 where n: "(if \<not> ColdStorage tx then notifyTransaction E W tx w1 else (Ok (), tx, w1)) = (Ok (), tx', w2)"
    "same_view w1 w2" "intx w2" "trace w2 = trace w1"
    using notifyTransaction_healthy [OF assms(1) _ s(2), of tx W] assms(4) s(2) same_view.refl [of w1]
    by (cases "ColdStorage tx") auto
  have "persist_success E W tx w = (Ok (), tx', (tick w2)\<lparr>db := set_meta ''wallet_operation'' [] (db w2)\<rparr>)"
    using s(1) n by (simp add: persist_success_def bindE_def onMem_app onWorld_def ClearWallet_def SetMeta_healthy [OF assms(1)])
  then show ?thesis using c1 s(3) n
    by (simp add: same_view_def locked_def set_meta_def core_def)
qed

text \<open>
  A new withdrawal to an address of others reaches the node with the lock set, in the state \<open>w1\<close>,
  and ends with the result of storing the node's answer.
\<close>

definition pays_from :: "env \<Rightarrow> walletData \<Rightarrow> Transaction \<Rightarrow> world \<Rightarrow> world \<Rightarrow> bool" where
  "pays_from E W tx w w1 \<longleftrightarrow>
     transactions_t (db w1) = transactions_t (db w) \<and> paid (trace w1) = paid (trace w) \<and>
     (\<forall>r w2 w3. sendMoney E tx w1 = (Ok r, w2) \<longrightarrow>
       (case r of Inl err \<Rightarrow> handleWithdrawalError E err tx | Inr h \<Rightarrow> handleWithdrawalSuccess E W tx h) w2 = (Ok (), w3) \<longrightarrow>
       (\<exists>w4. wallet_withdraw E W tx False w = (Ok (), w4) \<and> db w4 = db w3 \<and> trace w4 = trace w3))"

lemma wallet_withdraw_healthy:
  assumes "healthy E" "\<not> intx w" "ID tx \<notin> set (ids (db w))"
    and "map_of (accounts_t (db w)) (Address tx) = None"
    and "FeeTypeOf tx = PerKBRateFee \<or> FeeTypeOf tx = FixedFee"
  shows "\<exists>w1. pays_from E W tx w w1"
proof -
  have new: "\<forall>r \<in> set (transactions_t (db w)). r_id r \<noteq> ID tx" using assms(3) unfolding ids_conv by (metis image_eqI)
  have free: "ensureTxIDIsFree E (ID tx) w = (Ok (), tick w)"
    using new by (simp add: ensureTxIDIsFree_def GetTransactionByID_def catchE_def query_one_none [OF assms(1)] go_simps)
  have account: "GetAccountByAddress E (Address tx) (tick w) = (Ok None, tick (tick w))"
    using assms(1,4) by (simp add: GetAccountByAddress_def bindE_def sql_query_def healthy_def go_simps)
  obtain w1 where lock: "transact E (LockWallet E (withdraw_operation (e_lib E) tx)) (tick (tick w)) = (Ok (), w1)"
    and d1: "transactions_t (db w1) = transactions_t (db w)" "paid (trace w1) = paid (trace w)" "\<not> intx w1"
    using transact_healthy [OF assms(1), of "LockWallet E (withdraw_operation (e_lib E) tx)" "tick (tick w)"]
    by (simp add: LockWallet_def SetMeta_healthy [OF assms(1)] set_meta_def)
  with free account assms(5) have "pays_from E W tx w w1"
    by (auto simp: pays_from_def wallet_withdraw_def sendWithdrawal_def bindE_def SendNotifications_def
        schedulePendingTxUpdate_def go_simps)
  then show ?thesis ..
qed

text \<open>
  C7: A withdrawal completes. If the database works, the identifier is new, the address is not
  one of the wallet's own, the fee type is one of the two kinds and the node accepts the payment,
  then the request returns without an error; the node was paid exactly once for it, the table has
  the withdrawal with its hash and the status \<open>new\<close>, every other row is as before, and the wallet
  lock is cleared.
\<close>

theorem withdrawal_completes:
  assumes "healthy E" "\<not> intx w"
    and "ID tx \<noteq> uuid_Nil" "ID tx \<notin> set (ids (db w))" "Direction tx = OutgoingDirection"
    and "map_of (accounts_t (db w)) (Address tx) = None"
    and "FeeTypeOf tx = PerKBRateFee \<or> FeeTypeOf tx = FixedFee"
    and "\<forall>n. e_Send E n (FeeTypeOf tx) (Address tx) (Amount tx) (Fee tx) True = Inr (hash n)"
    and "\<forall>n. \<forall>r \<in> set (transactions_t (db w)). r_hash r \<noteq> hash n"
  shows "\<exists>w' n. wallet_withdraw E W tx False w = (Ok (), w') \<and> paid (trace w') = ID tx # paid (trace w) \<and>
    core (db w') = (core (db w))(ID tx \<mapsto>
      core_row (row_of_tx (tx\<lparr>Status := NewTransaction, Hash := hash n\<rparr>))) \<and> \<not> locked (db w')"
proof -
  from wallet_withdraw_healthy [OF assms(1,2,4,6,7)] obtain w1 where "pays_from E W tx w w1" by blast
  then have d1: "transactions_t (db w1) = transactions_t (db w)" "paid (trace w1) = paid (trace w)"
    and ends: "\<And>r w2 w3. sendMoney E tx w1 = (Ok r, w2) \<Longrightarrow>
      (case r of Inl err \<Rightarrow> handleWithdrawalError E err tx | Inr h \<Rightarrow> handleWithdrawalSuccess E W tx h) w2 = (Ok (), w3) \<Longrightarrow>
      \<exists>w4. wallet_withdraw E W tx False w = (Ok (), w4) \<and> db w4 = db w3 \<and> trace w4 = trace w3"
    unfolding pays_from_def by blast+
  have new: "\<forall>r \<in> set (transactions_t (db w)). r_id r \<noteq> ID tx" using assms(4) unfolding ids_conv by (metis image_eqI)
  let ?h = "hash (now w1)"
  let ?tx = "tx\<lparr>Status := NewTransaction, Hash := ?h\<rparr>"
  obtain w2 where send: "sendMoney E tx w1 = (Ok (Inr ?h), w2)" and d2: "db w2 = db w1" "paid (trace w2) = ID tx # paid (trace w)"
    using assms(8) d1 by (simp add: sendMoney_def Let_def)
  have "unknown_tx ?tx (db ((tick w2)\<lparr>intx := True\<rparr>))"
    using assms(3,9) new by (simp add: unknown_tx_def d1 d2)
  from persist_success_healthy [OF assms(1) _ this, of W] assms(5) obtain tx' w3 where
    p: "persist_success E W ?tx ((tick w2)\<lparr>intx := True\<rparr>) = (Ok (), tx', w3)" "trace w3 = trace w2"
    "core (db w3) = (core (db w1))(ID tx \<mapsto> core_row (row_of_tx ?tx))" "\<not> locked (db w3)" by (auto simp: d2)
  from MakeTransact_healthy [OF assms(1), of "persist_success E W" ?tx w2, OF p(1)] obtain w4 where
    m: "handleWithdrawalSuccess E W tx ?h w2 = (Ok (), w4)" and d4: "db w4 = db w3" "paid (trace w4) = paid (trace w3)"
    by (simp add: handleWithdrawalSuccess_def persistWithdrawResultWithRetry_def dropArg_def withdrawSaveRetries_def
        numeral_eq_Suc)
  obtain w5 where "wallet_withdraw E W tx False w = (Ok (), w5)" "db w5 = db w4" "trace w5 = trace w4"
    using ends [OF send] m by auto
  moreover have "core (db w1) = core (db w)" using d1(1) by (simp add: core_def)
  ultimately show ?thesis using p d2 d4 by auto
qed

definition example_outgoing :: Transaction where
  "example_outgoing =
     \<lparr>ID = 5, Hash = [], BlockHash = [], Confirmations = 0, Address = ''dest'',
      Direction = OutgoingDirection, Status = NewTransaction, Amount = 30, Metainfo = JNull,
      Fee = 1, FeeTypeOf = FixedFee, ColdStorage = False, Fresh = True, ReportedConfirmations = - 1\<rparr>"

theorem withdrawal_completes_witness:
  "\<exists>w'. wallet_withdraw example_env event_wallet example_outgoing False example_world = (Ok (), w') \<and>
     paid (trace w') = [5] \<and> \<not> locked (db w')"
  using withdrawal_completes [of example_env example_world example_outgoing "\<lambda>n. ''hash'' @ replicate n CHR ''x''" event_wallet]
  by (auto simp: healthy_def example_env_def example_world_def example_db_def example_outgoing_def ids_def)

subsection \<open>Not enough money\<close>

lemma NotifyTransaction_healthy:
  assumes "healthy E" "intx w"
  shows "\<exists>w'. NotifyTransaction E et tx w = (Ok (), w') \<and> same_view w w' \<and> intx w' \<and> trace w' = trace w"
  using assms
  by (auto simp: NotifyTransaction_def broker_Notify_def bindE_def StoreEvent_def healthy_def Let_def go_simps
      persist_def same_view_def core_def ids_def)

lemma persist_failure_healthy:
  assumes "healthy E" "intx w" "unknown_tx tx (db w)" "Hash tx = []" "Status tx = NewTransaction"
  shows "\<exists>w'. persist_failure E True tx w = (Ok (), w') \<and> trace w' = trace w \<and>
    core (db w') = (core (db w))(ID tx \<mapsto> core_row (row_of_tx (tx\<lparr>Status := PendingTransaction\<rparr>))) \<and> \<not> locked (db w')"
proof -
  let ?tx = "tx\<lparr>Status := PendingTransaction\<rparr>"
  have "unknown_tx ?tx (db w)" using assms(3) by (simp add: unknown_tx_def)
  from StoreTransaction_healthy [OF assms(1,2) this] obtain w1 where s: "StoreTransaction E ?tx w = (Ok ?tx, ?tx, w1)"
    "intx w1" "trace w1 = trace w" "db w1 = (db w)\<lparr>transactions_t := transactions_t (db w) @ [row_of_tx ?tx]\<rparr>" by blast
  have "ID ?tx \<notin> set (ids (db w))" using assms(3) by (auto simp: unknown_tx_def ids_conv)
  from core_insert [OF this] s(4) have c1: "core (db w1) = (core (db w))(ID tx \<mapsto> core_row (row_of_tx ?tx))" by simp
  from NotifyTransaction_healthy [OF assms(1) s(2)] obtain w2 where
    n: "NotifyTransaction E PendingStatusUpdatedEvent ?tx w1 = (Ok (), w2)" "same_view w1 w2" "intx w2" "trace w2 = trace w1"
    by blast
  have "persist_failure E True tx w = (Ok (), (tick w2)\<lparr>db := set_meta ''wallet_operation'' [] (db w2)\<rparr>)"
    using s(1) n assms(5) by (simp add: persist_failure_def updatePendingTxStatus_def bindE_def keepArg_def
        ClearWallet_def SetMeta_healthy [OF assms(1)])
  then show ?thesis using c1 s(3) n by (simp add: same_view_def locked_def set_meta_def core_def)
qed

text \<open>
  C22: A withdrawal that the node cannot fund waits. If the database works and the node answers
  \<open>Insufficient funds\<close>, then a new withdrawal that is not for the cold storage is accepted and
  stored as pending; nothing was paid, and the wallet lock is cleared.
\<close>

theorem unfunded_withdrawal_waits:
  assumes "healthy E" "\<not> intx w"
    and "ID tx \<noteq> uuid_Nil" "ID tx \<notin> set (ids (db w))" "Hash tx = []" "Status tx = NewTransaction"
    and "\<not> ColdStorage tx" and "map_of (accounts_t (db w)) (Address tx) = None"
    and "FeeTypeOf tx = PerKBRateFee \<or> FeeTypeOf tx = FixedFee"
    and "\<forall>n. e_Send E n (FeeTypeOf tx) (Address tx) (Amount tx) (Fee tx) True = Inl (JSONRPCError c ''Insufficient funds'')"
  shows "\<exists>w'. wallet_withdraw E W tx False w = (Ok (), w') \<and> paid (trace w') = paid (trace w) \<and>
    core (db w') = (core (db w))(ID tx \<mapsto> core_row (row_of_tx (tx\<lparr>Status := PendingTransaction\<rparr>))) \<and>
    \<not> locked (db w')"
proof -
  let ?err = "JSONRPCError c ''Insufficient funds''"
  from wallet_withdraw_healthy [OF assms(1,2,4,8,9)] obtain w1 where "pays_from E W tx w w1" by blast
  then have d1: "transactions_t (db w1) = transactions_t (db w)" "paid (trace w1) = paid (trace w)"
    and ends: "\<And>r w2 w3. sendMoney E tx w1 = (Ok r, w2) \<Longrightarrow>
      (case r of Inl err \<Rightarrow> handleWithdrawalError E err tx | Inr h \<Rightarrow> handleWithdrawalSuccess E W tx h) w2 = (Ok (), w3) \<Longrightarrow>
      \<exists>w4. wallet_withdraw E W tx False w = (Ok (), w4) \<and> db w4 = db w3 \<and> trace w4 = trace w3"
    unfolding pays_from_def by blast+
  have new: "\<forall>r \<in> set (transactions_t (db w)). r_id r \<noteq> ID tx" using assms(4) unfolding ids_conv by (metis image_eqI)
  obtain w2 where send: "sendMoney E tx w1 = (Ok (Inl ?err), w2)" and d2: "db w2 = db w1" "paid (trace w2) = paid (trace w)"
    using assms(10) d1 by (simp add: sendMoney_def Let_def)
  have "unknown_tx tx (db ((tick w2)\<lparr>intx := True\<rparr>))"
    using assms(3,5) new by (simp add: unknown_tx_def d1 d2)
  from persist_failure_healthy [OF assms(1) _ this] assms(5,6) obtain w3 where
    p: "persist_failure E True tx ((tick w2)\<lparr>intx := True\<rparr>) = (Ok (), w3)" "trace w3 = trace w2"
    "core (db w3) = (core (db w1))(ID tx \<mapsto> core_row (row_of_tx (tx\<lparr>Status := PendingTransaction\<rparr>)))"
    "\<not> locked (db w3)" by (auto simp: d2)
  from transact_healthy [OF assms(1), of "persist_failure E True tx" w2, OF p(1)] assms(7) obtain w4 where
    m: "handleWithdrawalError E ?err tx w2 = (Ok (), w4)" and d4: "db w4 = db w3" "paid (trace w4) = paid (trace w3)"
    by (simp add: handleWithdrawalError_def persistWithdrawResultWithRetry_def dropArg_def withdrawSaveRetries_def
        numeral_eq_Suc bindE_def go_simps)
  obtain w5 where "wallet_withdraw E W tx False w = (Ok (), w5)" "db w5 = db w4" "trace w5 = trace w4"
    using ends [OF send] m by auto
  moreover have "core (db w1) = core (db w)" using d1(1) by (simp add: core_def)
  ultimately show ?thesis using p d2 d4 by auto
qed

theorem unfunded_withdrawal_waits_witness:
  "\<exists>w'. wallet_withdraw (example_env\<lparr>e_Send := (\<lambda>_ _ _ _ _ _. Inl (JSONRPCError (- 4) ''Insufficient funds''))\<rparr>)
       event_wallet example_outgoing False example_world = (Ok (), w') \<and>
     paid (trace w') = [] \<and> \<not> locked (db w')"
  using unfunded_withdrawal_waits [of "example_env\<lparr>e_Send := (\<lambda>_ _ _ _ _ _. Inl (JSONRPCError (- 4) ''Insufficient funds''))\<rparr>"
      example_world example_outgoing "- 4" event_wallet]
  by (auto simp: healthy_def example_env_def example_world_def example_db_def example_outgoing_def ids_def)

subsection \<open>A transfer between two accounts\<close>

lemma StoreTransaction_new_healthy:
  assumes "healthy E" "intx w" "ID tx = uuid_Nil" "Hash tx = []" "\<forall>n. e_uuid E n \<notin> set (ids (db w))"
  shows "\<exists>j w'. StoreTransaction E tx w = (Ok (tx\<lparr>ID := j\<rparr>), tx\<lparr>ID := j\<rparr>, w') \<and> intx w' \<and> trace w' = trace w \<and>
    j \<notin> set (ids (db w)) \<and> db w' = (db w)\<lparr>transactions_t := transactions_t (db w) @ [row_of_tx (tx\<lparr>ID := j\<rparr>)]\<rparr>"
proof -
  have "existing_transaction E tx w = (Ok None, w)"
    using assms(3,4) by (simp add: existing_transaction_def bindE_def go_simps)
  moreover have "e_uuid E (now w) \<notin> r_id ` set (transactions_t (db w))" using assms(5) by (simp add: ids_conv)
  ultimately show ?thesis using assms
    by (intro exI [of _ "e_uuid E (now w)"])
      (simp add: StoreTransaction_def sql_exec_def insert_tx_def healthy_def persist_def)
qed

lemma internal_transfer_healthy:
  assumes "healthy E" "intx w" "unknown_tx tx (db w)" "Hash tx = []" "Direction tx = OutgoingDirection" "\<not> ColdStorage tx"
    and "\<forall>n. e_uuid E n \<noteq> ID tx \<and> e_uuid E n \<notin> set (ids (db w))"
  shows "\<exists>j w'. internal_transfer E W account tx w = (Ok (), w') \<and> trace w' = trace w \<and> j \<notin> set (ids (db w)) \<and>
    j \<noteq> ID tx \<and>
    core (db w') = (core (db w))
      (ID tx \<mapsto> core_row (row_of_tx (tx\<lparr>Confirmations := maxConfirmations W, Status := FullyConfirmedTransaction\<rparr>)),
       j \<mapsto> core_row (row_of_tx ((incoming_part account (tx\<lparr>Confirmations := maxConfirmations W,
              Status := FullyConfirmedTransaction\<rparr>))\<lparr>ID := j\<rparr>)))"
proof -
  let ?out = "tx\<lparr>Confirmations := maxConfirmations W, Status := FullyConfirmedTransaction\<rparr>"
  let ?inc = "incoming_part account ?out"
  have "unknown_tx ?out (db w)" using assms(3) by (simp add: unknown_tx_def)
  from StoreTransaction_healthy [OF assms(1,2) this] obtain w1 where s: "StoreTransaction E ?out w = (Ok ?out, ?out, w1)"
    "intx w1" "trace w1 = trace w" "db w1 = (db w)\<lparr>transactions_t := transactions_t (db w) @ [row_of_tx ?out]\<rparr>" by blast
  have "ID ?out \<notin> set (ids (db w))" using assms(3) by (auto simp: unknown_tx_def ids_conv)
  from core_insert [OF this] s(4) have c1: "core (db w1) = (core (db w))(ID tx \<mapsto> core_row (row_of_tx ?out))" by simp
  from notifyTransaction_healthy [OF assms(1) _ s(2), of ?out W] assms(5) obtain t2 w2 where
    n: "notifyTransaction E W ?out w1 = (Ok (), t2, w2)" "same_view w1 w2" "intx w2" "trace w2 = trace w1" by auto
  have ids2: "set (ids (db w2)) = insert (ID tx) (set (ids (db w)))"
    using n(2) s(4) by (auto simp: same_view_def ids_def row_of_tx_def)
  then have "\<forall>n. e_uuid E n \<notin> set (ids (db w2))" using assms(7) by auto
  with StoreTransaction_new_healthy [OF assms(1) n(3), of ?inc] assms(4) obtain j w3 where
    s3: "StoreTransaction E ?inc w2 = (Ok (?inc\<lparr>ID := j\<rparr>), ?inc\<lparr>ID := j\<rparr>, w3)" "intx w3" "trace w3 = trace w2"
    "j \<notin> set (ids (db w2))" "db w3 = (db w2)\<lparr>transactions_t := transactions_t (db w2) @ [row_of_tx (?inc\<lparr>ID := j\<rparr>)]\<rparr>"
    by (auto simp: incoming_part_def)
  from core_insert [of "?inc\<lparr>ID := j\<rparr>" "db w2"] s3(4,5)
  have c3: "core (db w3) = (core (db w2))(j \<mapsto> core_row (row_of_tx (?inc\<lparr>ID := j\<rparr>)))" by simp
  from notifyTransaction_healthy [OF assms(1) _ s3(2), of "?inc\<lparr>ID := j\<rparr>" W] obtain t4 w4 where
    n4: "notifyTransaction E W (?inc\<lparr>ID := j\<rparr>) w3 = (Ok (), t4, w4)" "same_view w3 w4" "trace w4 = trace w3"
    by (auto simp: incoming_part_def)
  have "internal_transfer E W account tx w = (Ok (), w4)"
    using s n s3 n4 assms(6) by (simp add: internal_transfer_def Let_def bindE_def keepArg_def dropArg_def go_simps)
  then show ?thesis using c1 c3 n n4 s(3) s3(3,4) ids2
    by (intro exI [of _ j] exI [of _ w4]) (simp add: same_view_def)
qed

text \<open>
  \<open>withdraw\<close> to one of the wallet's own addresses is the transaction of
  \<open>internalWithdrawBetweenOurAccounts\<close> around the two insertions, with the fee dropped unless
  it is fixed.
\<close>

definition charged :: "Transaction \<Rightarrow> Transaction" where
  "charged tx = (if FeeTypeOf tx \<noteq> FixedFee then tx\<lparr>Fee := 0\<rparr> else tx)"

lemma charged_simps [simp]:
  "ID (charged tx) = ID tx" "Hash (charged tx) = Hash tx" "Direction (charged tx) = Direction tx"
  "ColdStorage (charged tx) = ColdStorage tx" "Amount (charged tx) = Amount tx" "Address (charged tx) = Address tx"
  "unknown_tx (charged tx) d = unknown_tx tx d"
  "Fee (charged tx) = (if FeeTypeOf tx = FixedFee then Fee tx else 0)"
  by (simp_all add: charged_def unknown_tx_def)

lemma withdraw_to_own_account:
  assumes E: "healthy E" and new: "unknown_tx tx (db w)"
    and acc: "map_of (accounts_t (db w)) (Address tx) = Some m" and "Fee (charged tx) \<le> Amount tx"
    and t: "internal_transfer E W \<lparr>acc_Address = Address tx, acc_Metainfo = m\<rparr> (charged tx)
        ((tick (tick (tick w)))\<lparr>intx := True\<rparr>) = (Ok (), w1)"
  obtains w2 where "wallet_withdraw E W tx False w = (Ok (), w2)" "db w2 = db w1" "paid (trace w2) = paid (trace w1)"
proof -
  let ?acc = "\<lparr>acc_Address = Address tx, acc_Metainfo = m\<rparr>"
  have free: "ensureTxIDIsFree E (ID tx) w = (Ok (), tick w)"
    using new by (simp add: unknown_tx_def ensureTxIDIsFree_def GetTransactionByID_def catchE_def query_one_none [OF E] go_simps)
  have account: "GetAccountByAddress E (Address tx) (tick w) = (Ok (Some ?acc), tick (tick w))"
    using E acc by (simp add: GetAccountByAddress_def bindE_def sql_query_def healthy_def go_simps)
  from transact_healthy [OF E, of "internal_transfer E W ?acc (charged tx)" "tick (tick w)", OF t]
  have "transact E (internal_transfer E W ?acc (charged tx)) (tick (tick w)) =
      (Ok (), (tick w1)\<lparr>intx := False, trace := EffCommit (db w1) # trace w1\<rparr>)" .
  moreover have "\<not> Amount (charged tx) < Fee (charged tx)" using assms(4) by simp
  ultimately have "\<exists>w2. wallet_withdraw E W tx False w = (Ok (), w2) \<and> db w2 = db w1 \<and> paid (trace w2) = paid (trace w1)"
    using free account unfolding charged_def
    by (auto simp: wallet_withdraw_def sendWithdrawal_def internalWithdrawBetweenOurAccounts_def bindE_def
        schedulePendingTxUpdate_def go_simps simp del: if_not_P split del: if_split)
  with that show thesis by blast
qed

lemma internal_rows:
  fixes W acc tx j
  defines "done \<equiv> tx\<lparr>Confirmations := maxConfirmations W, Status := FullyConfirmedTransaction\<rparr>"
  defines "out \<equiv> core_row (row_of_tx done)" and "inc \<equiv> core_row (row_of_tx ((incoming_part acc done)\<lparr>ID := j\<rparr>))"
  assumes "Direction tx = OutgoingDirection"
  shows "r_amount out = Amount tx \<and> r_direction out = ''outgoing'' \<and> r_status out = ''fully-confirmed'' \<and>
    r_amount inc = Amount tx - Fee tx \<and> r_direction inc = ''incoming'' \<and> r_status inc = ''fully-confirmed'' \<and>
    r_address inc = Address tx \<and> r_metainfo inc = Some (acc_Metainfo acc)"
  using assms by (simp_all add: core_row_def row_of_tx_def incoming_part_def Direction_String_def
      Status_String_def transactionDirectionToStringMap_def transactionStatusToStringMap_def)


definition account_world :: world where
  "account_world = example_world\<lparr>db := example_db\<lparr>accounts_t := [(''dest'', JStr ''me'')]\<rparr>\<rparr>"


end
