(* ===== verification/Websocket.thy ===== *)
theory Websocket
  imports Api "HOL-Library.Sublist"
begin

text \<open>
  The websocket API (\<open>api/websocket.go\<close>): the subscription message, the loop that writes the
  events of the subscription to the connection, and what a client can rely on.

  The connection belongs to the package \<open>gorilla/websocket\<close>. What is read from it is an argument,
  and \<open>out n\<close> is the result of the write after \<open>n\<close> successful ones. A turn of the loop is a step:
  the client has closed the connection, or the channel of the subscription is ready.
\<close>

subsection \<open>The handler\<close>

record ws_conn =
  ws_channel :: nat
  ws_sent :: "string list"
  ws_closed :: bool

definition readSeqFromClient :: "go_error + string \<Rightarrow> go_error + int" where
  "readSeqFromClient message =
     (case message of
        Inl err \<Rightarrow> Inl err
      | Inr text \<Rightarrow>
          (case Decoder_Decode text of Inl err \<Rightarrow> Inl err | Inr j \<Rightarrow> decode_SubscribeMessage j))"

text \<open>Up to the loop; without a subscription message the connection is shut down.\<close>

definition openSubscription ::
  "go_error + string \<Rightarrow> eventBrokerData \<Rightarrow> world \<Rightarrow> ws_conn option \<times> eventBrokerData \<times> world" where
  "openSubscription message e w =
     (case readSeqFromClient message of
        Inl _ \<Rightarrow> (None, e, w)
      | Inr seq \<Rightarrow>
          (case broker_SubscribeFromSeq seq e w of
             (eventSequenceQueue, e', w') \<Rightarrow>
               (Some \<lparr>ws_channel = eventSequenceQueue, ws_sent = [], ws_closed = False\<rparr>, e', w')))"

fun write_events ::
  "lib \<Rightarrow> (nat \<Rightarrow> go_error option) \<Rightarrow> NotificationWithSeq list \<Rightarrow> ws_conn \<Rightarrow> go_error option \<times> ws_conn" where
  "write_events L out [] c = (None, c)"
| "write_events L out (event # events) c =
     (case out (length (ws_sent c)) of
        Some err \<Rightarrow> (Some err, c)
      | None \<Rightarrow> write_events L out events (c\<lparr>ws_sent := ws_sent c @ [json_Marshal (marshal_event L event)]\<rparr>))"

text \<open>Returning from the handler closes the connection and cancels the subscription.\<close>

definition leave :: "ws_conn \<Rightarrow> eventBrokerData \<Rightarrow> ws_conn \<times> eventBrokerData" where
  "leave c e = (c\<lparr>ws_closed := True\<rparr>, broker_UnsubscribeFromSeq (ws_channel c) e)"

datatype ws_wakeup = ClientClosedConnection | EventSequenceReady

definition handleWebsocketConnection ::
  "lib \<Rightarrow> (nat \<Rightarrow> go_error option) \<Rightarrow> ws_wakeup \<Rightarrow> ws_conn \<Rightarrow> eventBrokerData \<Rightarrow> ws_conn \<times> eventBrokerData" where
  "handleWebsocketConnection L out wk c e =
     (case wk of
        ClientClosedConnection \<Rightarrow> leave c e
      | EventSequenceReady \<Rightarrow>
          (case receive (ws_channel c) (eventBroadcaster e) of
             (eventSequence, b) \<Rightarrow>
               if chans (eventBroadcaster e) (ws_channel c) = []
               then (if ws_channel c \<in> set (closed (eventBroadcaster e)) then leave c e else (c, e))
               else (case write_events L out eventSequence c of
                       (None, c') \<Rightarrow> (c', e\<lparr>eventBroadcaster := b\<rparr>)
                     | (Some _, c') \<Rightarrow> leave c' (e\<lparr>eventBroadcaster := b\<rparr>))))"

subsection \<open>Channels that were closed\<close>

text \<open>
  A subscriber that was disconnected may still find slices in its channel. Connected or not,
  what it has received and what is queued is an initial part of the events it asked for.
\<close>

lemma fold_broadcast_to_chans:
  assumes "distinct (map fst ss)" "ch \<in> fst ` set ss"
  shows "chans (fold (broadcast_to es n) ss b) ch = chans b ch \<or>
    (\<exists>q. (ch, q) \<in> set (subs (fold (broadcast_to es n) ss b))) \<or> (\<forall>q. (ch, q) \<notin> set (subs b))"
  using assms
proof (induction ss arbitrary: b)
  case (Cons s ss)
  obtain c p where s: "s = (c, p)" by (cases s)
  show ?case
  proof (cases "c = ch")
    case True
    with Cons.prems s have o: "ch \<notin> fst ` set ss" by auto
    have "chans (broadcast_to es n (ch, p) b) ch = chans b ch \<or>
        (\<forall>q. (ch, q) \<in> set (subs b) \<longrightarrow> (\<exists>q. (ch, q) \<in> set (subs (broadcast_to es n (ch, p) b))))"
      by (auto simp: broadcast_to_def split: list.splits) force
    with fold_broadcast_to_other [OF o] s True show ?thesis by auto
  next
    case False
    with Cons.prems s have "chans (fold (broadcast_to es n) ss (broadcast_to es n s b)) ch = chans (broadcast_to es n s b) ch \<or>
        (\<exists>q. (ch, q) \<in> set (subs (fold (broadcast_to es n) ss (broadcast_to es n s b)))) \<or>
        (\<forall>q. (ch, q) \<notin> set (subs (broadcast_to es n s b)))"
      by (intro Cons.IH) auto
    with s False show ?thesis by (simp add: broadcast_to_subs broadcast_to_chans)
  qed
qed simp

context event_log
begin

definition tracked :: "'s \<Rightarrow> broadcasterWithStorage \<Rightarrow> (nat \<Rightarrow> int) \<Rightarrow> (nat \<Rightarrow> NotificationWithSeq list) \<Rightarrow> bool" where
  "tracked s b starts got \<longleftrightarrow> served s b starts got \<and>
     (\<forall>ch < nextChan b. prefix (got ch @ concat (chans b ch)) (filter (\<lambda>e. starts ch \<le> ns_Seq e) (evs s)))"

lemma tracked_store:
  assumes "tracked s b starts got" "n_Type n \<noteq> InvalidEvent" "adds n s s'"
  shows "tracked s' b starts got"
proof -
  from assms(1) have "ok s" by (simp add: tracked_def served_def)
  from adding [OF this assms(2,3)] obtain xs where "evs s' = evs s @ xs" by (auto intro: that [of "[]"])
  with assms served_store show ?thesis by (auto simp: tracked_def)
qed

lemma served_prefix:
  assumes "served s b starts got" "(ch, q) \<in> set (subs b)"
  shows "prefix (got ch @ concat (chans b ch)) (filter (\<lambda>e. starts ch \<le> ns_Seq e) (evs s))"
proof -
  from assms have ok: "ok s" and p: "place s (minSeq b) (starts ch) (got ch @ concat (chans b ch)) q"
    by (auto simp: served_def)
  then have "starts ch \<le> q" by (auto simp: place_def)
  from filter_split [OF increasing [OF ok] this] p show ?thesis by (auto simp: place_def prefix_def)
qed

lemma Broadcast_frame: "nextChan (Broadcast es b) = nextChan b"
  by (simp add: Broadcast_def Let_def)

lemma tracked_broadcast:
  assumes "tracked s b starts got" "reads (minSeq b) s es"
  shows "tracked s (Broadcast es b) starts got"
proof -
  from assms served_broadcast have served: "served s (Broadcast es b) starts got" by (auto simp: tracked_def)
  have "prefix (got ch @ concat (chans (Broadcast es b) ch)) (filter (\<lambda>e. starts ch \<le> ns_Seq e) (evs s))"
    if "ch < nextChan b" for ch
  proof (cases "\<exists>q. (ch, q) \<in> set (subs (Broadcast es b))")
    case True
    with served served_prefix show ?thesis by blast
  next
    case False
    have "distinct (map fst (subs b))" using assms(1) by (simp add: tracked_def served_def)
    with False fold_broadcast_to_chans [of "subs b" ch es _ b] fold_broadcast_to_other [of ch "subs b" _ es _ b]
    have "chans (Broadcast es b) ch = chans b ch"
      by (fastforce simp: Broadcast_def Let_def split: if_splits)
    with assms(1) that show ?thesis by (simp add: tracked_def)
  qed
  with served show ?thesis by (simp add: tracked_def Broadcast_frame)
qed

lemma tracked_subscribe:
  assumes "tracked s b starts got" "0 \<le> q" "SubscribeFromSeq q b = (ch, b')"
  shows "tracked s b' (starts(ch := q)) (got(ch := []))"
proof -
  from assms served_subscribe have "served s b' (starts(ch := q)) (got(ch := []))" by (auto simp: tracked_def)
  with assms(1,3) show ?thesis by (auto simp: tracked_def SubscribeFromSeq_def Let_def less_Suc_eq)
qed

lemma tracked_unsubscribe:
  assumes "tracked s b starts got"
  shows "tracked s (Unsubscribe ch b) starts got"
  using assms by (auto simp: tracked_def served_def Unsubscribe_def distinct_filter_sub)

lemma tracked_receive:
  assumes "tracked s b starts got" "receive ch b = (part, b')"
  shows "tracked s b' starts (got(ch := got ch @ part))"
proof -
  from assms(2) have "got c @ concat (chans b c) = (got(ch := got ch @ part)) c @ concat (chans b' c)"
    "subs b' = subs b" "minSeq b' = minSeq b" "nextChan b' = nextChan b" for c
    by (auto simp: receive_def split: list.splits)
  with assms(1) show ?thesis by (simp add: tracked_def served_def)
qed

lemma tracked_same: "tracked s b starts got \<Longrightarrow> ok s' \<Longrightarrow> evs s' = evs s \<Longrightarrow> tracked s' b starts got"
  by (simp add: tracked_def served_def place_def)

lemma tracked_init: "ok s \<Longrightarrow> tracked s newBroadcasterWithStorage starts (\<lambda>_. [])"
  by (simp add: tracked_def served_def newBroadcasterWithStorage_def)

end

subsection \<open>Sessions\<close>

text \<open>
  One websocket connection amid everything else that happens to the broker: events are stored and
  broadcast, other clients come and go. \<open>q\<close> is the number the client asked for.
\<close>

inductive session :: "lib \<Rightarrow> (nat \<Rightarrow> go_error option) \<Rightarrow> int \<Rightarrow> world \<Rightarrow> eventBrokerData \<Rightarrow> ws_conn \<Rightarrow> bool"
  for L out q where
  opened: "delivery pg_ok (pg_reads L) pg_adds w (eventBroadcaster e) starts got \<Longrightarrow>
    readSeqFromClient message = Inr q \<Longrightarrow> 0 \<le> q \<Longrightarrow> openSubscription message e w = (Some c, e', w') \<Longrightarrow>
    session L out q w' e' c"
| stored: "session L out q w e c \<Longrightarrow> n_Type n \<noteq> InvalidEvent \<Longrightarrow> StoreEvent E n w = (r, w') \<Longrightarrow> session L out q w' e c"
| sent: "session L out q w e c \<Longrightarrow> e_lib E = L \<Longrightarrow> sendWSNotifications E e w = (Ok (), e', w') \<Longrightarrow>
    session L out q w' e' c"
| joined: "session L out q w e c \<Longrightarrow> 0 \<le> p \<Longrightarrow> broker_SubscribeFromSeq p e w = (ch, e', w') \<Longrightarrow> session L out q w' e' c"
| left: "session L out q w e c \<Longrightarrow> ch \<noteq> ws_channel c \<Longrightarrow> session L out q w (broker_UnsubscribeFromSeq ch e) c"
| took: "session L out q w e c \<Longrightarrow> ch \<noteq> ws_channel c \<Longrightarrow> receive ch (eventBroadcaster e) = (part, b) \<Longrightarrow>
    session L out q w (e\<lparr>eventBroadcaster := b\<rparr>) c"
| turned: "session L out q w e c \<Longrightarrow> \<not> ws_closed c \<Longrightarrow> handleWebsocketConnection L out wk c e = (c', e') \<Longrightarrow>
    session L out q w e' c'"

text \<open>The texts that were sent are those of an initial part of what was received.\<close>

definition in_step :: "lib \<Rightarrow> int \<Rightarrow> world \<Rightarrow> eventBrokerData \<Rightarrow> ws_conn \<Rightarrow> bool" where
  "in_step L q w e c \<longleftrightarrow> (\<exists>starts got xs. pg_log.tracked L w (eventBroadcaster e) starts got \<and>
     ws_channel c < nextChan (eventBroadcaster e) \<and> starts (ws_channel c) = q \<and>
     ws_sent c = map (json_Marshal \<circ> marshal_event L) xs \<and> prefix xs (got (ws_channel c)) \<and>
     (\<not> ws_closed c \<longrightarrow> xs = got (ws_channel c)))"

lemma delivery_tracked:
  "delivery pg_ok (pg_reads L) pg_adds w b starts got \<Longrightarrow> pg_log.tracked L w b starts got"
  by (induction rule: delivery.induct)
    (blast intro: pg_log.tracked_init pg_log.tracked_store pg_log.tracked_broadcast pg_log.tracked_subscribe
      pg_log.tracked_unsubscribe pg_log.tracked_receive)+

lemma pg_view: "db w' = db w \<Longrightarrow> events_seq w' = events_seq w \<Longrightarrow> pg_ok w' = pg_ok w \<and> pg_evs L w' = pg_evs L w"
  by (simp add: pg_ok_def pg_evs_def)

lemma tracked_view:
  "pg_log.tracked L w b starts got \<Longrightarrow> db w' = db w \<Longrightarrow> events_seq w' = events_seq w \<Longrightarrow>
     pg_log.tracked L w' b starts got"
  using pg_view [of w' w L] pg_log.tracked_same [of L w b starts got w']
  by (auto simp: pg_log.tracked_def pg_log.served_def)

lemma write_events_sent:
  "write_events L out es c = (r, c') \<Longrightarrow>
     (\<exists>ys. prefix ys es \<and> ws_sent c' = ws_sent c @ map (json_Marshal \<circ> marshal_event L) ys \<and> (r = None \<longrightarrow> ys = es)) \<and>
     ws_channel c' = ws_channel c \<and> ws_closed c' = ws_closed c"
proof (induction es arbitrary: c)
  case (Cons ev es)
  show ?case
  proof (cases "out (length (ws_sent c))")
    case None
    with Cons.prems Cons.IH obtain ys where "prefix ys es" "ws_sent c' = ws_sent c @ map (json_Marshal \<circ> marshal_event L) (ev # ys)"
      "r = None \<longrightarrow> ys = es" "ws_channel c' = ws_channel c" "ws_closed c' = ws_closed c" by fastforce
    then show ?thesis by (intro conjI exI [of _ "ev # ys"]) auto
  next
    case (Some err)
    with Cons.prems have "r = Some err" "c' = c" by auto
    then show ?thesis by simp
  qed
qed auto

lemma Unsubscribe_frame: "nextChan (Unsubscribe ch b) = nextChan b"
  by (simp add: Unsubscribe_def)

lemma in_step_leave:
  assumes "in_step L q w e c" "leave c e = (c', e')"
  shows "in_step L q w e' c'"
proof -
  from assms(1) obtain starts got xs where "pg_log.tracked L w (eventBroadcaster e) starts got"
    "ws_channel c < nextChan (eventBroadcaster e)" "starts (ws_channel c) = q"
    "ws_sent c = map (json_Marshal \<circ> marshal_event L) xs" "prefix xs (got (ws_channel c))"
    unfolding in_step_def by blast
  with pg_log.tracked_unsubscribe [OF this(1), of "ws_channel c"] assms(2) show ?thesis unfolding in_step_def
    by (intro exI [of _ starts] exI [of _ got] exI [of _ xs])
      (auto simp: leave_def broker_UnsubscribeFromSeq_def Unsubscribe_frame)
qed

lemma in_step_write:
  assumes "in_step L q w e c" "\<not> ws_closed c" "receive (ws_channel c) (eventBroadcaster e) = (part, b)"
    and "write_events L out part c = (r, c')"
  shows "in_step L q w (e\<lparr>eventBroadcaster := b\<rparr>) (if r = None then c' else c'\<lparr>ws_closed := True\<rparr>)"
proof -
  from assms(1,2) obtain starts got where t: "pg_log.tracked L w (eventBroadcaster e) starts got"
    "ws_channel c < nextChan (eventBroadcaster e)" "starts (ws_channel c) = q"
    "ws_sent c = map (json_Marshal \<circ> marshal_event L) (got (ws_channel c))"
    by (auto simp: in_step_def)
  have "nextChan b = nextChan (eventBroadcaster e)" using assms(3) by (auto simp: receive_def split: list.splits)
  with t pg_log.tracked_receive [OF t(1) assms(3)] write_events_sent [OF assms(4)] obtain ys where
    "pg_log.tracked L w b starts (got(ws_channel c := got (ws_channel c) @ part))" "prefix ys part"
    "ws_channel c' < nextChan b" "starts (ws_channel c') = q" "ws_channel c' = ws_channel c" "r = None \<longrightarrow> ys = part"
    "ws_sent c' = map (json_Marshal \<circ> marshal_event L) (got (ws_channel c) @ ys)" by auto
  then show ?thesis unfolding in_step_def
    by (intro exI [of _ starts] exI [of _ "got(ws_channel c := got (ws_channel c) @ part)"]
        exI [of _ "got (ws_channel c) @ ys"]) auto
qed

lemma leave_after_error:
  "leave c (e\<lparr>eventBroadcaster := b\<rparr>) = leave (c\<lparr>ws_closed := True\<rparr>) (e\<lparr>eventBroadcaster := b\<rparr>)"
  by (simp add: leave_def)

lemma in_step_turn:
  assumes "in_step L q w e c" "\<not> ws_closed c" "handleWebsocketConnection L out wk c e = (c', e')"
  shows "in_step L q w e' c'"
proof (cases wk)
  case ClientClosedConnection
  with assms in_step_leave show ?thesis by (auto simp: handleWebsocketConnection_def)
next
  case EventSequenceReady
  obtain part b where rc: "receive (ws_channel c) (eventBroadcaster e) = (part, b)" by (metis surj_pair)
  obtain r d where wr: "write_events L out part c = (r, d)" by (metis surj_pair)
  show ?thesis
  proof (cases "chans (eventBroadcaster e) (ws_channel c) = []")
    case True
    with EventSequenceReady assms rc show ?thesis
      by (auto simp: handleWebsocketConnection_def intro: in_step_leave split: if_splits)
  next
    case False
    with EventSequenceReady assms(3) rc wr in_step_write [OF assms(1,2) rc wr] show ?thesis
      by (cases r) (auto simp: handleWebsocketConnection_def leave_after_error [of d] intro: in_step_leave)
  qed
qed

lemma in_step_broadcaster:
  assumes "in_step L q w e c"
    and "\<And>starts got. pg_log.tracked L w (eventBroadcaster e) starts got \<Longrightarrow> ws_channel c < nextChan (eventBroadcaster e) \<Longrightarrow>
      \<exists>starts' got'. pg_log.tracked L w' (eventBroadcaster e') starts' got' \<and> starts' (ws_channel c) = starts (ws_channel c) \<and>
        got' (ws_channel c) = got (ws_channel c) \<and> ws_channel c < nextChan (eventBroadcaster e')"
  shows "in_step L q w' e' c"
  using assms unfolding in_step_def by metis

lemma in_step_opened:
  assumes "delivery pg_ok (pg_reads L) pg_adds w (eventBroadcaster e) starts got" "readSeqFromClient message = Inr q" "0 \<le> q"
    and "openSubscription message e w = (Some c, e', w')"
  shows "in_step L q w' e' c"
proof -
  from assms(2,4) obtain b where s: "SubscribeFromSeq q (eventBroadcaster e) = (ws_channel c, b)" "e' = e\<lparr>eventBroadcaster := b\<rparr>"
    "w' = triggerWSNotificationSending w" "ws_sent c = []" "\<not> ws_closed c"
    by (auto simp: openSubscription_def broker_SubscribeFromSeq_def split: prod.splits)
  note t = tracked_view [OF pg_log.tracked_subscribe [OF delivery_tracked [OF assms(1)] assms(3) s(1)], of w']
  have "ws_channel c < nextChan b" using s(1) by (auto simp: SubscribeFromSeq_def Let_def)
  with t s show ?thesis unfolding in_step_def
    by (intro exI [of _ "starts(ws_channel c := q)"] exI [of _ "got(ws_channel c := [])"] exI [of _ "[]"])
      (simp add: triggerWSNotificationSending_def)
qed

lemma in_step_sent:
  assumes "in_step L q w e c" "e_lib E = L" "sendWSNotifications E e w = (Ok (), e', w')"
  shows "in_step L q w' e' c"
proof -
  from assms(3) consider es where "GetEventsFromSeq E (minSeq (eventBroadcaster e)) w = (Ok es, w')"
      "e' = e\<lparr>eventBroadcaster := Broadcast es (eventBroadcaster e)\<rparr>"
    | "e' = e" "db w' = db w" "events_seq w' = events_seq w"
    by (auto simp: sendWSNotifications_def GetEventsFromSeq_def bindE_def sql_query_def go_simps
        split: outcome.splits sum.splits prod.splits res.splits)
  then show ?thesis
  proof cases
    case 1
    then have "w' = tick w"
      by (auto simp: GetEventsFromSeq_def bindE_def sql_query_def go_simps split: outcome.splits sum.splits)
    moreover have "pg_reads L (minSeq (eventBroadcaster e)) w es" using 1 assms(2) by (auto simp: pg_reads_def)
    ultimately show ?thesis using 1
      by (intro in_step_broadcaster [OF assms(1)])
        (auto simp: pg_log.Broadcast_frame intro!: exI tracked_view [OF pg_log.tracked_broadcast])
  next
    case 2
    then show ?thesis by (intro in_step_broadcaster [OF assms(1)]) (blast intro: tracked_view)
  qed
qed

lemma in_step_joined:
  assumes "in_step L q w e c" "0 \<le> p" "broker_SubscribeFromSeq p e w = (ch, e', w')"
  shows "in_step L q w' e' c"
proof -
  from assms(3) obtain b where b: "SubscribeFromSeq p (eventBroadcaster e) = (ch, b)" "e' = e\<lparr>eventBroadcaster := b\<rparr>"
    "w' = triggerWSNotificationSending w"
    by (auto simp: broker_SubscribeFromSeq_def split: prod.splits)
  then have "ch = nextChan (eventBroadcaster e)" "nextChan b = Suc ch" by (auto simp: SubscribeFromSeq_def Let_def)
  moreover have "pg_log.tracked L w' b (starts(ch := p)) (got(ch := []))"
    if "pg_log.tracked L w (eventBroadcaster e) starts got" for starts got
    by (rule tracked_view [OF pg_log.tracked_subscribe [OF that assms(2) b(1)]])
      (simp_all add: b(3) triggerWSNotificationSending_def)
  ultimately show ?thesis using b(2) by (intro in_step_broadcaster [OF assms(1)]) fastforce
qed

lemma session_in_step: "session L out q w e c \<Longrightarrow> in_step L q w e c"
proof (induction rule: session.induct)
  case (stored w e c n E r w')
  then have "pg_adds n w w'" by (auto simp: pg_adds_def)
  with stored show ?case by (blast intro: in_step_broadcaster [OF stored.IH] pg_log.tracked_store)
next
  case (left w e c ch)
  then show ?case
    by (intro in_step_broadcaster [OF left.IH])
      (auto simp: broker_UnsubscribeFromSeq_def Unsubscribe_frame intro!: exI pg_log.tracked_unsubscribe)
next
  case (took w e c ch part b)
  then have "nextChan b = nextChan (eventBroadcaster e)" by (auto simp: receive_def split: list.splits)
  with took show ?case
    by (intro in_step_broadcaster [OF took.IH]) (fastforce dest: pg_log.tracked_receive)
qed (blast intro: in_step_opened in_step_sent in_step_joined in_step_turn)+

subsection \<open>What a client receives\<close>

lemma session_stream:
  assumes "session L out q w e c"
  shows "\<exists>xs. ws_sent c = map (json_Marshal \<circ> marshal_event L) xs \<and>
    prefix xs (filter (\<lambda>ev. q \<le> ns_Seq ev) (pg_evs L w)) \<and>
    (\<forall>p. \<not> ws_closed c \<longrightarrow> (ws_channel c, p) \<in> set (subs (eventBroadcaster e)) \<longrightarrow>
       chans (eventBroadcaster e) (ws_channel c) = [] \<longrightarrow>
       xs = filter (\<lambda>ev. q \<le> ns_Seq ev \<and> ns_Seq ev < p) (pg_evs L w))"
proof -
  from session_in_step [OF assms] obtain starts got xs where t: "pg_log.tracked L w (eventBroadcaster e) starts got"
    "ws_channel c < nextChan (eventBroadcaster e)" "starts (ws_channel c) = q"
    "ws_sent c = map (json_Marshal \<circ> marshal_event L) xs" "prefix xs (got (ws_channel c))"
    "\<not> ws_closed c \<longrightarrow> xs = got (ws_channel c)"
    unfolding in_step_def by blast
  then have "prefix (got (ws_channel c)) (filter (\<lambda>ev. q \<le> ns_Seq ev) (pg_evs L w))"
    by (auto simp: pg_log.tracked_def dest: append_prefixD)
  then have "prefix xs (filter (\<lambda>ev. q \<le> ns_Seq ev) (pg_evs L w))" using t(5) by (rule prefix_order.trans [rotated])
  moreover have "got (ws_channel c) = filter (\<lambda>ev. q \<le> ns_Seq ev \<and> ns_Seq ev < p) (pg_evs L w)"
    if "(ws_channel c, p) \<in> set (subs (eventBroadcaster e))" "chans (eventBroadcaster e) (ws_channel c) = []" for p
  proof -
    have "got (ws_channel c) @ concat (chans (eventBroadcaster e) (ws_channel c)) =
        filter (\<lambda>ev. starts (ws_channel c) \<le> ns_Seq ev \<and> ns_Seq ev < p) (pg_evs L w)"
      using t(1) that(1) unfolding pg_log.tracked_def pg_log.served_def pg_log.place_def by blast
    with that(2) t(3) show ?thesis by simp
  qed
  ultimately show ?thesis using t(4,6) by (intro exI [of _ xs]) auto
qed


text \<open>A client that asks for everything, and the one event there is.\<close>

definition ws_opening :: "ws_conn option \<times> eventBrokerData \<times> world" where
  "ws_opening = openSubscription (Inr (''{'' @ quoted ''seq'' @ '':1}'')) (NewEventBroker 3) one_event"

definition ws_client :: ws_conn where
  "ws_client = \<lparr>ws_channel = 0, ws_sent = [], ws_closed = False\<rparr>"

definition ws_broadcast :: "unit res \<times> eventBrokerData \<times> world" where
  "ws_broadcast = sendWSNotifications example_env (fst (snd ws_opening)) (snd (snd ws_opening))"

definition ws_after :: "ws_conn \<times> eventBrokerData" where
  "ws_after = handleWebsocketConnection example_lib (\<lambda>_. None) EventSequenceReady ws_client (fst (snd ws_broadcast))"

lemma ws_example:
  "readSeqFromClient (Inr (''{'' @ quoted ''seq'' @ '':1}'')) = Inr 1" "fst ws_opening = Some ws_client"
  "fst ws_broadcast = Ok ()" "length (ws_sent (fst ws_after)) = 1"
  by code_simp+

lemma ws_session: "session example_lib (\<lambda>_. None) 1 (snd (snd ws_broadcast)) (snd ws_after) (fst ws_after)"
proof -
  have "delivery pg_ok (pg_reads example_lib) pg_adds one_event (eventBroadcaster (NewEventBroker 3)) (\<lambda>_. 0) (\<lambda>_. [])"
    using example_log by (simp add: NewEventBroker_def)
  from session.opened [OF this ws_example(1), of ws_client "fst (snd ws_opening)" "snd (snd ws_opening)"] ws_example(2)
  have "session example_lib (\<lambda>_. None) 1 (snd (snd ws_opening)) (fst (snd ws_opening)) ws_client"
    by (simp add: ws_opening_def prod_eq_iff)
  from session.sent [OF this, of example_env "fst (snd ws_broadcast)" "snd (snd ws_broadcast)"] ws_example(3)
  have "session example_lib (\<lambda>_. None) 1 (snd (snd ws_broadcast)) (fst (snd ws_broadcast)) ws_client"
    by (simp add: ws_broadcast_def prod_eq_iff example_env_def)
  from session.turned [OF this, of EventSequenceReady "fst ws_after" "snd ws_after"] show ?thesis
    by (simp add: ws_after_def ws_client_def prod_eq_iff)
qed


end
