(* ===== verification/Callback.thy ===== *)
theory Callback
  imports Broker
begin

text \<open>
  The body of an HTTP callback (\<open>marshalFlattenedEvent\<close> of \<open>events/httpcallback.go\<close>) as its
  receiver reads it: the members of the data of the event, with the number and the type of the
  event set.
\<close>

lemma json_ok_put_member:
  assumes "json_ok (JObj ms)" "json_ok v"
  shows "json_ok (JObj (put_member k v ms))"
  using assms set_put_member [of k v ms] by fastforce

fun members :: "json \<Rightarrow> (string \<times> json) list" where
  "members (JObj ms) = ms"
| "members _ = []"

text \<open>The JSON forms of the data have every name once and their values are plain.\<close>

lemma data_members:
  assumes "data_ok d" "\<forall>j. d \<noteq> OtherData j"
  shows "marshal_data L d = JObj (members (marshal_data L d))" "distinct (map fst (members (marshal_data L d)))"
    "\<forall>m \<in> set (members (marshal_data L d)). interface_value (snd m) = snd m"
  using assms by (cases d; force simp: marshal_Account_def marshal_TxNotification_def Let_def plain_json_def marshal_uuid_def
      marshal_int_def Direction_MarshalJSON_def FeeType_MarshalJSON_def BTCAmount_MarshalJSON_def split: if_splits)+

lemma generic_members:
  assumes "data_ok d" "\<forall>j. d \<noteq> OtherData j"
  obtains ms where "interface_value (marshal_data L d) = JObj ms" "sorted_wrt (<) (map fst ms)"
    "map_of ms = map_of (members (marshal_data L d))"
proof
  let ?ms = "members (marshal_data L d)"
  note m = data_members [OF assms, of L]
  have "map (map_prod id interface_value) ?ms = ?ms" using m(3) by (auto intro!: map_idI simp: map_prod_def split: prod.splits)
  with m(1) show "interface_value (marshal_data L d) = JObj (map_members ?ms)" by (metis interface_value.simps(2))
  show "sorted_wrt (<) (map fst (map_members ?ms))" by (rule map_members_sorted)
  show "map_of (map_members ?ms) = map_of ?ms" using m(2)
    by (simp add: map_of_map_members map_of_inject_set rev_map [symmetric])
qed



end
