(* ===== verification/Client.thy ===== *)
theory Client
  imports Api
begin

text \<open>
  The client library (\<open>api/client\<close>) and its connection to the HTTP API: the JSON forms of the
  requests and of the responses, the exchange \<open>sendHTTPAPIRequest\<close>, one definition per method of
  the client, and the proof that a call through the client is the call of the wallet.

  The packages \<open>net/url\<close> and \<open>net/http\<close> are arguments: \<open>net_url\<close> collects what \<open>URLJoin\<close> uses, and
  \<open>post\<close> is \<open>http.Post\<close> up to the text of the body of the response, on the state of whatever it
  reaches. A method of the client that returns an error returns it together with a structure that
  no caller looks at; here the result is the error alone.
\<close>

subsection \<open>Structures of the API\<close>

text \<open>An array is never empty for \<open>omitempty\<close>: \<open>id\<close> is always written.\<close>

definition marshal_WithdrawRequest :: "lib \<Rightarrow> WithdrawRequest \<Rightarrow> json" where
  "marshal_WithdrawRequest L req = JObj
     ([(''id'', marshal_uuid L (req_ID req))] @
      (if req_Address req = [] then [] else [(''address'', JStr (req_Address req))]) @
      [(''amount'', BTCAmount_MarshalJSON (lib_decimal L) (req_Amount req))] @
      (if req_Fee req = 0 then [] else [(''fee'', BTCAmount_MarshalJSON (lib_decimal L) (req_Fee req))]) @
      (if req_FeeType req = [] then [] else [(''fee_type'', JStr (req_FeeType req))]) @
      [(''metainfo'', req_Metainfo req)])"

definition marshal_GetTransactionsFilter :: "GetTransactionsFilter \<Rightarrow> json" where
  "marshal_GetTransactionsFilter f = JObj
     ((if filter_Direction f = [] then [] else [(''direction'', JStr (filter_Direction f))]) @
      (if filter_Status f = [] then [] else [(''status'', JStr (filter_Status f))]))"

definition marshal_SubscribeMessage :: "int \<Rightarrow> json" where
  "marshal_SubscribeMessage seq = JObj [(''seq'', marshal_int seq)]"

definition marshal_BalanceInfo :: "lib \<Rightarrow> BalanceInfo \<Rightarrow> json" where
  "marshal_BalanceInfo L b = JObj
     [(''balance'', BTCAmount_MarshalJSON (lib_decimal L) (Balance b)),
      (''balance_including_unconfirmed'', BTCAmount_MarshalJSON (lib_decimal L) (BalanceWithUnconf b))]"

definition unmarshal_BalanceInfo :: "lib \<Rightarrow> json \<Rightarrow> go_error + BalanceInfo" where
  "unmarshal_BalanceInfo L j =
     fill_struct (\<lambda>k v b.
       if same_name k ''balance'' then fill_by (BTCAmount_UnmarshalJSON (lib_decimal L)) v (\<lambda>a. b\<lparr>Balance := a\<rparr>)
       else if same_name k ''balance_including_unconfirmed''
         then fill_by (BTCAmount_UnmarshalJSON (lib_decimal L)) v (\<lambda>a. b\<lparr>BalanceWithUnconf := a\<rparr>)
       else Inr b) j \<lparr>Balance = 0, BalanceWithUnconf = 0\<rparr>"

definition unmarshal_Transaction :: "lib \<Rightarrow> json \<Rightarrow> go_error + Transaction" where
  "unmarshal_Transaction L j =
     fill_struct (\<lambda>k v t.
       if same_name k ''id'' then fill_uuid L v (\<lambda>x. t\<lparr>ID := x\<rparr>) t
       else if same_name k ''hash'' then fill_string v (\<lambda>x. t\<lparr>Hash := x\<rparr>) t
       else if same_name k ''blockhash'' then fill_string v (\<lambda>x. t\<lparr>BlockHash := x\<rparr>) t
       else if same_name k ''confirmations'' then fill_int v (\<lambda>x. t\<lparr>Confirmations := x\<rparr>) t
       else if same_name k ''address'' then fill_string v (\<lambda>x. t\<lparr>Address := x\<rparr>) t
       else if same_name k ''direction'' then fill_by Direction_UnmarshalJSON v (\<lambda>x. t\<lparr>Direction := x\<rparr>)
       else if same_name k ''status'' then fill_by Status_UnmarshalJSON v (\<lambda>x. t\<lparr>Status := x\<rparr>)
       else if same_name k ''amount'' then fill_by (BTCAmount_UnmarshalJSON (lib_decimal L)) v (\<lambda>x. t\<lparr>Amount := x\<rparr>)
       else if same_name k ''metainfo'' then Inr (t\<lparr>Metainfo := interface_value v\<rparr>)
       else if same_name k ''fee'' then fill_by (BTCAmount_UnmarshalJSON (lib_decimal L)) v (\<lambda>x. t\<lparr>Fee := x\<rparr>)
       else if same_name k ''fee_type'' then fill_by FeeType_UnmarshalJSON v (\<lambda>x. t\<lparr>FeeTypeOf := x\<rparr>)
       else if same_name k ''cold_storage'' then fill_bool v (\<lambda>x. t\<lparr>ColdStorage := x\<rparr>) t
       else Inr t) j zero_Transaction"

text \<open>An array of structures; \<open>null\<close> is an empty slice.\<close>

fun unmarshal_list :: "(json \<Rightarrow> go_error + 'a) \<Rightarrow> json list \<Rightarrow> go_error + 'a list" where
  "unmarshal_list f [] = Inr []"
| "unmarshal_list f (j # js) =
     (case f j of
        Inl e \<Rightarrow> Inl e
      | Inr x \<Rightarrow> (case unmarshal_list f js of Inl e \<Rightarrow> Inl e | Inr xs \<Rightarrow> Inr (x # xs)))"

definition unmarshal_slice :: "(json \<Rightarrow> go_error + 'a) \<Rightarrow> json \<Rightarrow> go_error + 'a list" where
  "unmarshal_slice f j =
     (case j of
        JArr js \<Rightarrow> unmarshal_list f js
      | JNull \<Rightarrow> Inr []
      | _ \<Rightarrow> Inl (GoError ''json: cannot unmarshal into slice''))"

subsection \<open>Responses\<close>

fun marshal_result :: "lib \<Rightarrow> api_data \<Rightarrow> json" where
  "marshal_result L NoData = JNull"
| "marshal_result L (AccountResult a) = marshal_Account a"
| "marshal_result L (WithdrawResult req) = marshal_WithdrawRequest L req"
| "marshal_result L (AddressResult s) = JStr s"
| "marshal_result L (TransactionsResult txns) = JArr (map (marshal_Transaction L) txns)"
| "marshal_result L (BalanceResult b) = marshal_BalanceInfo L b"
| "marshal_result L (AmountResult a) = BTCAmount_MarshalJSON (lib_decimal L) a"
| "marshal_result L (EventsResult evs) = JArr (map (marshal_event L) evs)"

text \<open>
  The body that \<open>respond\<close> writes. \<open>error_text\<close> is the method \<open>Error\<close> of errors: the model keeps
  only the fixed part of a message.
\<close>

definition response_body :: "lib \<Rightarrow> (go_error \<Rightarrow> string) \<Rightarrow> httpAPIResponse \<Rightarrow> string" where
  "response_body L error_text resp = json_Marshal (JObj
     [(''error'', JStr (case resp_Error resp of None \<Rightarrow> ''ok'' | Some e \<Rightarrow> error_text e)),
      (''result'', marshal_result L (resp_Result resp))])"

text \<open>\<open>unmarshalCb\<close> gets the text of the member \<open>result\<close>, also if that is \<open>null\<close>.\<close>

definition decode_response :: "(json \<Rightarrow> go_error + 'r) \<Rightarrow> json \<Rightarrow> 'r \<Rightarrow> go_error + string \<times> 'r" where
  "decode_response unmarshalCb j zero =
     fill_struct (\<lambda>k v (err, r).
       if same_name k ''error'' then fill_string v (\<lambda>s. (s, r)) (err, r)
       else if same_name k ''result'' then fill_by unmarshalCb v (\<lambda>x. (err, x))
       else Inr (err, r)) j ([], zero)"

subsection \<open>The exchange\<close>

record 'u net_url =
  url_Parse :: "string \<Rightarrow> go_error + 'u"
  url_ResolveReference :: "'u \<Rightarrow> 'u \<Rightarrow> 'u"
  url_String :: "'u \<Rightarrow> string"

definition URLJoin :: "'u net_url \<Rightarrow> string \<Rightarrow> string \<Rightarrow> go_error + string" where
  "URLJoin U base relative =
     (case url_Parse U base of
        Inl err \<Rightarrow> Inl err
      | Inr baseURL \<Rightarrow>
          (case url_Parse U relative of
             Inl err \<Rightarrow> Inl err
           | Inr relativeURL \<Rightarrow> Inr (url_String U (url_ResolveReference U baseURL relativeURL))))"

definition MustURLJoin :: "'u net_url \<Rightarrow> string \<Rightarrow> string \<Rightarrow> string res" where
  "MustURLJoin U base relative =
     (case URLJoin U base relative of Inl err \<Rightarrow> Panic ''URLJoin'' | Inr url \<Rightarrow> Ok url)"

record ('u, 's) connection =
  conn_url :: "'u net_url"
  conn_Post :: "string \<Rightarrow> string \<Rightarrow> ('s, string) call"
  apiBaseURL :: string

text \<open>\<open>None\<close> is a request that is \<open>nil\<close>: its body is empty.\<close>

definition sendHTTPAPIRequest ::
  "('u, 's) connection \<Rightarrow> string \<Rightarrow> json option \<Rightarrow> (json \<Rightarrow> go_error + 'r) \<Rightarrow> 'r \<Rightarrow> ('s, 'r) call" where
  "sendHTTPAPIRequest C relativeURL request resultCb zero =
     (case URLJoin (conn_url C) (apiBaseURL C) relativeURL of
        Inl err \<Rightarrow> failE err
      | Inr fullURL \<Rightarrow>
          bindE (conn_Post C fullURL (case request of None \<Rightarrow> [] | Some j \<Rightarrow> json_Marshal j)) (\<lambda>text.
          case Decoder_Decode text of
            Inl err \<Rightarrow> failE err
          | Inr j \<Rightarrow>
              (case decode_response resultCb j zero of
                 Inl err \<Rightarrow> failE err
               | Inr (err, result) \<Rightarrow> if err \<noteq> ''ok'' then failE (GoError err) else returnE result)))"

text \<open>Without a callback the result is not looked at.\<close>

abbreviation no_result :: "json \<Rightarrow> go_error + unit" where
  "no_result \<equiv> (\<lambda>_. Inr ())"

subsection \<open>Methods of the client\<close>

definition client_NewWallet :: "('u, 's) connection \<Rightarrow> json \<Rightarrow> ('s, Account) call" where
  "client_NewWallet C metainfo =
     sendHTTPAPIRequest C ''/new_wallet'' (if metainfo = JNull then None else Some metainfo) unmarshal_Account
       \<lparr>acc_Address = [], acc_Metainfo = JNull\<rparr>"

definition client_withdraw ::
  "lib \<Rightarrow> ('u, 's) connection \<Rightarrow> string \<Rightarrow> WithdrawRequest \<Rightarrow> ('s, WithdrawRequest) call" where
  "client_withdraw L C relativeURL request =
     sendHTTPAPIRequest C relativeURL (Some (marshal_WithdrawRequest L request)) (decode_WithdrawRequest L) zero_request"

definition client_Withdraw :: "lib \<Rightarrow> ('u, 's) connection \<Rightarrow> WithdrawRequest \<Rightarrow> ('s, WithdrawRequest) call" where
  "client_Withdraw L C request = client_withdraw L C ''/withdraw'' request"

definition client_WithdrawToColdStorage ::
  "lib \<Rightarrow> ('u, 's) connection \<Rightarrow> WithdrawRequest \<Rightarrow> ('s, WithdrawRequest) call" where
  "client_WithdrawToColdStorage L C request = client_withdraw L C ''/withdraw_to_cold_storage'' request"

definition client_Cancel :: "lib \<Rightarrow> ('u, 's) connection \<Rightarrow> uuid \<Rightarrow> ('s, unit) call" where
  "client_Cancel L C i = sendHTTPAPIRequest C ''/cancel_pending'' (Some (marshal_uuid L i)) no_result ()"

definition client_Confirm :: "lib \<Rightarrow> ('u, 's) connection \<Rightarrow> uuid \<Rightarrow> ('s, unit) call" where
  "client_Confirm L C i = sendHTTPAPIRequest C ''/confirm'' (Some (marshal_uuid L i)) no_result ()"

definition client_MuteEventsForTxID :: "('u, 's) connection \<Rightarrow> string \<Rightarrow> ('s, unit) call" where
  "client_MuteEventsForTxID C tx = sendHTTPAPIRequest C ''/mute_events'' (Some (JStr tx)) no_result ()"

definition client_GetEvents :: "lib \<Rightarrow> ('u, 's) connection \<Rightarrow> int \<Rightarrow> ('s, NotificationWithSeq list) call" where
  "client_GetEvents L C startSeq =
     sendHTTPAPIRequest C ''/get_events'' (Some (marshal_SubscribeMessage startSeq))
       (unmarshal_slice (NotificationWithSeq_UnmarshalJSON L)) []"

definition client_GetTransactions ::
  "lib \<Rightarrow> ('u, 's) connection \<Rightarrow> GetTransactionsFilter \<Rightarrow> ('s, Transaction list) call" where
  "client_GetTransactions L C f =
     sendHTTPAPIRequest C ''/get_transactions'' (Some (marshal_GetTransactionsFilter f))
       (unmarshal_slice (unmarshal_Transaction L)) []"

definition client_GetHotStorageAddress :: "('u, 's) connection \<Rightarrow> ('s, string) call" where
  "client_GetHotStorageAddress C =
     sendHTTPAPIRequest C ''/get_hot_storage_address'' None (\<lambda>j. fill_string j (\<lambda>s. s) []) []"

definition client_GetBalance :: "lib \<Rightarrow> ('u, 's) connection \<Rightarrow> ('s, BalanceInfo) call" where
  "client_GetBalance L C =
     sendHTTPAPIRequest C ''/get_balance'' None (unmarshal_BalanceInfo L) \<lparr>Balance = 0, BalanceWithUnconf = 0\<rparr>"

definition client_GetRequiredFromColdStorage :: "lib \<Rightarrow> ('u, 's) connection \<Rightarrow> ('s, BTCAmount) call" where
  "client_GetRequiredFromColdStorage L C =
     sendHTTPAPIRequest C ''/get_required_from_cold_storage'' None (BTCAmount_UnmarshalJSON (lib_decimal L)) 0"

subsection \<open>A client connected to the service\<close>

text \<open>
  The service as \<open>http.Post\<close> reaches it: the handler of the path, and the text of its response. When
  the goroutine that should answer panics the connection is closed without a response.
\<close>

definition http_server ::
  "env \<Rightarrow> walletData \<Rightarrow> bool \<Rightarrow> uuid \<Rightarrow> (go_error \<Rightarrow> string) \<Rightarrow> string \<Rightarrow> string \<Rightarrow> (eventBrokerData \<times> world, string) call" where
  "http_server E W a newID error_text path body s =
     (case serve E W a newID path (Inr body) of
        None \<Rightarrow> (Ok (''404 page not found'' @ [CHR 0x0A]), s)
      | Some h \<Rightarrow>
          (case h (fst s) (snd s) of
             (Ok resp, s') \<Rightarrow> (Ok (response_body (e_lib E) error_text resp), s')
           | (_, s') \<Rightarrow> (Error (GoError ''EOF''), s')))"

definition connected ::
  "('u, eventBrokerData \<times> world) connection \<Rightarrow> env \<Rightarrow> walletData \<Rightarrow> bool \<Rightarrow> uuid \<Rightarrow> (go_error \<Rightarrow> string) \<Rightarrow> bool" where
  "connected C E W a newID error_text \<longleftrightarrow>
     (\<forall>path \<in> set (map fst (initHTTPAPIServer E W a newID)).
        \<exists>url. URLJoin (conn_url C) (apiBaseURL C) path = Inr url \<and> conn_Post C url = http_server E W a newID error_text path) \<and>
     (\<forall>err. error_text err \<noteq> ''ok'')"

text \<open>What the client makes of a response.\<close>

definition received :: "lib \<Rightarrow> (go_error \<Rightarrow> string) \<Rightarrow> (json \<Rightarrow> go_error + 'r) \<Rightarrow> httpAPIResponse \<Rightarrow> 'r res" where
  "received L error_text cb resp =
     (case cb (marshal_result L (resp_Result resp)) of
        Inl err \<Rightarrow> Error err
      | Inr x \<Rightarrow> (case resp_Error resp of None \<Rightarrow> Ok x | Some err \<Rightarrow> Error (GoError (error_text err))))"

lemma decode_response_body:
  assumes "json_ok (marshal_result L (resp_Result resp))"
  shows "\<exists>j. Decoder_Decode (response_body L error_text resp) = Inr j \<and>
    decode_response cb j zero =
      (case cb (marshal_result L (resp_Result resp)) of
         Inl err \<Rightarrow> Inl err
       | Inr x \<Rightarrow> Inr (case resp_Error resp of None \<Rightarrow> ''ok'' | Some e \<Rightarrow> error_text e, x))"
  unfolding response_body_def
  by (rule exI, rule conjI, rule json_roundtrip(2), use assms in simp)
    (simp add: decode_response_def fill_struct_def same_name_def fill_by_def split: sum.splits)

lemma exchange:
  assumes "connected C E W a newID error_text" "map_of (initHTTPAPIServer E W a newID) path = Some g"
    and "g (Inr (case request of None \<Rightarrow> [] | Some j \<Rightarrow> json_Marshal j)) e w = (r, e', w')"
    and "\<And>resp. r = Ok resp \<Longrightarrow> json_ok (marshal_result (e_lib E) (resp_Result resp))"
  shows "sendHTTPAPIRequest C path request cb zero (e, w) =
    ((case r of Ok resp \<Rightarrow> received (e_lib E) error_text cb resp | _ \<Rightarrow> Error (GoError ''EOF'')), e', w')"
proof -
  from map_of_SomeD [OF assms(2)] have "path \<in> set (map fst (initHTTPAPIServer E W a newID))" by force
  with assms(1) obtain url where url: "URLJoin (conn_url C) (apiBaseURL C) path = Inr url"
    "conn_Post C url = http_server E W a newID error_text path" and err: "\<And>err. error_text err \<noteq> ''ok''"
    unfolding connected_def by blast
  note post = http_server_def serve_def assms(2,3) url
  show ?thesis
  proof (cases r)
    case (Ok resp)
    from decode_response_body [OF assms(4) [OF Ok], of error_text cb zero] obtain j where
      "Decoder_Decode (response_body (e_lib E) error_text resp) = Inr j"
      "decode_response cb j zero =
        (case cb (marshal_result (e_lib E) (resp_Result resp)) of
           Inl err \<Rightarrow> Inl err
         | Inr x \<Rightarrow> Inr (case resp_Error resp of None \<Rightarrow> ''ok'' | Some e \<Rightarrow> error_text e, x))" by blast
    with Ok err show ?thesis
      by (cases "cb (marshal_result (e_lib E) (resp_Result resp))"; cases "resp_Error resp")
        (simp_all add: sendHTTPAPIRequest_def bindE_def post received_def failE_def returnE_def)
  qed (simp_all add: sendHTTPAPIRequest_def bindE_def post)
qed

subsection \<open>Remote calls\<close>

text \<open>A call of the wallet made from another process: errors arrive as their texts.\<close>

definition remotely :: "(go_error \<Rightarrow> string) \<Rightarrow> 'a M \<Rightarrow> (eventBrokerData \<times> world, 'a) call" where
  "remotely error_text m s =
     (case m (snd s) of
        (Ok x, w') \<Rightarrow> (Ok x, fst s, w')
      | (Error err, w') \<Rightarrow> (Error (GoError (error_text err)), fst s, w')
      | (Panic p, w') \<Rightarrow> (Error (GoError ''EOF''), fst s, w'))"

lemma remote_call:
  assumes "connected C E W a newID error_text" "map_of (initHTTPAPIServer E W a newID) path = Some g"
    and "g (Inr (case request of None \<Rightarrow> [] | Some j \<Rightarrow> json_Marshal j)) = respond_with m f"
    and "\<And>x w'. m w = (Ok x, w') \<Longrightarrow>
      json_ok (marshal_result (e_lib E) (f x)) \<and> cb (marshal_result (e_lib E) (f x)) = Inr (v x)"
    and "\<And>err w'. m w = (Error err, w') \<Longrightarrow> \<exists>y. cb JNull = Inr y"
  shows "sendHTTPAPIRequest C path request cb zero (e, w) = remotely error_text (bindE m (\<lambda>x. returnE (v x))) (e, w)"
proof (cases "m w")
  case (Pair r w')
  show ?thesis
  proof (cases r)
    case (Ok x)
    with Pair assms(4) show ?thesis
      by (subst exchange [OF assms(1,2)]) (auto simp: assms(3) respond_with_def respond_def received_def remotely_def bindE_def returnE_def)
  next
    case (Error err)
    with Pair obtain y where "cb JNull = Inr y" using assms(5) by blast
    with Pair Error show ?thesis
      by (subst exchange [OF assms(1,2)]) (auto simp: assms(3) respond_with_def respond_def received_def remotely_def bindE_def)
  next
    case (Panic p)
    with Pair show ?thesis
      by (subst exchange [OF assms(1,2)]) (auto simp: assms(3) respond_with_def remotely_def bindE_def)
  qed
qed


subsection \<open>Structures read back\<close>

lemma decode_marshal_WithdrawRequest:
  assumes "lib_ok L val" "plain_json (req_Metainfo req)"
  shows "decode_WithdrawRequest L (marshal_WithdrawRequest L req) = Inr req"
  using assms unmarshal_amount [OF assms(1)]
  by (cases req) (simp add: decode_WithdrawRequest_def marshal_WithdrawRequest_def zero_request_def fill_struct_def
      same_name_def fill_by_def fill_uuid_marshal plain_json_def)

lemma json_ok_WithdrawRequest: "plain_json (req_Metainfo req) \<Longrightarrow> json_ok (marshal_WithdrawRequest L req)"
  by (auto simp: marshal_WithdrawRequest_def marshal_uuid_def BTCAmount_MarshalJSON_def plain_json_def)

lemma decode_uuid_marshal:
  assumes "lib_ok L val"
  shows "decode_uuid L (json_Marshal (marshal_uuid L i)) = Inr i"
proof -
  have "json_Unmarshal (json_Marshal (marshal_uuid L i)) = Inr (marshal_uuid L i)"
    by (rule json_roundtrip(1)) (simp add: marshal_uuid_def)
  then show ?thesis by (simp add: decode_uuid_def fill_uuid_marshal [OF assms])
qed

text \<open>A transaction that can be sent, and what the receiver sees of it.\<close>

definition tx_sendable :: "Transaction \<Rightarrow> bool" where
  "tx_sendable tx \<longleftrightarrow> Direction tx \<noteq> InvalidDirection \<and> Status tx \<noteq> InvalidTransaction \<and>
     plain_json (Metainfo tx) \<and> int64_range (Confirmations tx)"

definition public_view :: "Transaction \<Rightarrow> Transaction" where
  "public_view tx = tx\<lparr>Fresh := False, ReportedConfirmations := 0\<rparr>"

lemma unmarshal_marshal_Transaction:
  assumes "lib_ok L val" "tx_sendable tx"
  shows "unmarshal_Transaction L (marshal_Transaction L tx) = Inr (public_view tx)"
  using assms unmarshal_amount [OF assms(1)]
  by (cases tx) (simp add: unmarshal_Transaction_def marshal_Transaction_def fill_struct_def same_name_def fill_by_def
      fill_int_marshal fill_uuid_marshal unmarshal_parts Status_UnmarshalJSON_def Status_MarshalJSON_def
      StatusFromString_String plain_json_def tx_sendable_def public_view_def zero_Transaction_def)

lemma json_ok_Transaction: "tx_sendable tx \<Longrightarrow> json_ok (marshal_Transaction L tx)"
  by (simp add: tx_sendable_def marshal_Transaction_def marshal_uuid_def marshal_int_def Direction_MarshalJSON_def
      Status_MarshalJSON_def FeeType_MarshalJSON_def BTCAmount_MarshalJSON_def plain_json_def parse_number_Itoa)

lemma unmarshal_list_map: "\<forall>x \<in> set xs. f (g x) = Inr (h x) \<Longrightarrow> unmarshal_list f (map g xs) = Inr (map h xs)"
  by (induction xs) auto

lemma decode_marshal_filter: "decode_GetTransactionsFilter (marshal_GetTransactionsFilter f) = Inr f"
  by (cases f) (simp add: decode_GetTransactionsFilter_def marshal_GetTransactionsFilter_def fill_struct_def same_name_def)

lemma json_ok_filter: "json_ok (marshal_GetTransactionsFilter f)"
  by (simp add: marshal_GetTransactionsFilter_def)


subsection \<open>Calls through the client\<close>

lemmas api_paths = initHTTPAPIServer_def

text \<open>What \<open>Server.withdraw\<close> does with a request once it is decoded.\<close>

definition local_withdraw ::
  "env \<Rightarrow> walletData \<Rightarrow> bool \<Rightarrow> uuid \<Rightarrow> bool \<Rightarrow> WithdrawRequest \<Rightarrow> WithdrawRequest M" where
  "local_withdraw E W a newID toColdStorage request =
     (case complete_request a newID request of
        Inl err \<Rightarrow> failE err
      | Inr req \<Rightarrow>
          (case Withdraw W req toColdStorage of
             Inl err \<Rightarrow> failE err
           | Inr q \<Rightarrow> bindE (withdrawViaWalletUpdater E W q)
                        (\<lambda>_. returnE (req\<lparr>req_Address := Address (iw_tx q)\<rparr>))))"

lemma respond_with_failE: "respond_with (failE err) f = refuse err"
  by (simp add: fun_eq_iff respond_with_def failE_def refuse_def)

lemma respond_with_returnE: "respond_with (bindE m (\<lambda>_. returnE x)) f = respond_with m (\<lambda>_. f x)"
  by (auto simp: fun_eq_iff respond_with_def bindE_def returnE_def split: res.splits prod.splits)

lemma withdraw_decoded:
  assumes "lib_ok (e_lib E) val" "plain_json (req_Metainfo req)"
  shows "withdraw E W a newID cold (Inr (json_Marshal (marshal_WithdrawRequest (e_lib E) req))) =
    respond_with (local_withdraw E W a newID cold req) WithdrawResult"
proof -
  have "Decoder_Decode (json_Marshal (marshal_WithdrawRequest (e_lib E) req)) = Inr (marshal_WithdrawRequest (e_lib E) req)"
    by (rule json_roundtrip(2) [OF json_ok_WithdrawRequest [OF assms(2)]])
  then have "read_request (e_lib E) a newID (Inr (json_Marshal (marshal_WithdrawRequest (e_lib E) req))) =
      complete_request a newID req"
    by (simp add: read_request_def decode_marshal_WithdrawRequest [OF assms])
  then show ?thesis
    by (simp add: withdraw_def local_withdraw_def respond_with_failE respond_with_returnE split: sum.split)
qed

lemma local_withdraw_Metainfo:
  "local_withdraw E W a newID cold req w = (Ok x, w') \<Longrightarrow> req_Metainfo x = req_Metainfo req"
  by (auto simp: local_withdraw_def complete_request_def bindE_def failE_def returnE_def Let_def
      split: sum.splits if_splits res.splits prod.splits)

lemma client_withdraw_remote:
  assumes "connected C E W a newID error_text" "lib_ok (e_lib E) val" "plain_json (req_Metainfo req)"
    and "(path, cold) \<in> {(''/withdraw'', False), (''/withdraw_to_cold_storage'', True)}"
  shows "client_withdraw (e_lib E) C path req (e, w) = remotely error_text (local_withdraw E W a newID cold req) (e, w)"
proof -
  have "map_of (initHTTPAPIServer E W a newID) path = Some (withdraw E W a newID cold)"
    using assms(4) by (elim insertE emptyE Pair_inject) (simp_all add: api_paths)
  then have "client_withdraw (e_lib E) C path req (e, w) =
      remotely error_text (bindE (local_withdraw E W a newID cold req) (\<lambda>x. returnE x)) (e, w)"
    unfolding client_withdraw_def
  proof (rule remote_call [OF assms(1)])
    show "withdraw E W a newID cold (Inr (case Some (marshal_WithdrawRequest (e_lib E) req) of None \<Rightarrow> [] | Some j \<Rightarrow> json_Marshal j)) =
        respond_with (local_withdraw E W a newID cold req) WithdrawResult"
      by (simp add: withdraw_decoded [OF assms(2,3)])
    fix x w'
    assume "local_withdraw E W a newID cold req w = (Ok x, w')"
    then have "plain_json (req_Metainfo x)" using assms(3) by (simp add: local_withdraw_Metainfo)
    then show "json_ok (marshal_result (e_lib E) (WithdrawResult x)) \<and>
        decode_WithdrawRequest (e_lib E) (marshal_result (e_lib E) (WithdrawResult x)) = Inr x"
      by (simp add: json_ok_WithdrawRequest decode_marshal_WithdrawRequest [OF assms(2)])
  qed (simp add: decode_WithdrawRequest_def fill_struct_def)
  then show ?thesis by (simp add: bindE_unit)
qed


lemma remotely_unit: "remotely error_text (bindE m (\<lambda>x. returnE x)) = remotely error_text m"
  by (simp add: bindE_unit)

lemma client_Cancel_remote:
  assumes "connected C E W a newID error_text" "lib_ok (e_lib E) val"
  shows "client_Cancel (e_lib E) C i (e, w) = remotely error_text (CancelPendingTx E W i) (e, w)"
  unfolding client_Cancel_def remotely_unit [of _ "CancelPendingTx E W i", symmetric]
  by (rule remote_call [OF assms(1), where g = "cancelPending E W" and f = "\<lambda>_. NoData"])
    (simp_all add: api_paths cancelPending_def decode_uuid_marshal [OF assms(2)])

lemma client_Confirm_remote:
  assumes "connected C E W a newID error_text" "lib_ok (e_lib E) val"
  shows "client_Confirm (e_lib E) C i (e, w) = remotely error_text (ConfirmPendingTransaction E W i) (e, w)"
  unfolding client_Confirm_def remotely_unit [of _ "ConfirmPendingTransaction E W i", symmetric]
  by (rule remote_call [OF assms(1), where g = "confirmPendingTransaction E W" and f = "\<lambda>_. NoData"])
    (simp_all add: api_paths confirmPendingTransaction_def decode_uuid_marshal [OF assms(2)])

text \<open>
  C10: A call through the client library is the call itself. A client that is connected to the
  service and asks for a withdrawal, for a withdrawal to the cold storage, for the cancellation or
  for the confirmation of a pending one has exactly the effect of the operation of the wallet, and
  gets its result: the request as the service completed it, or the text of the error.
\<close>

theorem client_calls:
  assumes "connected C E W a newID error_text" "lib_ok (e_lib E) val" "plain_json (req_Metainfo req)"
  shows "client_Withdraw (e_lib E) C req (e, w) = remotely error_text (local_withdraw E W a newID False req) (e, w) \<and>
    client_WithdrawToColdStorage (e_lib E) C req (e, w) = remotely error_text (local_withdraw E W a newID True req) (e, w) \<and>
    client_Cancel (e_lib E) C i (e, w) = remotely error_text (CancelPendingTx E W i) (e, w) \<and>
    client_Confirm (e_lib E) C i (e, w) = remotely error_text (ConfirmPendingTransaction E W i) (e, w)"
  using client_withdraw_remote [OF assms] client_Cancel_remote [OF assms(1,2)] client_Confirm_remote [OF assms(1,2)]
  by (simp add: client_Withdraw_def client_WithdrawToColdStorage_def)

text \<open>A client and the service in one process; a URL is the text of the base and the path.\<close>

definition example_connection :: "(string, eventBrokerData \<times> world) connection" where
  "example_connection =
     \<lparr>conn_url = \<lparr>url_Parse = Inr, url_ResolveReference = (@), url_String = id\<rparr>,
      conn_Post = (\<lambda>url. http_server example_env event_wallet False 9 (\<lambda>_. ''error'') (drop 16 url)),
      apiBaseURL = ''http://localhost''\<rparr>"

lemma example_connected: "connected example_connection example_env event_wallet False 9 (\<lambda>_. ''error'')"
  by (simp add: connected_def example_connection_def URLJoin_def)

definition example_payment :: WithdrawRequest where
  "example_payment =
     \<lparr>req_ID = 5, req_Address = ''dest'', req_Amount = 1000, req_Fee = 20, req_FeeType = [],
      req_Metainfo = JObj [(''user'', JNum ''7'')]\<rparr>"

lemma example_env_lib: "lib_ok (e_lib example_env) example_val"
  by (simp add: example_env_def example_lib_ok)

theorem client_calls_witness:
  "client_Withdraw (e_lib example_env) example_connection example_payment (NewEventBroker 3, event_world) =
     remotely (\<lambda>_. ''error'') (local_withdraw example_env event_wallet False 9 False example_payment) (NewEventBroker 3, event_world)"
  using client_calls [OF example_connected example_env_lib, of example_payment]
  by (simp add: example_payment_def plain_json_def map_members_def parse_number_def after_int_def after_digits_def
      after_frac_def after_exp_def starts_with_def is_digit_def)

text \<open>
  C33: A client lists the transactions as they are stored: what \<open>GetTransactions\<close> of the client
  returns are the transactions the wallet finds with the same filter, in the same order, up to the
  two fields that are not part of their JSON form.
\<close>

theorem client_lists_transactions:
  assumes "connected C E W a newID error_text" "lib_ok (e_lib E) val"
    and "\<forall>txns w'. GetTransactionsWithFilter E (filter_Direction f) (filter_Status f) w = (Ok txns, w') \<longrightarrow> list_all tx_sendable txns"
  shows "client_GetTransactions (e_lib E) C f (e, w) =
    remotely error_text (bindE (GetTransactionsWithFilter E (filter_Direction f) (filter_Status f))
      (\<lambda>txns. returnE (map public_view txns))) (e, w)"
  unfolding client_GetTransactions_def
proof (rule remote_call [OF assms(1)])
  let ?text = "json_Marshal (marshal_GetTransactionsFilter f)"
  show "map_of (initHTTPAPIServer E W a newID) ''/get_transactions'' = Some (getTransactions E)" by (simp add: api_paths)
  have "json_Unmarshal ?text = Inr (marshal_GetTransactionsFilter f)" by (rule json_roundtrip(1) [OF json_ok_filter])
  then show "getTransactions E (Inr (case Some (marshal_GetTransactionsFilter f) of None \<Rightarrow> [] | Some j \<Rightarrow> json_Marshal j)) =
      respond_with (GetTransactionsWithFilter E (filter_Direction f) (filter_Status f)) TransactionsResult"
    by (simp add: getTransactions_def decode_marshal_filter json_Marshal_nonempty [OF json_ok_filter])
next
  fix txns w'
  assume "GetTransactionsWithFilter E (filter_Direction f) (filter_Status f) w = (Ok txns, w')"
  with assms(3) have ok: "\<forall>tx \<in> set txns. tx_sendable tx" by (auto simp: list_all_iff)
  then show "json_ok (marshal_result (e_lib E) (TransactionsResult txns)) \<and>
      unmarshal_slice (unmarshal_Transaction (e_lib E)) (marshal_result (e_lib E) (TransactionsResult txns)) =
        Inr (map public_view txns)"
    by (auto simp: json_ok_Transaction unmarshal_slice_def
        intro!: unmarshal_list_map unmarshal_marshal_Transaction [OF assms(2)])
qed (simp add: unmarshal_slice_def)


definition listed_world :: world where
  "listed_world = event_world\<lparr>db := (db event_world)\<lparr>transactions_t :=
     [row_of_tx (outgoing_tx example_payment FixedFee ''dest'' False)]\<rparr>\<rparr>"

lemma listed_world_sendable:
  "case GetTransactionsWithFilter example_env [] [] listed_world of
     (Ok txns, _) \<Rightarrow> length txns = 1 \<and> list_all tx_sendable txns | _ \<Rightarrow> False"
  by code_simp

theorem client_lists_transactions_witness:
  "client_GetTransactions (e_lib example_env) example_connection \<lparr>filter_Direction = [], filter_Status = []\<rparr>
     (NewEventBroker 3, listed_world) =
   remotely (\<lambda>_. ''error'') (bindE (GetTransactionsWithFilter example_env [] [])
     (\<lambda>txns. returnE (map public_view txns))) (NewEventBroker 3, listed_world)"
  using client_lists_transactions [OF example_connected example_env_lib,
      of "\<lparr>filter_Direction = [], filter_Status = []\<rparr>" listed_world] listed_world_sendable
  by (auto split: prod.splits res.splits)

text \<open>
  When \<open>/get_required_from_cold_storage\<close> fails the client does not report why: the result of the
  response is \<open>null\<close>, which is read as an empty amount before the error is looked at.
\<close>

lemma required_from_cold_storage_error_hidden:
  assumes "connected C E W a newID error_text" "dec_NewFromString (lib_decimal (e_lib E)) [] = Inl parse_err"
    and "GetMoneyRequiredFromColdStorage E w = (Error err, w')"
  shows "client_GetRequiredFromColdStorage (e_lib E) C (e, w) = (Error parse_err, e, w')"
proof -
  have path: "map_of (initHTTPAPIServer E W a newID) ''/get_required_from_cold_storage'' = Some (\<lambda>_. getRequiredFromColdStorage E)"
    by (simp add: api_paths)
  have run: "getRequiredFromColdStorage E e w = (Ok (respond NoData (Some err)), e, w')"
    by (simp add: getRequiredFromColdStorage_def respond_with_def assms(3))
  from exchange [OF assms(1) path run, where request = None and cb = "BTCAmount_UnmarshalJSON (lib_decimal (e_lib E))" and zero = 0] assms(2) show ?thesis
    by (simp add: client_GetRequiredFromColdStorage_def respond_def received_def
        BTCAmount_UnmarshalJSON_def BTCAmountFromStringedFloat_def)
qed

end
