(* ===== verification/Reader.thy ===== *)
theory Reader
  imports Websocket Client
begin

text \<open>
  What the readers of events see: the websocket client of the library (\<open>api/client/websocket.go\<close>)
  and its method \<open>GetEvents\<close>, connected to the service. Between the table of events and the reader
  an event is a JSON text twice - in the database and on the connection - with a Go map in
  between; nothing is lost on the way.
\<close>

subsection \<open>The websocket client\<close>

text \<open>
  The goroutine that reads: each message is decoded and handed to the callback; the first message
  that cannot be read or decoded ends it. The result are the events handed over.
\<close>

fun read_loop :: "lib \<Rightarrow> (go_error + string) list \<Rightarrow> NotificationWithSeq list" where
  "read_loop L [] = []"
| "read_loop L (Inl err # messages) = []"
| "read_loop L (Inr text # messages) =
     (case Decoder_Decode text of
        Inl err \<Rightarrow> []
      | Inr j \<Rightarrow>
          (case NotificationWithSeq_UnmarshalJSON L j of
             Inl err \<Rightarrow> []
           | Inr notification \<Rightarrow> notification # read_loop L messages))"

text \<open>
  The websocket clients that a client owns, by their numbers; \<open>Close\<close> on a client that is closed
  does nothing.
\<close>

record client_state =
  websocketClients :: "nat list"
  ws_owned :: "nat list"
  ws_interrupted :: "nat list"
  ws_next :: nat

definition register_websocket :: "client_state \<Rightarrow> nat \<times> client_state" where
  "register_websocket cli =
     (ws_next cli, cli\<lparr>websocketClients := websocketClients cli @ [ws_next cli], ws_owned := ws_next cli # ws_owned cli,
        ws_next := Suc (ws_next cli)\<rparr>)"

text \<open>
  Of a URL of \<open>net/url\<close> the client sets the scheme and the path. \<open>Parse\<close> is \<open>url.Parse\<close>, and \<open>Dial\<close>
  opens the connection. The first message on it is the subscription.
\<close>

record 'r URL =
  Scheme :: string
  Path :: string
  other_parts :: 'r

fun replace_first :: "string \<Rightarrow> string \<Rightarrow> string \<Rightarrow> string" where
  "replace_first old new [] = []"
| "replace_first old new (c # s) =
     (if take (length old) (c # s) = old then new @ drop (length old) (c # s) else c # replace_first old new s)"

definition ws_endpoint :: "'r URL \<Rightarrow> 'r URL" where
  "ws_endpoint u = u\<lparr>Scheme := replace_first ''http'' ''ws'' (Scheme u), Path := ''/ws''\<rparr>"

definition NewWebsocketClient ::
  "('r URL \<Rightarrow> go_error option) \<Rightarrow> (string \<Rightarrow> go_error + 'r URL) \<Rightarrow> string \<Rightarrow> int \<Rightarrow> client_state \<Rightarrow>
   (go_error + nat \<times> string) \<times> client_state" where
  "NewWebsocketClient Dial Parse baseURL startSeq cli =
     (case Parse baseURL of
        Inl err \<Rightarrow> (Inl err, cli)
      | Inr u \<Rightarrow>
          (case Dial (ws_endpoint u) of
             Some err \<Rightarrow> (Inl err, cli)
           | None \<Rightarrow>
               (case register_websocket cli of
                  (i, cli') \<Rightarrow> (Inr (i, json_Marshal (marshal_SubscribeMessage startSeq)), cli'))))"

definition websocketClient_Close :: "nat \<Rightarrow> client_state \<Rightarrow> client_state" where
  "websocketClient_Close i cli =
     (if i \<notin> set (ws_owned cli) then cli
      else cli\<lparr>websocketClients := remove1 i (websocketClients cli), ws_owned := remove1 i (ws_owned cli),
               ws_interrupted := i # ws_interrupted cli\<rparr>)"

subsection \<open>Events through the database and the connection\<close>

text \<open>The members of a notification in the order of a Go map.\<close>

lemma interface_marshal_TxNotification:
  assumes "interface_value (Metainfo (tn_Transaction n)) = Metainfo (tn_Transaction n)"
  shows "interface_value (marshal_TxNotification L n) = (let tx = tn_Transaction n in JObj
     ([(''address'', JStr (Address tx)), (''amount'', BTCAmount_MarshalJSON (lib_decimal L) (Amount tx)),
       (''blockhash'', JStr (BlockHash tx)), (''cold_storage'', JBool (ColdStorage tx)),
       (''confirmations'', marshal_int (Confirmations tx)), (''currency'', JStr (Currency n)),
       (''direction'', Direction_MarshalJSON (Direction tx)), (''fee'', BTCAmount_MarshalJSON (lib_decimal L) (Fee tx)),
       (''fee_type'', FeeType_MarshalJSON (FeeTypeOf tx)), (''hash'', JStr (Hash tx)), (''id'', marshal_uuid L (ID tx)),
       (''ipn_id'', JStr (IpnID n)), (''ipn_type'', JStr (IpnType n)), (''metainfo'', Metainfo tx)] @
      (if tn_Seq n = 0 then [] else [(''seq'', marshal_int (tn_Seq n))]) @
      [(''status'', marshal_int (StatusCode n)), (''status_name'', JStr (StatusStr n))]))"
  using assms
  by (simp add: marshal_TxNotification_def Let_def map_members_def marshal_int_def Direction_MarshalJSON_def
      BTCAmount_MarshalJSON_def FeeType_MarshalJSON_def marshal_uuid_def less_char_def)

lemma unmarshal_interface_TxNotification:
  assumes "lib_ok L val" "data_ok (TxData n)"
  shows "unmarshal_TxNotification L (interface_value (marshal_TxNotification L n)) =
    Inr (on_tx (\<lambda>t. t\<lparr>Status := NewTransaction, Fresh := False, ReportedConfirmations := 0\<rparr>) n)"
proof -
  have m: "interface_value (Metainfo (tn_Transaction n)) = Metainfo (tn_Transaction n)"
    using assms(2) by (simp add: plain_json_def)
  show ?thesis using assms unmarshal_amount [OF assms(1)] unfolding interface_marshal_TxNotification [OF m]
    by (simp add: unmarshal_TxNotification_def Let_def fill_struct_def same_name_def
        fill_by_def fill_int_marshal fill_uuid_marshal unmarshal_parts plain_json_def zero_TxNotification_def
        zero_Transaction_def)
qed

lemma unmarshal_interface_Account:
  assumes "data_ok (AccountData a)"
  shows "unmarshal_Account (interface_value (marshal_Account a)) = Inr a"
  using assms by (cases a; cases "acc_Metainfo a") (auto simp: unmarshal_Account_def marshal_Account_def fill_struct_def same_name_def
      plain_json_def map_members_def less_char_def)

text \<open>An event of the table as the reader at the end of the line has it.\<close>

definition client_event :: "event_row \<Rightarrow> NotificationWithSeq" where
  "client_event r =
     \<lparr>ns_Type = (case EventTypeFromString (ev_type r) of Inr et \<Rightarrow> et | Inl _ \<Rightarrow> InvalidEvent),
      ns_Data = wire_view (ev_data r), ns_Seq = ev_seq r\<rparr>"

definition row_ok :: "event_row \<Rightarrow> bool" where
  "row_ok r \<longleftrightarrow> int64_range (ev_seq r) \<and> data_ok (ev_data r) \<and>
     (case EventTypeFromString (ev_type r) of Inr et \<Rightarrow> data_fits et (ev_data r) | Inl _ \<Rightarrow> False)"

lemma generic_event_reads:
  assumes "lib_ok L val" "row_ok r"
  shows "NotificationWithSeq_UnmarshalJSON L (marshal_event L (decode_event L r)) = Inr (client_event r)"
proof -
  from assms(2) obtain et where et: "EventTypeFromString (ev_type r) = Inr et" "data_fits et (ev_data r)"
    and ok: "int64_range (ev_seq r)" "data_ok (ev_data r)"
    by (auto simp: row_ok_def split: sum.splits)
  have "genericNotificationData_UnmarshalJSON L et (interface_value (marshal_data L (ev_data r))) = Inr (wire_view (ev_data r))"
  proof (cases "ev_data r")
    case (AccountData a)
    with et ok unmarshal_interface_Account [of a] show ?thesis
      by (simp add: genericNotificationData_UnmarshalJSON_def notificationUnmarshalers_def fill_by_def del: interface_value.simps)
  next
    case (TxData n)
    with et ok unmarshal_interface_TxNotification [OF assms(1), of n] show ?thesis
      by (cases et) (simp_all add: genericNotificationData_UnmarshalJSON_def notificationUnmarshalers_def fill_by_def)
  qed (use et in simp)
  moreover have "et \<noteq> InvalidEvent" using et(2) by (cases "ev_data r") auto
  ultimately show ?thesis using et ok
    by (simp add: NotificationWithSeq_UnmarshalJSON_def marshal_event_def decode_event_def client_event_def generic_data_def
        fill_struct_def same_name_def fill_by_def fill_int_marshal unmarshal_parts)
qed

lemma generic_event_ok: "row_ok r \<Longrightarrow> json_ok (marshal_event L (decode_event L r))"
  by (simp add: marshal_event_def decode_event_def generic_data_def row_ok_def EventType_MarshalJSON_def marshal_int_def
      parse_number_Itoa json_ok_interface_value marshal_data_ok)

lemma read_loop_events:
  assumes "lib_ok L val" "\<forall>r \<in> set rows. row_ok r"
  shows "read_loop L (map (Inr \<circ> json_Marshal \<circ> marshal_event L \<circ> decode_event L) rows) = map client_event rows"
  using assms(2)
  by (induction rows) (simp_all add: json_roundtrip(2) generic_event_ok generic_event_reads [OF assms(1)])


lemma subscription_message:
  assumes "int64_range startSeq"
  shows "readSeqFromClient (Inr (json_Marshal (marshal_SubscribeMessage startSeq))) = Inr startSeq"
proof -
  have "Decoder_Decode (json_Marshal (marshal_SubscribeMessage startSeq)) = Inr (marshal_SubscribeMessage startSeq)"
    by (rule json_roundtrip(2)) (simp add: marshal_SubscribeMessage_def marshal_int_def parse_number_Itoa)
  then show ?thesis using assms
    by (simp add: readSeqFromClient_def decode_SubscribeMessage_def marshal_SubscribeMessage_def fill_struct_def
        same_name_def fill_int_marshal)
qed

lemma prefix_map: "prefix xs (map f ys) \<Longrightarrow> \<exists>zs. prefix zs ys \<and> xs = map f zs"
  by (metis prefix_def take_is_prefix append_eq_conv_conj take_map)

lemma visible_from: "filter (\<lambda>ev. q \<le> ns_Seq ev) (pg_evs L w) = map (decode_event L) (filter (\<lambda>r. q \<le> ev_seq r) (visible_rows (db w)))"
  by (simp add: pg_evs_def filter_map comp_def decode_event_def)

subsection \<open>What a client is told\<close>

lemma session_rows:
  assumes "session L out q w e c"
  obtains rows where "ws_sent c = map (json_Marshal \<circ> marshal_event L \<circ> decode_event L) rows"
    "prefix rows (filter (\<lambda>r. q \<le> ev_seq r) (visible_rows (db w)))"
proof -
  from session_stream [OF assms] obtain xs where "ws_sent c = map (json_Marshal \<circ> marshal_event L) xs"
    "prefix xs (map (decode_event L) (filter (\<lambda>r. q \<le> ev_seq r) (visible_rows (db w))))"
    unfolding visible_from by blast
  moreover from prefix_map [OF this(2)] obtain rows where "xs = map (decode_event L) rows"
    "prefix rows (filter (\<lambda>r. q \<le> ev_seq r) (visible_rows (db w)))" by blast
  ultimately show thesis by (intro that [of rows]) (simp_all add: comp_assoc)
qed

lemma session_sent_length:
  "session L out q w e c \<Longrightarrow> length (ws_sent c) \<le> length (filter (\<lambda>r. q \<le> ev_seq r) (visible_rows (db w)))"
  by (elim session_rows) (simp add: prefix_length_le)

text \<open>
  From the table of events to the callback of a websocket client nothing is lost or changed. When
  \<open>k\<close> of the messages that were written to a connection have arrived, the events that the client
  library has handed to its callback are the first \<open>k\<close> of the events of the table that are not muted,
  from the number the client subscribed with, each with its type, number and data.
\<close>

lemma session_events_read:
  assumes "session L out q w e c" "lib_ok L val" "\<forall>r \<in> set (visible_rows (db w)). row_ok r" "k \<le> length (ws_sent c)"
  shows "read_loop L (map Inr (take k (ws_sent c))) =
    map client_event (take k (filter (\<lambda>r. q \<le> ev_seq r) (visible_rows (db w))))"
proof -
  let ?rows = "filter (\<lambda>r. q \<le> ev_seq r) (visible_rows (db w))"
  from session_rows [OF assms(1)] obtain rows where
    sent: "ws_sent c = map (json_Marshal \<circ> marshal_event L \<circ> decode_event L) rows" and rows: "prefix rows ?rows" .
  have "take k rows = take k ?rows" using rows assms(4) sent by (auto simp: prefix_def)
  moreover have "\<forall>r \<in> set (take k ?rows). row_ok r" using assms(3) by (auto dest: in_set_takeD)
  moreover have "map Inr (take k (ws_sent c)) = map (Inr \<circ> json_Marshal \<circ> marshal_event L \<circ> decode_event L) (take k rows)"
    by (simp add: sent take_map comp_assoc)
  ultimately show ?thesis using read_loop_events [OF assms(2), of "take k ?rows"] by metis
qed

text \<open>The same for a client that asks for events with \<open>GetEvents\<close>.\<close>

lemma client_GetEvents_remote:
  assumes "connected C E W a newID error_text" "lib_ok (e_lib E) val" "int64_range q"
    and "events_ok (events_t (db w)) (events_seq w)" "\<forall>r \<in> set (visible_rows (db w)). row_ok r"
    and "GetEventsFromSeq E q w = (Ok evs, w')"
  shows "client_GetEvents (e_lib E) C q (e, w) =
    (Ok (map client_event (filter (\<lambda>r. q \<le> ev_seq r) (visible_rows (db w)))), e, w')"
proof -
  let ?rows = "filter (\<lambda>r. q \<le> ev_seq r) (visible_rows (db w))" and ?j = "marshal_SubscribeMessage q"
  have evs: "evs = map (decode_event (e_lib E)) ?rows"
    using GetEventsFromSeq_Ok [OF assms(6,4)] by (simp add: visible_from)
  have path: "map_of (initHTTPAPIServer E W a newID) ''/get_events'' = Some (getEvents E)" by (simp add: api_paths)
  have ok: "json_ok ?j" by (simp add: marshal_SubscribeMessage_def marshal_int_def parse_number_Itoa)
  have "decode_SubscribeMessage ?j = Inr q" using assms(3)
    by (simp add: decode_SubscribeMessage_def marshal_SubscribeMessage_def fill_struct_def same_name_def fill_int_marshal)
  then have run: "getEvents E (Inr (case Some ?j of None \<Rightarrow> [] | Some j \<Rightarrow> json_Marshal j)) e w =
      (Ok (respond (EventsResult evs) None), e, w')"
    using json_roundtrip(1) [OF ok] json_Marshal_nonempty [OF ok] assms(6) by (simp add: getEvents_def respond_with_def)
  have "unmarshal_list (NotificationWithSeq_UnmarshalJSON (e_lib E)) (map (marshal_event (e_lib E)) evs) =
      Inr (map client_event ?rows)"
    unfolding evs map_map using assms(5) generic_event_reads [OF assms(2)] by (intro unmarshal_list_map) auto
  moreover have "json_ok (marshal_result (e_lib E) (EventsResult evs))"
    using assms(5) by (auto simp: evs intro: generic_event_ok)
  ultimately show ?thesis unfolding client_GetEvents_def
    by (subst exchange [OF assms(1) path run]) (auto simp: respond_def received_def unmarshal_slice_def)
qed

end
