(* ===== verification/Runs.thy ===== *)
theory Runs
  imports Prelude
begin

text \<open>
  Systems whose runs come to an end: a step relation with an invariant, a set of final states and
  a weight. The contract is that a step lowers the weight and keeps the invariant, and that a state
  that is not final has a step. It is implemented by the shutdown of the process, by the closing of
  a websocket client and by a connection of the database proxy of the tests.
\<close>

locale ending_system =
  fixes step :: "'s \<Rightarrow> 's \<Rightarrow> bool" and ok :: "'s \<Rightarrow> bool" and final :: "'s \<Rightarrow> bool" and weight :: "'s \<Rightarrow> nat"
  assumes lighter: "step s t \<Longrightarrow> weight t < weight s"
    and keeps: "ok s \<Longrightarrow> step s t \<Longrightarrow> ok t"
    and progress: "ok s \<Longrightarrow> \<not> final s \<Longrightarrow> \<exists>t. step s t"
begin

lemma run_length: "(step ^^ n) s t \<Longrightarrow> n + weight t \<le> weight s"
proof (induction n arbitrary: t)
  case (Suc n)
  then obtain u where "(step ^^ n) s u" "step u t" by auto
  with Suc.IH [of u] lighter [of u t] show ?case by simp
qed simp

lemma run_keeps: "(step ^^ n) s t \<Longrightarrow> ok s \<Longrightarrow> ok t"
proof (induction n arbitrary: t)
  case (Suc n)
  then obtain u where "(step ^^ n) s u" "step u t" by auto
  with Suc show ?case using keeps by blast
qed simp

lemma steps_keep: "step\<^sup>*\<^sup>* s t \<Longrightarrow> ok s \<Longrightarrow> ok t"
  by (induction rule: rtranclp_induct) (auto intro: keeps)

lemma run_ends: "ok s \<Longrightarrow> \<exists>t. step\<^sup>*\<^sup>* s t \<and> ok t \<and> final t"
proof (induction "weight s" arbitrary: s rule: less_induct)
  case less
  show ?case
  proof (cases "final s")
    case False
    with progress less.prems obtain t where t: "step s t" by blast
    from less.hyps [OF lighter [OF t] keeps [OF less.prems t]] t show ?thesis
      by (meson converse_rtranclp_into_rtranclp)
  qed (use less.prems in blast)
qed

end

end
