(* ===== verification/Process.thy ===== *)
theory Process
  imports System Runs
begin

text \<open>
  The goroutines of the process (\<open>cmd/bitcoin-processing/main.go\<close>, \<open>componentrunner.go\<close>,
  \<open>api/server.go\<close>): the runner starts the three components, each in a goroutine of its own, and
  waits for all of them; another goroutine waits for a signal or for the end of any component and
  then stops everything. A step is one operation on a channel, on the wait group, or one call.

  What the components do while they run is the subject of the other theories; here it matters when
  their method \<open>Run\<close> returns.
\<close>

subsection \<open>Components\<close>

datatype component = APIServer | WalletUpdater | EventBroker

text \<open>There are three of them, so what holds of all components can be evaluated.\<close>

instantiation component :: enum
begin

definition enum_component :: "component list" where
  "enum_component = [APIServer, WalletUpdater, EventBroker]"

definition enum_all_component :: "(component \<Rightarrow> bool) \<Rightarrow> bool" where
  "enum_all_component P \<longleftrightarrow> P APIServer \<and> P WalletUpdater \<and> P EventBroker"

definition enum_ex_component :: "(component \<Rightarrow> bool) \<Rightarrow> bool" where
  "enum_ex_component P \<longleftrightarrow> P APIServer \<or> P WalletUpdater \<or> P EventBroker"

instance
proof
  show univ: "(UNIV :: component set) = set enum_class.enum"
    by (auto simp: enum_component_def intro: component.exhaust)
  show "distinct (enum_class.enum :: component list)" by (simp add: enum_component_def)
  show "enum_class.enum_all P \<longleftrightarrow> Ball (UNIV :: component set) P" for P
    unfolding enum_all_component_def by (metis UNIV_I component.exhaust)
  show "enum_class.enum_ex P \<longleftrightarrow> Bex (UNIV :: component set) P" for P
    unfolding enum_ex_component_def by (metis UNIV_I component.exhaust)
qed

end

text \<open>
  \<open>Server.Run\<close> returns what \<open>ListenAndServe\<close> returned, but nothing if that is
  \<open>http.ErrServerClosed\<close>.
\<close>

abbreviation ErrServerClosed :: go_error where
  "ErrServerClosed \<equiv> GoError ''http: Server closed''"

definition server_Run :: "go_error \<Rightarrow> go_error option" where
  "server_Run err = (if err = ErrServerClosed then None else Some err)"

text \<open>A turn in which the loop of the wallet or of the broker finds that a stop was requested.\<close>

fun stop_turn :: "turn \<Rightarrow> bool" where
  "stop_turn StopTurn = True"
| "stop_turn (Turn wk stop1 stop2) = (stop1 \<or> stop2)"

definition broker_stop_turn :: "broker_wakeup \<times> bool \<Rightarrow> bool" where
  "broker_stop_turn t \<longleftrightarrow> fst t = BrokerStop \<or> snd t"

text \<open>
  Before a stop is requested the loops do not return, except with an error: what a run does on
  some turns is only the first part of what it does on more.
\<close>

lemma mainLoop_body_continues:
  "\<forall>t \<in> set ts. \<not> stop_turn t \<Longrightarrow> mainLoop_body E W (ts @ us) = bindE (mainLoop_body E W ts) (\<lambda>_. mainLoop_body E W us)"
proof (induction ts)
  case (Cons t ts)
  then obtain wk where "t = Turn wk False False" by (cases t) auto
  with Cons show ?case
    by (auto simp: fun_eq_iff catchE_def bindE_def split: res.splits prod.splits)
qed (simp add: fun_eq_iff bindE_def returnE_def)

lemma mainLoop_returns_only_if_stopped:
  assumes "\<forall>t \<in> set ts. \<not> stop_turn t" "mainLoop E W ts w = (Ok (), w')"
  shows "mainLoop E W (ts @ us) w = mainLoop E W us w'"
proof -
  have "mainLoop_body E W ts w = (Ok (), w')"
    using assms(2) by (auto simp: mainLoop_def recoverE_def split: res.splits prod.splits)
  then show ?thesis by (simp add: mainLoop_def recoverE_def mainLoop_body_continues [OF assms(1)] bindE_def)
qed

lemma broker_mainLoop_returns_only_if_stopped:
  assumes "\<forall>t \<in> set ts. \<not> broker_stop_turn t" "broker_mainLoop E ts e w = (Ok (), e', w')"
  shows "broker_mainLoop E (ts @ us) e w = broker_mainLoop E us e' w'"
  using assms
proof (induction ts arbitrary: e w)
  case (Cons t ts)
  then show ?case
    by (cases t) (auto simp: broker_stop_turn_def split: res.splits prod.splits)
qed simp

subsection \<open>The state of the process\<close>

text \<open>
  A goroutine of the runner: \<open>Run\<close> is running; it has returned, and \<open>failed\<close> is set if there was an
  error; the channel of the component is closed; the wait group is told, and the goroutine ends.
\<close>

datatype run_state = NotStarted | Running | HasReturned | ClosedChannel | Finished

text \<open>The goroutine that shuts everything down: at its select, or with the calls of \<open>Stop\<close> that remain.\<close>

datatype stopper = Selecting | Stopping "component list"

record processingComponentRunner =
  wg :: nat
  failed :: bool

record process =
  runner :: processingComponentRunner
  to_run :: "component list"
  run_states :: "component \<Rightarrow> run_state"
  stopTriggers :: "component \<Rightarrow> bool"
  signals :: bool
  stopper_state :: stopper
  exit_status :: "nat option"

definition newProcessingComponentRunner :: processingComponentRunner where
  "newProcessingComponentRunner = \<lparr>wg = 0, failed = False\<rparr>"

definition main_process :: process where
  "main_process =
     \<lparr>runner = newProcessingComponentRunner, to_run = [APIServer, WalletUpdater, EventBroker],
      run_states = (\<lambda>_. NotStarted), stopTriggers = (\<lambda>_. False), signals = False, stopper_state = Selecting,
      exit_status = None\<rparr>"

definition runner_run :: "component \<Rightarrow> process \<Rightarrow> process" where
  "runner_run c p = p\<lparr>runner := (runner p)\<lparr>wg := wg (runner p) + 1\<rparr>, run_states := (run_states p)(c := Running)\<rparr>"

definition run_returns :: "component \<Rightarrow> go_error option \<Rightarrow> process \<Rightarrow> process" where
  "run_returns c err p =
     p\<lparr>runner := (case err of None \<Rightarrow> runner p | Some _ \<Rightarrow> (runner p)\<lparr>failed := True\<rparr>),
       run_states := (run_states p)(c := HasReturned)\<rparr>"

definition close_doneCh :: "component \<Rightarrow> process \<Rightarrow> process" where
  "close_doneCh c p = p\<lparr>run_states := (run_states p)(c := ClosedChannel)\<rparr>"

definition wg_Done :: "component \<Rightarrow> process \<Rightarrow> process" where
  "wg_Done c p = p\<lparr>runner := (runner p)\<lparr>wg := wg (runner p) - 1\<rparr>, run_states := (run_states p)(c := Finished)\<rparr>"

definition is_stopped :: "process \<Rightarrow> component \<Rightarrow> bool" where
  "is_stopped p c \<longleftrightarrow> run_states p c \<in> {ClosedChannel, Finished}"

definition stop_everything :: "component list" where
  "stop_everything = [WalletUpdater, EventBroker, APIServer]"

text \<open>
  \<open>Stop\<close> of a component closes its channel (closing it a second time would panic); \<open>Stop\<close> of the
  server calls \<open>Shutdown\<close>, after which \<open>ListenAndServe\<close> returns \<open>ErrServerClosed\<close>.
\<close>

definition component_Stop :: "component \<Rightarrow> process \<Rightarrow> process res" where
  "component_Stop c p =
     (if stopTriggers p c \<and> c \<noteq> APIServer then Panic ''close of closed channel''
      else Ok (p\<lparr>stopTriggers := (stopTriggers p)(c := True)\<rparr>))"

text \<open>\<open>log.Fatal\<close> ends the process with status 1, a panic with 2.\<close>

inductive pstep :: "process \<Rightarrow> process \<Rightarrow> bool" where
  run: "exit_status p = None \<Longrightarrow> to_run p = c # cs \<Longrightarrow> pstep p (runner_run c (p\<lparr>to_run := cs\<rparr>))"
| signal: "exit_status p = None \<Longrightarrow> \<not> signals p \<Longrightarrow> pstep p (p\<lparr>signals := True\<rparr>)"
| returned: "exit_status p = None \<Longrightarrow> run_states p c = Running \<Longrightarrow> err = None \<longrightarrow> stopTriggers p c \<Longrightarrow>
    pstep p (run_returns c err p)"
| panicked: "exit_status p = None \<Longrightarrow> run_states p c = Running \<Longrightarrow> pstep p (p\<lparr>exit_status := Some 2\<rparr>)"
| closed: "exit_status p = None \<Longrightarrow> run_states p c = HasReturned \<Longrightarrow> pstep p (close_doneCh c p)"
| finished: "exit_status p = None \<Longrightarrow> run_states p c = ClosedChannel \<Longrightarrow> pstep p (wg_Done c p)"
| woken: "exit_status p = None \<Longrightarrow> stopper_state p = Selecting \<Longrightarrow> (\<exists>c. is_stopped p c) \<or> signals p \<Longrightarrow>
    pstep p (p\<lparr>stopper_state := Stopping stop_everything\<rparr>)"
| stopped: "exit_status p = None \<Longrightarrow> stopper_state p = Stopping (c # cs) \<Longrightarrow> component_Stop c p = Ok p' \<Longrightarrow>
    pstep p (p'\<lparr>stopper_state := Stopping cs\<rparr>)"
| stop_panicked: "exit_status p = None \<Longrightarrow> stopper_state p = Stopping (c # cs) \<Longrightarrow> component_Stop c p = Panic m \<Longrightarrow>
    pstep p (p\<lparr>exit_status := Some 2\<rparr>)"
| exited: "exit_status p = None \<Longrightarrow> to_run p = [] \<Longrightarrow> wg (runner p) = 0 \<Longrightarrow>
    pstep p (p\<lparr>exit_status := Some (if failed (runner p) then 1 else 0)\<rparr>)"

subsection \<open>Invariant\<close>

abbreviation components :: "component list" where
  "components \<equiv> enum_class.enum"

fun active :: "run_state \<Rightarrow> bool" where
  "active Running = True"
| "active HasReturned = True"
| "active ClosedChannel = True"
| "active _ = False"

fun over :: "run_state \<Rightarrow> bool" where
  "over HasReturned = True"
| "over ClosedChannel = True"
| "over Finished = True"
| "over _ = False"

fun stop_state_ok :: "stopper \<Rightarrow> (component \<Rightarrow> bool) \<Rightarrow> bool" where
  "stop_state_ok Selecting st \<longleftrightarrow> (\<forall>c. \<not> st c)"
| "stop_state_ok (Stopping cs) st \<longleftrightarrow> suffix cs stop_everything \<and> (\<forall>c. st c \<longleftrightarrow> c \<notin> set cs)"

definition process_ok :: "process \<Rightarrow> bool" where
  "process_ok p \<longleftrightarrow>
     wg (runner p) = length (filter (active \<circ> run_states p) components) \<and>
     suffix (to_run p) components \<and> set (to_run p) = {c. run_states p c = NotStarted} \<and>
     stop_state_ok (stopper_state p) (stopTriggers p) \<and>
     (\<forall>c. over (run_states p c) \<longrightarrow> failed (runner p) \<or> stopTriggers p c) \<and>
     (stopper_state p \<noteq> Selecting \<longrightarrow> signals p \<or> failed (runner p)) \<and>
     (\<forall>n. exit_status p = Some n \<longrightarrow> n \<noteq> 2 \<longrightarrow>
        (\<forall>c. run_states p c = Finished) \<and> n = (if failed (runner p) then 1 else 0))"

lemma process_ok_main: "process_ok main_process"
  by (auto simp: process_ok_def main_process_def newProcessingComponentRunner_def enum_component_def split: component.splits)
    (metis component.exhaust)

lemma active_count:
  "length (filter (active \<circ> f(c := s)) components) + (if active (f c) then 1 else 0) =
     length (filter (active \<circ> f) components) + (if active s then 1 else 0)"
  by (cases c) (simp_all add: enum_component_def)

lemma in_stop_everything: "c \<in> set stop_everything"
  by (cases c) (simp_all add: stop_everything_def)

lemma suffix_tl: "suffix (x # xs) ys \<Longrightarrow> suffix xs ys"
  by (auto simp: suffix_def)

lemma distinct_suffix: "suffix xs ys \<Longrightarrow> distinct ys \<Longrightarrow> distinct xs"
  by (auto simp: suffix_def)

lemma woken_cause:
  assumes "process_ok p" "stopper_state p = Selecting" "(\<exists>c. is_stopped p c) \<or> signals p"
  shows "signals p \<or> failed (runner p)"
proof (cases "signals p")
  case False
  with assms(3) obtain c where "is_stopped p c" by blast
  then have "over (run_states p c)" by (auto simp: is_stopped_def)
  with assms(1,2) show ?thesis by (auto simp: process_ok_def)
qed simp

lemma all_finished:
  assumes "process_ok p" "to_run p = []" "wg (runner p) = 0"
  shows "run_states p c = Finished"
proof -
  have "\<not> active (run_states p c)" using assms by (simp add: process_ok_def filter_empty_conv in_enum)
  moreover have "run_states p c \<noteq> NotStarted" using assms by (auto simp: process_ok_def)
  ultimately show ?thesis by (cases "run_states p c") auto
qed

lemma pstep_ok:
  assumes "pstep p p'" "process_ok p"
  shows "process_ok p'"
  using assms
proof (induction rule: pstep.induct)
  case (run p c cs)
  then have s: "suffix (c # cs) components" by (simp add: process_ok_def)
  then have "c \<notin> set cs" using distinct_suffix [OF s] by (simp add: enum_component_def)
  moreover have "run_states p c = NotStarted" using run by (auto simp: process_ok_def)
  then have "\<not> active (run_states p c)" by simp
  ultimately show ?case using run suffix_tl [OF s] active_count [of "run_states p" c Running]
    by (auto simp: process_ok_def runner_run_def)
next
  case (returned p c err)
  then show ?case using active_count [of "run_states p" c HasReturned]
    by (cases err) (auto simp: process_ok_def run_returns_def)
next
  case (closed p c)
  then show ?case using active_count [of "run_states p" c ClosedChannel]
    by (auto simp: process_ok_def close_doneCh_def)
next
  case (finished p c)
  then show ?case using active_count [of "run_states p" c Finished]
    by (auto simp: process_ok_def wg_Done_def)
next
  case (woken p)
  then have "signals p \<or> failed (runner p)" by (intro woken_cause) auto
  with woken show ?case by (auto simp: process_ok_def in_stop_everything)
next
  case (stopped p c cs p')
  then have s: "suffix (c # cs) stop_everything" by (simp add: process_ok_def)
  then have "c \<notin> set cs" using distinct_suffix [OF s] by (simp add: stop_everything_def)
  with stopped suffix_tl [OF s] show ?case
    by (auto simp: process_ok_def component_Stop_def split: if_splits)
next
  case (exited p)
  then have "\<forall>c. run_states p c = Finished" by (blast intro: all_finished)
  with exited show ?case by (simp add: process_ok_def)
qed (auto simp: process_ok_def)

lemma reachable_ok: "pstep\<^sup>*\<^sup>* main_process p \<Longrightarrow> process_ok p"
  by (induction rule: rtranclp_induct) (auto intro: process_ok_main pstep_ok)

subsection \<open>Every step brings the process closer to its end\<close>

fun run_weight :: "run_state \<Rightarrow> nat" where
  "run_weight Running = 3"
| "run_weight HasReturned = 2"
| "run_weight ClosedChannel = 1"
| "run_weight _ = 0"

fun stopper_weight :: "stopper \<Rightarrow> nat" where
  "stopper_weight Selecting = 4"
| "stopper_weight (Stopping cs) = length cs"

definition weight :: "process \<Rightarrow> nat" where
  "weight p = 4 * length (to_run p) + sum_list (map (run_weight \<circ> run_states p) components) +
     (if signals p then 0 else 1) + stopper_weight (stopper_state p) + (if exit_status p = None then 1 else 0)"

lemma run_weights:
  "sum_list (map (run_weight \<circ> f(c := s)) components) + run_weight (f c) =
     sum_list (map (run_weight \<circ> f) components) + run_weight s"
  by (cases c) (simp_all add: enum_component_def)

lemma pstep_weight: "pstep p p' \<Longrightarrow> weight p' < weight p"
proof (induction rule: pstep.induct)
  case (run p c cs)
  then show ?case using run_weights [of "run_states p" c Running] by (auto simp: weight_def runner_run_def)
next
  case (returned p c err)
  then show ?case using run_weights [of "run_states p" c HasReturned] by (auto simp: weight_def run_returns_def)
next
  case (closed p c)
  then show ?case using run_weights [of "run_states p" c ClosedChannel] by (auto simp: weight_def close_doneCh_def)
next
  case (finished p c)
  then show ?case using run_weights [of "run_states p" c Finished] by (auto simp: weight_def wg_Done_def)
qed (auto simp: weight_def component_Stop_def stop_everything_def split: if_splits)

text \<open>Something has happened that ends the process: a signal, or a component returned.\<close>

definition ending :: "process \<Rightarrow> bool" where
  "ending p \<longleftrightarrow> signals p \<or> (\<exists>c. over (run_states p c))"

lemma ending_step:
  assumes "pstep p p'" "process_ok p" "ending p"
  shows "ending p'"
  using assms
proof (induction rule: pstep.induct)
  case (run p c cs)
  then have "run_states p c = NotStarted" by (auto simp: process_ok_def)
  then have "\<not> over (run_states p c)" by simp
  with run show ?case by (auto simp: ending_def runner_run_def)
next
  case (stopped p c cs p')
  then show ?case by (auto simp: ending_def component_Stop_def split: if_splits)
qed (auto simp: ending_def run_returns_def close_doneCh_def wg_Done_def)

text \<open>Progress, by what the goroutines are waiting for. First the goroutines of the runner.\<close>

lemma runner_progress:
  assumes "exit_status p = None" "to_run p \<noteq> [] \<or> (\<exists>c. run_states p c \<in> {HasReturned, ClosedChannel})"
  shows "\<exists>p'. pstep p p' \<and> exit_status p' \<noteq> Some 2"
proof (cases "to_run p")
  case (Cons c cs)
  from pstep.run [OF assms(1) this] assms(1) show ?thesis by (intro exI conjI) (auto simp: runner_run_def)
next
  case Nil
  with assms(2) obtain c where "run_states p c = HasReturned \<or> run_states p c = ClosedChannel" by blast
  with pstep.closed [OF assms(1)] pstep.finished [OF assms(1)] assms(1) show ?thesis
    by (fastforce simp: close_doneCh_def wg_Done_def)
qed

text \<open>Then the goroutine that stops the others, at its select and at a call of \<open>Stop\<close>.\<close>

lemma stopper_progress:
  assumes "process_ok p" "ending p" "exit_status p = None" "\<nexists>c. run_states p c \<in> {HasReturned, ClosedChannel}"
    and "stopper_state p \<noteq> Stopping []"
  shows "\<exists>p'. pstep p p' \<and> exit_status p' \<noteq> Some 2"
proof (cases "stopper_state p")
  case Selecting
  have "(\<exists>c. is_stopped p c) \<or> signals p"
  proof (cases "signals p")
    case False
    with assms(2) obtain c where "over (run_states p c)" by (auto simp: ending_def)
    then have "is_stopped p c" using assms(4) by (cases "run_states p c") (auto simp: is_stopped_def)
    then show ?thesis by blast
  qed simp
  from pstep.woken [OF assms(3) Selecting this] assms(3) show ?thesis by (intro exI conjI) auto
next
  case (Stopping cs)
  with assms(5) obtain c cs' where cs: "stopper_state p = Stopping (c # cs')" by (cases cs) auto
  with assms(1) have "component_Stop c p = Ok (p\<lparr>stopTriggers := (stopTriggers p)(c := True)\<rparr>)"
    by (simp add: process_ok_def component_Stop_def)
  from pstep.stopped [OF assms(3) cs this] assms(3) show ?thesis by (intro exI conjI) auto
qed

text \<open>At last the components that were stopped, and the function \<open>main\<close>.\<close>

lemma main_progress:
  assumes "process_ok p" "exit_status p = None" "to_run p = []" "\<nexists>c. run_states p c \<in> {HasReturned, ClosedChannel}"
    and "stopper_state p = Stopping []"
  shows "\<exists>p'. pstep p p' \<and> exit_status p' \<noteq> Some 2"
proof (cases "\<exists>c. run_states p c = Running")
  case True
  then obtain c where "run_states p c = Running" by blast
  moreover have "stopTriggers p c" using assms(1,5) by (simp add: process_ok_def)
  ultimately have "pstep p (run_returns c None p)" by (intro pstep.returned assms(2)) simp_all
  with assms(2) show ?thesis by (intro exI conjI) (auto simp: run_returns_def)
next
  case False
  have "\<not> active (run_states p c)" for c
    using assms(4) False by (cases "run_states p c") auto
  then have "wg (runner p) = 0" using assms(1) by (simp add: process_ok_def)
  let ?q = "p\<lparr>exit_status := Some (if failed (runner p) then 1 else 0)\<rparr>"
  have "pstep p ?q" by (rule pstep.exited [OF assms(2,3) \<open>wg (runner p) = 0\<close>])
  moreover have "exit_status ?q \<noteq> Some 2" by simp
  ultimately show ?thesis by blast
qed

lemma progress:
  assumes "process_ok p" "ending p" "exit_status p = None"
  shows "\<exists>p'. pstep p p' \<and> exit_status p' \<noteq> Some 2"
  using runner_progress [OF assms(3)] stopper_progress [OF assms] main_progress [OF assms(1,3)] by blast

interpretation shutdown: ending_system pstep "\<lambda>p. process_ok p \<and> ending p" "\<lambda>p. exit_status p \<noteq> None" weight
  by unfold_locales (auto intro: pstep_weight pstep_ok ending_step dest: progress)

text \<open>The process can end by itself, without a panic.\<close>

interpretation regular: ending_system "\<lambda>p q. pstep p q \<and> exit_status q \<noteq> Some 2"
  "\<lambda>p. process_ok p \<and> ending p \<and> exit_status p \<noteq> Some 2" "\<lambda>p. exit_status p \<noteq> None" weight
  by unfold_locales (auto intro: pstep_weight pstep_ok ending_step dest: progress)

lemma shutdown_ends:
  assumes "process_ok p" "ending p" "exit_status p \<noteq> Some 2"
  shows "\<exists>q n. pstep\<^sup>*\<^sup>* p q \<and> exit_status q = Some n \<and> n \<noteq> 2"
proof -
  from regular.run_ends assms obtain q where
    q: "(\<lambda>p q. pstep p q \<and> exit_status q \<noteq> Some 2)\<^sup>*\<^sup>* p q" "exit_status q \<noteq> Some 2" "exit_status q \<noteq> None"
    by blast
  from q(1) have "pstep\<^sup>*\<^sup>* p q" by (rule rtranclp_mono [THEN predicate2D, rotated]) auto
  with q show ?thesis by (cases "exit_status q") auto
qed



text \<open>A signal while everything runs: the components are stopped and the process ends with status 0.\<close>

definition all_running :: process where
  "all_running = main_process\<lparr>runner := \<lparr>wg = 3, failed = False\<rparr>, to_run := [],
     run_states := ((\<lambda>_. NotStarted)(APIServer := Running, WalletUpdater := Running))(EventBroker := Running)\<rparr>"

lemma all_running_reached: "pstep\<^sup>*\<^sup>* main_process (all_running\<lparr>signals := True\<rparr>)"
proof -
  have "pstep main_process (runner_run APIServer (main_process\<lparr>to_run := [WalletUpdater, EventBroker]\<rparr>))"
    (is "pstep _ ?p1") by (rule pstep.run) (simp_all add: main_process_def)
  also have "pstep\<^sup>*\<^sup>* ?p1 (runner_run WalletUpdater (?p1\<lparr>to_run := [EventBroker]\<rparr>))" (is "pstep\<^sup>*\<^sup>* _ ?p2")
    by (rule r_into_rtranclp, rule pstep.run) (simp_all add: main_process_def runner_run_def)
  also have "pstep\<^sup>*\<^sup>* ?p2 (runner_run EventBroker (?p2\<lparr>to_run := []\<rparr>))" (is "pstep\<^sup>*\<^sup>* _ ?p3")
    by (rule r_into_rtranclp, rule pstep.run) (simp_all add: main_process_def runner_run_def)
  also have "?p3 = all_running"
    by (simp add: all_running_def main_process_def runner_run_def newProcessingComponentRunner_def)
  also have "pstep\<^sup>*\<^sup>* all_running (all_running\<lparr>signals := True\<rparr>)"
    by (rule r_into_rtranclp, rule pstep.signal) (simp_all add: all_running_def main_process_def)
  finally show ?thesis .
qed


text \<open>
  C26: The exit status tells what happened. In every reachable state, if the process has ended
  other than by a panic then all three components have finished; its status is 0 only if a signal
  asked for the end, every component was stopped and none reported an error, and 1 otherwise. The
  shutdown itself never closes a channel twice.
\<close>

theorem process_exit_status:
  assumes "pstep\<^sup>*\<^sup>* main_process p"
  shows "(\<forall>n. exit_status p = Some n \<longrightarrow> n \<noteq> 2 \<longrightarrow> (\<forall>c. run_states p c = Finished) \<and>
      (if failed (runner p) then n = 1 else n = 0 \<and> signals p \<and> (\<forall>c. stopTriggers p c))) \<and>
    (\<forall>c cs m. stopper_state p = Stopping (c # cs) \<longrightarrow> component_Stop c p \<noteq> Panic m)"
proof -
  note ok = reachable_ok [OF assms, unfolded process_ok_def]
  have "signals p \<and> (\<forall>c. stopTriggers p c)" if "\<forall>c. run_states p c = Finished" "\<not> failed (runner p)"
  proof -
    have "\<forall>c. stopTriggers p c" using ok that by simp
    then have "stopper_state p \<noteq> Selecting" using ok by auto
    with ok that \<open>\<forall>c. stopTriggers p c\<close> show ?thesis by blast
  qed
  moreover have "component_Stop c p \<noteq> Panic m" if "stopper_state p = Stopping (c # cs)" for c cs m
    using ok that by (auto simp: component_Stop_def)
  ultimately show ?thesis using ok by auto
qed

theorem process_exit_status_witness:
  "\<exists>p. pstep\<^sup>*\<^sup>* main_process p \<and> exit_status p \<in> {Some 0, Some 1} \<and> (\<forall>c. run_states p c = Finished)"
proof -
  have "ending (all_running\<lparr>signals := True\<rparr>)" by (simp add: ending_def)
  from shutdown_ends [OF reachable_ok [OF all_running_reached] this] all_running_reached
  have "\<exists>q n. pstep\<^sup>*\<^sup>* main_process q \<and> exit_status q = Some n \<and> n \<noteq> 2"
    by (auto simp: all_running_def main_process_def dest: rtranclp_trans)
  then obtain p n where
    p: "pstep\<^sup>*\<^sup>* main_process p" "exit_status p = Some n" "n \<noteq> 2" by blast
  with process_exit_status [OF p(1)] show ?thesis by (intro exI [of _ p]) (auto split: if_splits)
qed

end
