(* ===== verification/Settings.thy ===== *)
theory Settings
  imports Process
begin

text \<open>
  Reading the settings and building the parts of the process from them (\<open>settings/\<close>,
  \<open>storage/storage.go\<close>, \<open>bitcoin/nodeapi/rpc.go\<close>, \<open>events/broker.go\<close>, \<open>wallet/wallet.go\<close>,
  \<open>api/server.go\<close>, \<open>cmd/bitcoin-processing/main.go\<close>).

  The package \<open>viper\<close> is an argument (record \<open>viper_api\<close>); what the program relies on, the
  precedence of its sources, is \<open>viper_ok\<close>. \<open>log.Fatalf\<close> ends the process, like a panic that
  nobody recovers.
\<close>

subsection \<open>Viper\<close>

datatype setting_value = StringV string | IntV int | FloatV string | BoolV bool

record 'v viper_api =
  viper_New :: 'v
  SetConfigFile :: "string \<Rightarrow> 'v \<Rightarrow> 'v"
  AddConfigPath :: "string \<Rightarrow> 'v \<Rightarrow> 'v"
  SetConfigName :: "string \<Rightarrow> 'v \<Rightarrow> 'v"
  ReadInConfig :: "'v \<Rightarrow> go_error option \<times> 'v"
  BindPFlag :: "string \<Rightarrow> string \<Rightarrow> 'v \<Rightarrow> 'v"
  SetDefault :: "string \<Rightarrow> setting_value \<Rightarrow> 'v \<Rightarrow> 'v"
  viper_GetString :: "'v \<Rightarrow> string \<Rightarrow> string"
  viper_GetInt :: "'v \<Rightarrow> string \<Rightarrow> int"
  viper_GetInt64 :: "'v \<Rightarrow> string \<Rightarrow> int"
  viper_GetBool :: "'v \<Rightarrow> string \<Rightarrow> bool"

text \<open>
  The documented behaviour: a value comes from the flag bound to the key if the flag was given,
  else from the configuration file, else from the default, else from the default of the bound flag.
  \<open>flags\<close> tells of each flag whether it was given, and its value, \<open>dflt\<close> its default; \<open>text\<close> is the
  conversion of a value to a string.
\<close>

record viper_state =
  vs_bound :: "string \<rightharpoonup> string"
  vs_default :: "string \<rightharpoonup> setting_value"
  vs_config :: "string \<rightharpoonup> setting_value"

definition lookup :: "(string \<rightharpoonup> string) \<Rightarrow> (string \<Rightarrow> string) \<Rightarrow> viper_state \<Rightarrow> string \<Rightarrow> setting_value option" where
  "lookup flags dflt s key =
     (case Option.bind (vs_bound s key) flags of
        Some x \<Rightarrow> Some (StringV x)
      | None \<Rightarrow>
          (case vs_config s key of
             Some v \<Rightarrow> Some v
           | None \<Rightarrow>
               (case vs_default s key of
                  Some v \<Rightarrow> Some v
                | None \<Rightarrow> map_option (\<lambda>x. StringV (dflt x)) (vs_bound s key))))"

definition viper_ok ::
  "'v viper_api \<Rightarrow> ('v \<Rightarrow> viper_state) \<Rightarrow> (string \<rightharpoonup> string) \<Rightarrow> (string \<Rightarrow> string) \<Rightarrow> (setting_value \<Rightarrow> string) \<Rightarrow> bool" where
  "viper_ok V view flags dflt text \<longleftrightarrow>
     (\<forall>k x v. view (BindPFlag V k x v) = (view v)\<lparr>vs_bound := (vs_bound (view v))(k \<mapsto> x)\<rparr>) \<and>
     (\<forall>k d v. view (SetDefault V k d v) = (view v)\<lparr>vs_default := (vs_default (view v))(k \<mapsto> d)\<rparr>) \<and>
     (\<forall>k v. viper_GetString V v k = (case lookup flags dflt (view v) k of None \<Rightarrow> [] | Some x \<Rightarrow> text x)) \<and>
     (\<forall>s. text (StringV s) = s)"

subsection \<open>Settings\<close>

text \<open>The fee rate is the default as a floating-point number of bitcoins, computed by \<open>btcutil\<close>.\<close>

definition initConfig :: "'v viper_api \<Rightarrow> string \<Rightarrow> 'v \<Rightarrow> 'v" where
  "initConfig V MinimalFeeRateBTC v0 =
     (let v1 = BindPFlag V ''transaction.callback.url'' ''transaction-callback-url'' v0;
          v2 = BindPFlag V ''api.http.address'' ''http-address'' v1;
          v3 = BindPFlag V ''storage.type'' ''storage-type'' v2;
          v4 = SetDefault V ''http.address'' (StringV ''127.0.0.1:8000'') v3;
          v5 = SetDefault V ''bitcoin.node.tls'' (BoolV False) v4;
          v6 = SetDefault V ''bitcoin.poll_interval'' (IntV 3000) v5;
          v7 = SetDefault V ''transaction.max_confirmations'' (IntV 6) v6;
          v8 = SetDefault V ''wallet.min_withdraw'' (FloatV ''0.000006'') v7;
          v9 = SetDefault V ''wallet.min_fee.per_kb'' (FloatV MinimalFeeRateBTC) v8;
          v10 = SetDefault V ''wallet.min_fee.fixed'' (FloatV ''0.000005'') v9;
          v11 = SetDefault V ''wallet.min_withdraw_without_manual_confirmation'' (FloatV ''0.0'') v10;
          v12 = SetDefault V ''transaction.callback.backoff'' (IntV 100) v11
      in SetDefault V ''wallet.allow_withdrawal_without_id'' (BoolV True) v12)"

definition NewSettings :: "'v viper_api \<Rightarrow> string \<Rightarrow> string \<Rightarrow> 'v \<times> go_error option" where
  "NewSettings V MinimalFeeRateBTC cfgFile =
     (let v0 = viper_New V;
          v1 = (if cfgFile \<noteq> [] then SetConfigFile V cfgFile v0
                else SetConfigName V ''config'' (AddConfigPath V ''.'' (AddConfigPath V ''/etc/bitcoin-processing'' v0)))
      in case ReadInConfig V v1 of
           (Some err, v2) \<Rightarrow> (v2, Some err)
         | (None, v2) \<Rightarrow> (initConfig V MinimalFeeRateBTC v2, None))"

definition ReadSettingsAndRun :: "'v viper_api \<Rightarrow> string \<Rightarrow> string \<Rightarrow> ('v \<Rightarrow> 'a res) \<Rightarrow> 'a res" where
  "ReadSettingsAndRun V MinimalFeeRateBTC cfgFile funcToRun =
     (case NewSettings V MinimalFeeRateBTC cfgFile of
        (_, Some _) \<Rightarrow> Panic ''Can't read config''
      | (s, None) \<Rightarrow> funcToRun s)"

definition GetString :: "'v viper_api \<Rightarrow> 'v \<Rightarrow> string \<Rightarrow> string" where
  "GetString V s key = viper_GetString V s key"

definition GetInt :: "'v viper_api \<Rightarrow> 'v \<Rightarrow> string \<Rightarrow> int" where
  "GetInt V s key = viper_GetInt V s key"

definition GetInt64 :: "'v viper_api \<Rightarrow> 'v \<Rightarrow> string \<Rightarrow> int" where
  "GetInt64 V s key = viper_GetInt64 V s key"

definition GetBool :: "'v viper_api \<Rightarrow> 'v \<Rightarrow> string \<Rightarrow> bool" where
  "GetBool V s key = viper_GetBool V s key"

text \<open>\<open>parse\<close> is \<open>url.ParseRequestURI\<close>: the error, if any.\<close>

definition GetURL :: "(string \<Rightarrow> go_error option) \<Rightarrow> 'v viper_api \<Rightarrow> 'v \<Rightarrow> string \<Rightarrow> string res" where
  "GetURL parse V s key =
     (let urlValue = viper_GetString V s key
      in case parse urlValue of
           Some _ \<Rightarrow> Panic (key @ '' should be set to a valid URL'')
         | None \<Rightarrow> Ok urlValue)"

definition GetStringMandatory :: "'v viper_api \<Rightarrow> 'v \<Rightarrow> string \<Rightarrow> string res" where
  "GetStringMandatory V s key =
     (let value = viper_GetString V s key
      in if value = [] then Panic (''Error: setting '' @ key @ '' is required'') else Ok value)"

definition GetBTCAmount :: "'d decimal_api \<Rightarrow> 'v viper_api \<Rightarrow> 'v \<Rightarrow> string \<Rightarrow> BTCAmount res" where
  "GetBTCAmount D V s key =
     (case BTCAmountFromStringedFloat D (viper_GetString V s key) of
        Inl _ \<Rightarrow> Panic (''Error converting value of setting '' @ key @ '' to bitcoin amount'')
      | Inr value \<Rightarrow> Ok value)"

subsection \<open>The parts of the process\<close>

fun bind_res :: "'a res \<Rightarrow> ('a \<Rightarrow> 'b res) \<Rightarrow> 'b res" where
  "bind_res (Ok x) f = f x"
| "bind_res (Error e) f = Error e"
| "bind_res (Panic p) f = Panic p"

record bitcoinNodeRPCAPI =
  node_address :: string
  node_nodeURL :: string
  node_user :: string
  node_pass :: string
  node_useTLS :: bool

text \<open>\<open>connect\<close> is the connection through \<open>rpcclient\<close>, up to the answer to \<open>getblockcount\<close>.\<close>

definition NewNodeAPI ::
  "(string \<Rightarrow> string \<Rightarrow> string \<Rightarrow> bool \<Rightarrow> go_error + int) \<Rightarrow> 'v viper_api \<Rightarrow> 'v \<Rightarrow> bitcoinNodeRPCAPI res" where
  "NewNodeAPI connect V s =
     bind_res (GetStringMandatory V s ''bitcoin.node.address'') (\<lambda>host.
     bind_res (GetStringMandatory V s ''bitcoin.node.user'') (\<lambda>user.
     bind_res (GetStringMandatory V s ''bitcoin.node.password'') (\<lambda>pass.
     let useTLS = GetBool V s ''bitcoin.node.tls''
     in case connect host user pass (\<not> useTLS) of
          Inl _ \<Rightarrow> Panic ''connection to the node''
        | Inr blockCount \<Rightarrow>
            Ok \<lparr>node_address = host, node_nodeURL = (if useTLS then ''https'' else ''http'') @ ''://'' @ host @ ''/'',
                node_user = user, node_pass = pass, node_useTLS = useTLS\<rparr>)))"

datatype storage_kind = InMemory | Postgres string

text \<open>\<open>reach\<close> is \<open>sql.Open\<close> with \<open>Ping\<close>: the error, if any.\<close>

definition storage_Open :: "(string \<Rightarrow> go_error option) \<Rightarrow> 'v viper_api \<Rightarrow> 'v \<Rightarrow> storage_kind res" where
  "storage_Open reach V s =
     bind_res (GetStringMandatory V s ''storage.type'') (\<lambda>storageType.
       if storageType = ''memory'' then Ok InMemory
       else if storageType = ''postgres'' then
         bind_res (GetStringMandatory V s ''storage.dsn'') (\<lambda>dsn.
           case reach dsn of Some _ \<Rightarrow> Panic ''connection to the database'' | None \<Rightarrow> Ok (Postgres dsn))
       else Panic (''Error: unsupported storage type '' @ storageType))"

text \<open>The broker with the callback URL that \<open>e_Post\<close> stands for.\<close>

definition NewEventBroker_settings ::
  "(string \<Rightarrow> go_error option) \<Rightarrow> 'v viper_api \<Rightarrow> 'v \<Rightarrow> (string \<times> eventBrokerData) res" where
  "NewEventBroker_settings parse V s =
     bind_res (GetURL parse V s ''transaction.callback.url'') (\<lambda>callbackURL.
       Ok (callbackURL, NewEventBroker (GetInt V s ''transaction.callback.backoff'')))"

definition NewWallet :: "'d decimal_api \<Rightarrow> 'v viper_api \<Rightarrow> 'v \<Rightarrow> walletData res" where
  "NewWallet D V s =
     (let maxConf = GetInt V s ''transaction.max_confirmations''
      in bind_res (GetBTCAmount D V s ''wallet.min_withdraw_without_manual_confirmation'') (\<lambda>withoutConfirmation.
         bind_res (GetBTCAmount D V s ''wallet.min_withdraw'') (\<lambda>withdraw.
         bind_res (GetBTCAmount D V s ''wallet.min_fee.per_kb'') (\<lambda>perKb.
         bind_res (GetBTCAmount D V s ''wallet.min_fee.fixed'') (\<lambda>fixed.
           Ok \<lparr>hotWalletAddress = [], coldWalletAddress = [], minWithdraw = withdraw, minFeePerKb = perKb,
               minFeeFixed = fixed, minWithdrawWithoutManualConfirmation = withoutConfirmation,
               maxConfirmations = maxConf\<rparr>)))))"

record Server =
  server_listenAddress :: string
  server_allowWithdrawalWithoutID :: bool

record service =
  svc_nodeAPI :: bitcoinNodeRPCAPI
  svc_storage :: storage_kind
  svc_callbackURL :: string
  svc_broker :: eventBrokerData
  svc_wallet :: walletData
  svc_server :: Server

text \<open>The function \<open>main\<close> up to the checks.\<close>

definition main_setup ::
  "(string \<Rightarrow> string \<Rightarrow> string \<Rightarrow> bool \<Rightarrow> go_error + int) \<Rightarrow> (string \<Rightarrow> go_error option) \<Rightarrow> (string \<Rightarrow> go_error option) \<Rightarrow>
   'd decimal_api \<Rightarrow> 'v viper_api \<Rightarrow> 'v \<Rightarrow> service res" where
  "main_setup connect reach parse D V s =
     bind_res (NewNodeAPI connect V s) (\<lambda>nodeAPI.
     bind_res (storage_Open reach V s) (\<lambda>db.
     bind_res (NewEventBroker_settings parse V s) (\<lambda>(callbackURL, eventBroker).
     bind_res (NewWallet D V s) (\<lambda>bitcoinWallet.
       Ok \<lparr>svc_nodeAPI = nodeAPI, svc_storage = db, svc_callbackURL = callbackURL, svc_broker = eventBroker,
           svc_wallet = bitcoinWallet,
           svc_server = \<lparr>server_listenAddress = GetString V s ''api.http.address'',
             server_allowWithdrawalWithoutID = GetBool V s ''wallet.allow_withdrawal_without_id''\<rparr>\<rparr>))))"


subsection \<open>What the settings must hold\<close>

lemma bind_res_Ok: "bind_res r f = Ok y \<longleftrightarrow> (\<exists>x. r = Ok x \<and> f x = Ok y)"
  by (cases r) simp_all

lemma GetStringMandatory_Ok: "GetStringMandatory V s key = Ok x \<longleftrightarrow> x = GetString V s key \<and> x \<noteq> []"
  by (auto simp: GetStringMandatory_def GetString_def Let_def)

lemma GetURL_Ok: "GetURL parse V s key = Ok x \<longleftrightarrow> x = GetString V s key \<and> parse x = None"
  by (auto simp: GetURL_def GetString_def Let_def split: option.splits)

lemma GetBTCAmount_Ok: "GetBTCAmount D V s key = Ok a \<longleftrightarrow> BTCAmountFromStringedFloat D (GetString V s key) = Inr a"
  by (auto simp: GetBTCAmount_def GetString_def split: sum.splits)

lemmas setup_Ok = bind_res_Ok GetStringMandatory_Ok GetURL_Ok GetBTCAmount_Ok

text \<open>
  The process gets to its start-up checks only with complete settings: node, user and password
  given, a known storage that was reached, a valid callback URL, and limits that are the amounts
  configured.
\<close>

lemma setup_complete:
  assumes "main_setup connect reach parse D V s = Ok svc"
  shows "GetString V s ''bitcoin.node.address'' \<noteq> []" "GetString V s ''bitcoin.node.user'' \<noteq> []"
    "GetString V s ''bitcoin.node.password'' \<noteq> []"
    "svc_storage svc = InMemory \<or> (\<exists>dsn. svc_storage svc = Postgres dsn \<and> dsn \<noteq> [] \<and> reach dsn = None)"
    "parse (svc_callbackURL svc) = None"
    "BTCAmountFromStringedFloat D (GetString V s ''wallet.min_withdraw'') = Inr (minWithdraw (svc_wallet svc))"
    "BTCAmountFromStringedFloat D (GetString V s ''wallet.min_fee.fixed'') = Inr (minFeeFixed (svc_wallet svc))"
    "BTCAmountFromStringedFloat D (GetString V s ''wallet.min_fee.per_kb'') = Inr (minFeePerKb (svc_wallet svc))"
proof -
  from assms obtain nodeAPI db callbackURL e W where
    n: "NewNodeAPI connect V s = Ok nodeAPI" and d: "storage_Open reach V s = Ok db" and
    b: "NewEventBroker_settings parse V s = Ok (callbackURL, e)" and w: "NewWallet D V s = Ok W" and
    svc: "svc_storage svc = db" "svc_callbackURL svc = callbackURL" "svc_wallet svc = W"
    by (auto simp: main_setup_def bind_res_Ok split: prod.splits)
  from n show "GetString V s ''bitcoin.node.address'' \<noteq> []" "GetString V s ''bitcoin.node.user'' \<noteq> []"
    "GetString V s ''bitcoin.node.password'' \<noteq> []"
    by (auto simp: NewNodeAPI_def setup_Ok)
  from d have "db = InMemory \<or> (\<exists>dsn. db = Postgres dsn \<and> dsn \<noteq> [] \<and> reach dsn = None)"
    by (auto simp: storage_Open_def setup_Ok split: if_splits option.splits)
  with svc(1) show "svc_storage svc = InMemory \<or> (\<exists>dsn. svc_storage svc = Postgres dsn \<and> dsn \<noteq> [] \<and> reach dsn = None)"
    by simp
  from b svc(2) show "parse (svc_callbackURL svc) = None" by (auto simp: NewEventBroker_settings_def setup_Ok)
  show
    "BTCAmountFromStringedFloat D (GetString V s ''wallet.min_withdraw'') = Inr (minWithdraw (svc_wallet svc))"
    "BTCAmountFromStringedFloat D (GetString V s ''wallet.min_fee.fixed'') = Inr (minFeeFixed (svc_wallet svc))"
    "BTCAmountFromStringedFloat D (GetString V s ''wallet.min_fee.per_kb'') = Inr (minFeePerKb (svc_wallet svc))"
    unfolding svc using w by (auto simp: NewWallet_def setup_Ok Let_def)
qed

text \<open>
  The default of the listen address has no effect: it is set for another key than the one that is
  read. Without the flag and without the setting the server listens on an empty address.
\<close>

lemma listen_address_has_no_default:
  assumes "viper_ok V view flags dflt text" "NewSettings V rate cfgFile = (s, None)"
    and "flags ''http-address'' = None" "dflt ''http-address'' = []" "vs_config (view s) ''api.http.address'' = None"
    and "vs_default (view (snd (ReadInConfig V (if cfgFile \<noteq> [] then SetConfigFile V cfgFile (viper_New V)
      else SetConfigName V ''config'' (AddConfigPath V ''.'' (AddConfigPath V ''/etc/bitcoin-processing'' (viper_New V)))))))
        ''api.http.address'' = None"
  shows "GetString V s ''api.http.address'' = []"
proof -
  let ?v = "snd (ReadInConfig V (if cfgFile \<noteq> [] then SetConfigFile V cfgFile (viper_New V)
      else SetConfigName V ''config'' (AddConfigPath V ''.'' (AddConfigPath V ''/etc/bitcoin-processing'' (viper_New V)))))"
  from assms(2) have s: "s = initConfig V rate ?v"
    by (auto simp: NewSettings_def Let_def split: prod.splits option.splits)
  from assms(1) have view: "view (BindPFlag V k x v) = (view v)\<lparr>vs_bound := (vs_bound (view v))(k \<mapsto> x)\<rparr>"
    "view (SetDefault V k d v) = (view v)\<lparr>vs_default := (vs_default (view v))(k \<mapsto> d)\<rparr>" for k x d v
    by (simp_all add: viper_ok_def)
  have "vs_default (view s) ''api.http.address'' = None" using assms(6) by (simp add: s initConfig_def Let_def view)
  moreover have "vs_bound (view s) ''api.http.address'' = Some ''http-address''" by (simp add: s initConfig_def Let_def view)
  ultimately have "lookup flags dflt (view s) ''api.http.address'' = Some (StringV [])"
    using assms(3-5) by (simp add: lookup_def)
  then show ?thesis using assms(1) by (simp add: GetString_def viper_ok_def)
qed

end
