(* ===== verification/Pretty.thy ===== *)
theory Pretty
  imports Encoding
begin

text \<open>
  Output for people (\<open>util/prettyprint.go\<close>): \<open>json.MarshalIndent\<close> of \<open>encoding/json\<close>, which puts
  each part of an array or an object on a line of its own, and the two functions that print with
  it. What was printed is still the JSON text of the value.

  The argument of \<open>PrettyPrint\<close> is what the marshalling methods of the object give; the state is
  what was written to the standard output.
\<close>

definition newline :: "string \<Rightarrow> string \<Rightarrow> nat \<Rightarrow> string" where
  "newline prefix indent d = CHR 0x0A # prefix @ concat (replicate d indent)"

definition json_MarshalIndent :: "string \<Rightarrow> string \<Rightarrow> json \<Rightarrow> string" where
  "json_MarshalIndent prefix indent j = json_text (newline prefix indent) '' '' 0 j"

definition PrettyPrint :: "go_error + json \<Rightarrow> (string, unit) call" where
  "PrettyPrint obj out =
     (case obj of
        Inl err \<Rightarrow> (Error err, out)
      | Inr j \<Rightarrow> (Ok (), out @ json_MarshalIndent [] ''    '' j @ [CHR 0x0A]))"

definition MustPrettyPrint :: "go_error + json \<Rightarrow> (string, unit) call" where
  "MustPrettyPrint obj out =
     (case PrettyPrint obj out of
        (Error err, out') \<Rightarrow> (Panic ''MustPrettyPrint'', out')
      | (r, out') \<Rightarrow> (r, out'))"

subsection \<open>What was printed\<close>

interpretation indented: json_layout "newline [] ''    ''" "'' ''"
  by unfold_locales (auto simp: newline_def blank_def)

lemma json_MarshalIndent_reads:
  "json_ok j \<Longrightarrow> json_Unmarshal (json_MarshalIndent [] ''    '' j @ [CHR 0x0A]) = Inr j"
  using indented.text_reads_back [of j 0]
  by (simp add: json_MarshalIndent_def json_Unmarshal_def reads_back_def ends_def skip_ws_def)

text \<open>The indented text and the compact one read as the same value.\<close>

lemma MarshalIndent_Marshal:
  "json_ok j \<Longrightarrow> json_Unmarshal (json_MarshalIndent [] ''    '' j) = json_Unmarshal (json_Marshal j)"
  by (simp add: json_MarshalIndent_def indented.text_reads json_roundtrip)

text \<open>
  Several values that are printed one after the other are read by a decoder one after the other.
\<close>

fun decode_all :: "nat \<Rightarrow> string \<Rightarrow> json list option" where
  "decode_all 0 s = (if skip_ws s = [] then Some [] else None)"
| "decode_all (Suc n) s =
     (case parse_value s of None \<Rightarrow> None | Some (v, r) \<Rightarrow> map_option ((#) v) (decode_all n r))"

definition printed :: "json list \<Rightarrow> string" where
  "printed js = concat (map (\<lambda>j. json_MarshalIndent [] ''    '' j @ [CHR 0x0A]) js)"

lemma decode_all_blank: "blank w \<Longrightarrow> decode_all n (w @ s) = decode_all n s"
  by (cases n) (simp_all add: skip_ws_blank parse_value_blank)

lemma decode_printed: "\<forall>j \<in> set js. json_ok j \<Longrightarrow> decode_all (length js) (printed js) = Some js"
proof (induction js)
  case (Cons j js)
  let ?r = "CHR 0x0A # printed js"
  have "ends ?r" by (simp add: ends_def)
  with Cons.prems have "parse_value (json_MarshalIndent [] ''    '' j @ ?r) = Some (j, ?r)"
    using indented.text_reads_back [of j 0] by (simp add: json_MarshalIndent_def reads_back_def)
  moreover have "decode_all (length js) ?r = Some js"
    using Cons decode_all_blank [of "[CHR 0x0A]" "length js" "printed js"] by (simp add: blank_def)
  ultimately show ?case by (simp add: printed_def)
qed (simp add: printed_def skip_ws_def)

end
