(* ===== verification/Commands.thy ===== *)
theory Commands
  imports Reader Settings Pretty
begin

text \<open>
  The command line client (\<open>cmd/bitcoin-processing-client\<close>): for each command how its arguments
  and flags become a call of the client library. Parsing of the command line belongs to \<open>cobra\<close>:
  \<open>args\<close> are the arguments, the flags are arguments of the definitions. \<open>log.Fatal\<close> ends the
  program, like a panic. The state is that of the connection, and the text on the standard output.

  \<open>FromString\<close> is \<open>uuid.FromString\<close>, which returns a UUID also when it fails.
\<close>

subsection \<open>The address of the service and the output\<close>

definition HasPrefix :: "string \<Rightarrow> string \<Rightarrow> bool" where
  "HasPrefix s p \<longleftrightarrow> take (length p) s = p"

definition PersistentPreRun :: "'v viper_api \<Rightarrow> 'v \<Rightarrow> string" where
  "PersistentPreRun V serverSettings =
     (let apiURL = GetString V serverSettings ''api.http.address''
      in if \<not> HasPrefix apiURL ''http'' then ''http://'' @ apiURL else apiURL)"

text \<open>
  \<open>main\<close> reads a configuration file of the service if there is one (the error is ignored) and binds
  the flag \<open>--api-url\<close> to the address of the service.
\<close>

definition client_OnInitialize :: "'v viper_api \<Rightarrow> string \<Rightarrow> 'v" where
  "client_OnInitialize V MinimalFeeRateBTC =
     BindPFlag V ''api.http.address'' ''api-url'' (fst (NewSettings V MinimalFeeRateBTC []))"

text \<open>A response that is an error ends the program; any other is printed.\<close>

definition showResponse :: "('a \<Rightarrow> json) \<Rightarrow> ('s, 'a) call \<Rightarrow> ('s \<times> string, unit) call" where
  "showResponse marshal m = (\<lambda>(s, out).
     case m s of
       (Ok responseData, s') \<Rightarrow>
         (case PrettyPrint (Inr (marshal responseData)) out of
            (Ok _, out') \<Rightarrow> (Ok (), s', out')
          | (_, out') \<Rightarrow> (Panic ''Failed to marshal API response data as JSON with indentation'', s', out'))
     | (Error respErr, s') \<Rightarrow> (Panic ''log.Fatal'', s', out)
     | (Panic p, s') \<Rightarrow> (Panic p, s', out))"

text \<open>The commands without a result only log that they succeeded.\<close>

definition logOK :: "('s, unit) call \<Rightarrow> ('s \<times> string, unit) call" where
  "logOK m = (\<lambda>(s, out).
     case m s of
       (Ok _, s') \<Rightarrow> (Ok (), s', out)
     | (Error err, s') \<Rightarrow> (Panic ''log.Fatal'', s', out)
     | (Panic p, s') \<Rightarrow> (Panic p, s', out))"

definition fatal :: "('s, 'a) call" where
  "fatal = panicE ''log.Fatal''"

type_synonym from_string = "string \<Rightarrow> uuid \<times> go_error option"

subsection \<open>Withdrawals\<close>

record withdraw_flags =
  withdrawID :: string
  withdrawFeeType :: string
  withdrawMetainfoString :: string

definition withdraw_args :: "bool \<Rightarrow> string list \<Rightarrow> (string \<times> string \<times> string) res" where
  "withdraw_args toColdStorage args =
     (if length args = 3 then Ok (args ! 0, args ! 1, args ! 2)
      else if \<not> toColdStorage then Panic ''Regular withdraw requires 3 args''
      else if 2 \<le> length args then Ok ([], args ! 0, args ! 1)
      else Panic ''index out of range'')"

text \<open>The error of \<open>FromString\<close> is not looked at.\<close>

definition requestData ::
  "lib \<Rightarrow> from_string \<Rightarrow> withdraw_flags \<Rightarrow> bool \<Rightarrow> string list \<Rightarrow> WithdrawRequest res" where
  "requestData L FromString fl toColdStorage args =
     (let (withdrawIDParsed, _) = FromString (withdrawID fl)
      in bind_res (withdraw_args toColdStorage args) (\<lambda>(address, amountStr, feeStr).
         case BTCAmountFromStringedFloat (lib_decimal L) amountStr of
           Inl _ \<Rightarrow> Panic ''Failed to convert given amount value to bitcoin amount''
         | Inr amount \<Rightarrow>
             (case BTCAmountFromStringedFloat (lib_decimal L) feeStr of
                Inl _ \<Rightarrow> Panic ''Failed to convert given fee value to bitcoin amount''
              | Inr fee \<Rightarrow>
                  (let data = \<lparr>req_ID = withdrawIDParsed, req_Address = address, req_Amount = amount, req_Fee = fee,
                         req_FeeType = withdrawFeeType fl, req_Metainfo = JNull\<rparr>
                   in if withdrawMetainfoString fl \<noteq> [] then
                        (case json_Unmarshal (withdrawMetainfoString fl) of
                           Inl _ \<Rightarrow> Panic ''Checking that metainfo is a valid JSON failed''
                         | Inr withdrawMetainfo \<Rightarrow> Ok (data\<lparr>req_Metainfo := interface_value withdrawMetainfo\<rparr>))
                      else Ok data))))"

definition withdrawCommandRunner ::
  "lib \<Rightarrow> from_string \<Rightarrow> ('u, 's) connection \<Rightarrow> withdraw_flags \<Rightarrow> bool \<Rightarrow> string list \<Rightarrow>
   ('s \<times> string, unit) call" where
  "withdrawCommandRunner L FromString C fl toColdStorage args =
     (case requestData L FromString fl toColdStorage args of
        Ok req \<Rightarrow>
          if toColdStorage then showResponse (marshal_WithdrawRequest L) (client_WithdrawToColdStorage L C req)
          else showResponse (marshal_WithdrawRequest L) (client_Withdraw L C req)
      | Error err \<Rightarrow> fatal
      | Panic p \<Rightarrow> panicE p)"

text \<open>With the checks of the number of arguments that \<open>cobra\<close> makes for the two commands.\<close>

definition cmdWithdraw ::
  "lib \<Rightarrow> from_string \<Rightarrow> ('u, 's) connection \<Rightarrow> withdraw_flags \<Rightarrow> string list \<Rightarrow> ('s \<times> string, unit) call" where
  "cmdWithdraw L FromString C fl args =
     (if length args = 3 then withdrawCommandRunner L FromString C fl False args
      else failE (GoError ''accepts 3 arg(s)''))"

definition cmdWithdrawToColdStorage ::
  "lib \<Rightarrow> from_string \<Rightarrow> ('u, 's) connection \<Rightarrow> withdraw_flags \<Rightarrow> string list \<Rightarrow> ('s \<times> string, unit) call" where
  "cmdWithdrawToColdStorage L FromString C fl args =
     (if 2 \<le> length args \<and> length args \<le> 3 then withdrawCommandRunner L FromString C fl True args
      else failE (GoError ''accepts between 2 and 3 arg(s)''))"

subsection \<open>The other commands\<close>

definition cancelOrConfirmCmd ::
  "lib \<Rightarrow> from_string \<Rightarrow> ('u, 's) connection \<Rightarrow> string \<Rightarrow> string list \<Rightarrow> ('s \<times> string, unit) call" where
  "cancelOrConfirmCmd L FromString C command args =
     (if length args \<noteq> 1 then failE (GoError ''accepts 1 arg(s)'')
      else
        (case FromString (args ! 0) of
           (_, Some _) \<Rightarrow> fatal
         | (txID, None) \<Rightarrow>
             if command = ''confirm'' then logOK (client_Confirm L C txID)
             else if command = ''cancel_pending'' then logOK (client_Cancel L C txID)
             else panicE (''Unexpected command '' @ command)))"

definition cmdGetEvents :: "lib \<Rightarrow> ('u, 's) connection \<Rightarrow> int \<Rightarrow> ('s \<times> string, unit) call" where
  "cmdGetEvents L C startSeq = showResponse (marshal_result L \<circ> EventsResult) (client_GetEvents L C startSeq)"

text \<open>\<open>PreRunE\<close> looks at the filters first.\<close>

definition filters_known :: "string \<Rightarrow> string \<Rightarrow> go_error option" where
  "filters_known directionFilter statusFilter =
     (case (if directionFilter \<noteq> [] then TransactionDirectionFromString directionFilter else Inr IncomingDirection) of
        Inl err \<Rightarrow> Some err
      | Inr _ \<Rightarrow>
          (case (if statusFilter \<noteq> [] then TransactionStatusFromString statusFilter else Inr NewTransaction) of
             Inl err \<Rightarrow> Some err
           | Inr _ \<Rightarrow> None))"

definition cmdGetTransactions :: "lib \<Rightarrow> ('u, 's) connection \<Rightarrow> string \<Rightarrow> string \<Rightarrow> ('s \<times> string, unit) call" where
  "cmdGetTransactions L C directionFilter statusFilter =
     (case filters_known directionFilter statusFilter of
        Some err \<Rightarrow> failE err
      | None \<Rightarrow>
          showResponse (marshal_result L \<circ> TransactionsResult)
            (client_GetTransactions L C \<lparr>filter_Direction = directionFilter, filter_Status = statusFilter\<rparr>))"

definition cmdMuteEvents :: "from_string \<Rightarrow> ('u, 's) connection \<Rightarrow> string list \<Rightarrow> ('s \<times> string, unit) call" where
  "cmdMuteEvents FromString C args =
     (if length args \<noteq> 1 then failE (GoError ''accepts 1 arg(s)'')
      else if args ! 0 \<noteq> ''current_problematic'' \<and> snd (FromString (args ! 0)) \<noteq> None then fatal
      else logOK (client_MuteEventsForTxID C (args ! 0)))"

definition cmdNewWallet :: "('u, 's) connection \<Rightarrow> string \<Rightarrow> ('s \<times> string, unit) call" where
  "cmdNewWallet C newWalletMetainfoString =
     (if newWalletMetainfoString \<noteq> [] then
        (case json_Unmarshal newWalletMetainfoString of
           Inl _ \<Rightarrow> fatal
         | Inr newWalletMetainfo \<Rightarrow> showResponse marshal_Account (client_NewWallet C (interface_value newWalletMetainfo)))
      else showResponse marshal_Account (client_NewWallet C JNull))"

definition runWalletInfoCommand :: "lib \<Rightarrow> ('u, 's) connection \<Rightarrow> string \<Rightarrow> ('s \<times> string, unit) call" where
  "runWalletInfoCommand L C use =
     (if use = ''get_hot_storage_address'' then
        showResponse (marshal_result L \<circ> AddressResult) (client_GetHotStorageAddress C)
      else if use = ''get_balance'' then
        showResponse (marshal_result L \<circ> BalanceResult) (client_GetBalance L C)
      else if use = ''get_required_from_cold_storage'' then
        showResponse (marshal_result L \<circ> AmountResult) (client_GetRequiredFromColdStorage L C)
      else panicE (''Unknown command '' @ use))"

text \<open>
  The command \<open>websocket\<close>: \<open>messages\<close> is what arrives on the connection until it ends or an
  interrupt is received. The callback prints each event; then the client is closed.
\<close>

fun print_events :: "lib \<Rightarrow> NotificationWithSeq list \<Rightarrow> (string, unit) call" where
  "print_events L [] = returnE ()"
| "print_events L (message # messages) =
     bindE (MustPrettyPrint (Inr (marshal_event L message))) (\<lambda>_. print_events L messages)"

definition cmdWebsocket ::
  "lib \<Rightarrow> ('r URL \<Rightarrow> go_error option) \<Rightarrow> (string \<Rightarrow> go_error + 'r URL) \<Rightarrow> string \<Rightarrow> int \<Rightarrow>
   (go_error + string) list \<Rightarrow> (client_state \<times> string, unit) call" where
  "cmdWebsocket L Dial Parse apiURL startSeq messages = (\<lambda>(cli, out).
     case NewWebsocketClient Dial Parse apiURL startSeq cli of
       (Inl err, cli') \<Rightarrow> (Panic ''log.Fatal'', cli', out)
     | (Inr (wsClient, _), cli') \<Rightarrow>
         (case print_events L (read_loop L messages) out of
            (r, out') \<Rightarrow> (r, websocketClient_Close wsClient cli', out')))"

subsection \<open>What a command does\<close>

lemma requestData_Ok:
  assumes "requestData L FromString fl cold args = Ok req"
  shows "plain_json (req_Metainfo req)" "req_ID req = fst (FromString (withdrawID fl))"
    "req_FeeType req = withdrawFeeType fl" "length args = 3 \<longrightarrow> req_Address req = args ! 0"
proof -
  let ?data = "\<lambda>address amount fee m. \<lparr>req_ID = fst (FromString (withdrawID fl)), req_Address = address, req_Amount = amount,
    req_Fee = fee, req_FeeType = withdrawFeeType fl, req_Metainfo = m\<rparr>"
  from assms obtain address amountStr feeStr where a: "withdraw_args cold args = Ok (address, amountStr, feeStr)"
    by (auto simp: requestData_def bind_res_Ok split: prod.splits)
  note run = assms [unfolded requestData_def a, simplified case_prod_beta bind_res.simps fst_conv snd_conv Let_def]
  from run obtain amount where n: "BTCAmountFromStringedFloat (lib_decimal L) amountStr = Inr amount" by (auto split: sum.splits)
  from run n obtain fee where f: "BTCAmountFromStringedFloat (lib_decimal L) feeStr = Inr fee" by (auto split: sum.splits)
  have "\<exists>m. plain_json m \<and> req = ?data address amount fee m"
  proof (cases "withdrawMetainfoString fl = []")
    case True
    with run n f show ?thesis by (intro exI [of _ JNull]) (simp add: plain_json_def)
  next
    case False
    with run n f obtain j where "json_Unmarshal (withdrawMetainfoString fl) = Inr j" by (auto split: sum.splits)
    with run n f False json_Unmarshal_ok [OF this] show ?thesis
      by (intro exI [of _ "interface_value j"]) (simp add: plain_json_def interface_value_idem json_ok_interface_value)
  qed
  moreover have "length args = 3 \<longrightarrow> address = args ! 0" using a by (auto simp: withdraw_args_def)
  ultimately show "plain_json (req_Metainfo req)" "req_ID req = fst (FromString (withdrawID fl))"
    "req_FeeType req = withdrawFeeType fl" "length args = 3 \<longrightarrow> req_Address req = args ! 0"
    by auto
qed

text \<open>
  The command \<open>withdraw\<close> against a connected service is the withdrawal of the wallet with the
  values of its arguments and flags.
\<close>

lemma cmdWithdraw_remote:
  assumes "connected C E W a newID error_text" "lib_ok (e_lib E) val" "length args = 3"
    and "requestData (e_lib E) FromString fl False args = Ok req"
  shows "cmdWithdraw (e_lib E) FromString C fl args ((e, w), out) =
    showResponse (marshal_WithdrawRequest (e_lib E)) (remotely error_text (local_withdraw E W a newID False req)) ((e, w), out)"
  using client_withdraw_remote [OF assms(1,2) requestData_Ok(1) [OF assms(4)], of "''/withdraw''" False] assms(3,4)
  by (simp add: cmdWithdraw_def withdrawCommandRunner_def client_Withdraw_def showResponse_def)

text \<open>What a command prints is the JSON text of its result.\<close>

lemma showResponse_Ok:
  assumes "m s = (Ok x, s')"
  shows "showResponse marshal m (s, out) = (Ok (), s', out @ printed [marshal x])"
  using assms by (simp add: showResponse_def PrettyPrint_def printed_def)

lemma print_events_output:
  "print_events L evs out = (Ok (), out @ printed (map (marshal_event L) evs))"
  by (induction evs arbitrary: out)
    (simp_all add: bindE_def MustPrettyPrint_def PrettyPrint_def printed_def returnE_def)

text \<open>
  An identifier that cannot be parsed is dropped without a message. The request then goes out as
  one without identifier, and a service that allows those gives it a new one each time: repeating
  the command pays again.
\<close>

lemma mistyped_id_is_dropped:
  assumes "FromString (withdrawID fl) = (uuid_Nil, Some err)" "requestData L FromString fl cold args = Ok req"
  shows "\<exists>req'. complete_request True newID req = Inr req' \<and> req_ID req' = newID"
  using requestData_Ok(2) [OF assms(2)] assms(1) by (auto simp: complete_request_def Let_def)

text \<open>Filters that the service does not know are refused before anything is sent.\<close>

lemma cmdGetTransactions_unknown_filter:
  assumes "directionFilter \<noteq> []" "TransactionDirectionFromString directionFilter = Inl err"
  shows "cmdGetTransactions L C directionFilter statusFilter (s, out) = (Error err, s, out)"
  using assms by (simp add: cmdGetTransactions_def filters_known_def failE_def)

text \<open>
  The address of the service is the one given with \<open>--api-url\<close>, whatever the configuration file
  says; without it and without a setting it is the default of the flag.
\<close>

lemma client_address:
  assumes "viper_ok V view flags dflt text"
  shows "flags ''api-url'' = Some url \<Longrightarrow> HasPrefix url ''http'' \<Longrightarrow> PersistentPreRun V (client_OnInitialize V rate) = url"
    and "flags ''api-url'' = None \<Longrightarrow> HasPrefix (dflt ''api-url'') ''http'' \<Longrightarrow>
      vs_config (view (fst (NewSettings V rate []))) ''api.http.address'' = None \<Longrightarrow>
      vs_default (view (fst (NewSettings V rate []))) ''api.http.address'' = None \<Longrightarrow>
      PersistentPreRun V (client_OnInitialize V rate) = dflt ''api-url''"
  using assms by (simp_all add: PersistentPreRun_def client_OnInitialize_def GetString_def viper_ok_def lookup_def Let_def)

subsection \<open>The command websocket\<close>

lemma wire_view_ok: "data_ok d \<Longrightarrow> data_ok (wire_view d)"
  by (cases d) simp_all

lemma client_event_ok: "row_ok r \<Longrightarrow> json_ok (marshal_event L (client_event r))"
  using marshal_data_ok [OF wire_view_ok, of "ev_data r" L]
  by (simp add: row_ok_def client_event_def marshal_event_def EventType_MarshalJSON_def marshal_int_def parse_number_Itoa)


definition example_client :: client_state where
  "example_client = \<lparr>websocketClients = [], ws_owned = [], ws_interrupted = [], ws_next = 0\<rparr>"


end
