(* ===== verification/Closing.thy ===== *)
theory Closing
  imports Reader Runs
begin

text \<open>
  The goroutines of a websocket client (\<open>NewWebsocketClient\<close> and \<open>Close\<close> of
  \<open>api/client/websocket.go\<close>): one reads events and hands them to the callback, one subscribes,
  waits for the end or for an interrupt, and closes the connection. \<open>Close\<close> interrupts and waits
  for the second. A step is one operation on a channel or on the connection.

  The connection belongs to \<open>gorilla/websocket\<close>: \<open>incoming\<close> are the results of its reads while it is
  open, and a read after it was closed fails. Writing the close message may fail; the waiting for
  the server ends with the reader or after a second, which is a step that is always possible.
\<close>

subsection \<open>Goroutines\<close>

text \<open>The deferred calls close \<open>clientFinished\<close> first and the connection after it.\<close>

datatype writer_state = Subscribing | AtSelect | AwaitingServer | Returning | Deferred | WriterEnded

datatype closer_state = NotCalled | WaitingForDone | CloseReturned

record ws_goroutines =
  incoming :: "(go_error + string) list"
  handed :: "NotificationWithSeq list"
  done_closed :: bool
  interrupt_closed :: bool
  writer :: writer_state
  clientFinished :: bool
  conn_open :: bool
  closer :: closer_state

definition ws_started :: "(go_error + string) list \<Rightarrow> ws_goroutines" where
  "ws_started messages =
     \<lparr>incoming = messages, handed = [], done_closed = False, interrupt_closed = False, writer = Subscribing,
      clientFinished = False, conn_open = True, closer = NotCalled\<rparr>"

text \<open>One turn of the reading goroutine on what \<open>ReadJSON\<close> gives.\<close>

definition read_turn :: "lib \<Rightarrow> go_error + string \<Rightarrow> ws_goroutines \<Rightarrow> ws_goroutines" where
  "read_turn L message s =
     (case read_loop L [message] of
        [] \<Rightarrow> s\<lparr>incoming := tl (incoming s), done_closed := True\<rparr>
      | notification # _ \<Rightarrow> s\<lparr>incoming := tl (incoming s), handed := handed s @ [notification]\<rparr>)"

inductive ws_step :: "lib \<Rightarrow> ws_goroutines \<Rightarrow> ws_goroutines \<Rightarrow> bool" for L :: lib where
  read: "\<not> done_closed s \<Longrightarrow> conn_open s \<Longrightarrow> incoming s = message # ms \<Longrightarrow> ws_step L s (read_turn L message s)"
| read_closed: "\<not> done_closed s \<Longrightarrow> \<not> conn_open s \<Longrightarrow> ws_step L s (s\<lparr>done_closed := True\<rparr>)"
| subscribed: "writer s = Subscribing \<Longrightarrow> ws_step L s (s\<lparr>writer := AtSelect\<rparr>)"
| ended: "writer s = AtSelect \<Longrightarrow> done_closed s \<Longrightarrow> ws_step L s (s\<lparr>writer := Returning\<rparr>)"
| interrupted: "writer s = AtSelect \<Longrightarrow> interrupt_closed s \<Longrightarrow>
    ws_step L s (s\<lparr>writer := (if write_ok then AwaitingServer else Returning)\<rparr>)"
| server_closed: "writer s = AwaitingServer \<Longrightarrow> done_closed s \<Longrightarrow> ws_step L s (s\<lparr>writer := Returning\<rparr>)"
| timed_out: "writer s = AwaitingServer \<Longrightarrow> ws_step L s (s\<lparr>writer := Returning\<rparr>)"
| finished: "writer s = Returning \<Longrightarrow> ws_step L s (s\<lparr>clientFinished := True, writer := Deferred\<rparr>)"
| disconnected: "writer s = Deferred \<Longrightarrow> ws_step L s (s\<lparr>conn_open := False, writer := WriterEnded\<rparr>)"
| close_called: "closer s = NotCalled \<Longrightarrow> ws_step L s (s\<lparr>interrupt_closed := True, closer := WaitingForDone\<rparr>)"
| close_returned: "closer s = WaitingForDone \<Longrightarrow> clientFinished s \<Longrightarrow> ws_step L s (s\<lparr>closer := CloseReturned\<rparr>)"

subsection \<open>Invariant and progress\<close>

fun writer_weight :: "writer_state \<Rightarrow> nat" where
  "writer_weight Subscribing = 5"
| "writer_weight AtSelect = 4"
| "writer_weight AwaitingServer = 3"
| "writer_weight Returning = 2"
| "writer_weight Deferred = 1"
| "writer_weight WriterEnded = 0"

fun closer_weight :: "closer_state \<Rightarrow> nat" where
  "closer_weight NotCalled = 2"
| "closer_weight WaitingForDone = 1"
| "closer_weight CloseReturned = 0"

definition ws_weight :: "ws_goroutines \<Rightarrow> nat" where
  "ws_weight s = length (incoming s) + (if done_closed s then 0 else 1) + writer_weight (writer s) + closer_weight (closer s)"

lemma ws_step_lighter: "ws_step L s t \<Longrightarrow> ws_weight t < ws_weight s"
  by (induction rule: ws_step.induct) (auto simp: ws_weight_def read_turn_def split: list.split)

definition ws_ok :: "ws_goroutines \<Rightarrow> bool" where
  "ws_ok s \<longleftrightarrow> (clientFinished s \<longleftrightarrow> writer s = Deferred \<or> writer s = WriterEnded) \<and>
     (conn_open s \<longleftrightarrow> writer s \<noteq> WriterEnded) \<and> (interrupt_closed s \<longleftrightarrow> closer s \<noteq> NotCalled) \<and>
     (closer s = CloseReturned \<longrightarrow> clientFinished s)"

lemma ws_started_ok: "ws_ok (ws_started messages)"
  by (simp add: ws_ok_def ws_started_def)

lemma ws_step_ok: "ws_step L s t \<Longrightarrow> ws_ok s \<Longrightarrow> ws_ok t"
  by (induction rule: ws_step.induct) (auto simp: ws_ok_def read_turn_def split: list.split)

text \<open>After \<open>Close\<close> was called something happens until it has returned and both goroutines have ended.\<close>

definition ws_closing :: "ws_goroutines \<Rightarrow> bool" where
  "ws_closing s \<longleftrightarrow> ws_ok s \<and> closer s \<noteq> NotCalled"

definition ws_over :: "ws_goroutines \<Rightarrow> bool" where
  "ws_over s \<longleftrightarrow> closer s = CloseReturned \<and> done_closed s \<and> writer s = WriterEnded"

lemma ws_progress:
  assumes "ws_closing s" "\<not> ws_over s"
  shows "\<exists>t. ws_step L s t"
proof (cases "writer s = WriterEnded")
  case True
  with assms show ?thesis
    by (cases "closer s") (auto simp: ws_closing_def ws_over_def ws_ok_def intro: ws_step.read_closed ws_step.close_returned)
next
  case False
  have "interrupt_closed s" using assms(1) by (simp add: ws_closing_def ws_ok_def)
  with False show ?thesis by (cases "writer s") (blast intro: ws_step.intros)+
qed

lemma ws_step_closing: "ws_closing s \<Longrightarrow> ws_step L s t \<Longrightarrow> ws_closing t"
  unfolding ws_closing_def using ws_step_ok [of L s t]
  by (auto elim!: ws_step.cases simp: read_turn_def split: list.splits)

interpretation ws: ending_system "ws_step L" ws_closing ws_over ws_weight for L
  by unfold_locales (rule ws_step_lighter, assumption, rule ws_step_closing, assumption+, rule ws_progress)

subsection \<open>Events handed to the callback\<close>

lemma read_loop_Cons: "read_loop L [m] = n # ns \<Longrightarrow> read_loop L (m # ms) = n # read_loop L ms"
  by (cases m) (auto split: sum.splits)

lemma read_loop_stops: "read_loop L [m] = [] \<Longrightarrow> read_loop L (m # ms) = []"
  by (cases m) (auto split: sum.splits)

lemma ws_reach_handed:
  assumes "(ws_step L)\<^sup>*\<^sup>* (ws_started messages) s"
  shows "prefix (handed s) (read_loop L messages) \<and>
    (\<not> done_closed s \<longrightarrow> handed s @ read_loop L (incoming s) = read_loop L messages)"
  using assms
proof (induction rule: rtranclp_induct)
  case base
  show ?case by (simp add: ws_started_def)
next
  case (step s t)
  from step(2) show ?case
  proof (cases rule: ws_step.cases)
    case (read message ms)
    show ?thesis
    proof (cases "read_loop L [message]")
      case Nil
      with step.IH read show ?thesis by (simp add: read_turn_def)
    next
      case (Cons n ns)
      from read_loop_Cons [OF this, of ms] read step.IH have "handed s @ n # read_loop L ms = read_loop L messages" by simp
      then show ?thesis using read Cons by (auto simp: read_turn_def prefix_def intro: sym)
    qed
  qed (use step.IH in simp_all)
qed

text \<open>
  C27: Closing a websocket client works, whatever the server does. After \<open>Close\<close> was called no run
  of the goroutines of the client takes more than \<open>k + 8\<close> steps, where \<open>k\<close> is the number of messages
  that arrive; until \<open>Close\<close> has returned and both goroutines have ended they are never stuck, and the
  end is reached. The events that were handed to the callback are an initial part of the messages.
\<close>

theorem websocket_close_returns:
  assumes "(ws_step L)\<^sup>*\<^sup>* (ws_started messages) s" "closer s \<noteq> NotCalled" "(ws_step L ^^ n) s t"
  shows "n \<le> length messages + 8 \<and> (ws_over t \<or> (\<exists>t'. ws_step L t t')) \<and>
    (\<exists>z. (ws_step L)\<^sup>*\<^sup>* t z \<and> ws_over z) \<and> prefix (handed t) (read_loop L messages)"
proof -
  from assms(1) obtain m where "(ws_step L ^^ m) (ws_started messages) s" by (metis rtranclp_imp_relpowp)
  from ws.run_length [OF this] ws.run_length [OF assms(3)] have "n \<le> length messages + 8"
    by (simp add: ws_started_def ws_weight_def)
  moreover have "ws_ok s" using assms(1)
    by (induction rule: rtranclp_induct) (auto intro: ws_started_ok ws_step_ok)
  with assms(2) have t: "ws_closing t" using ws.run_keeps [OF assms(3)] by (simp add: ws_closing_def)
  moreover have "(ws_step L)\<^sup>*\<^sup>* (ws_started messages) t"
    using assms(1) relpowp_imp_rtranclp [OF assms(3)] by (rule rtranclp_trans)
  ultimately show ?thesis using ws.run_ends [OF t] ws_progress [OF t] ws_reach_handed by blast
qed

text \<open>A client that is closed before anything has arrived.\<close>

theorem websocket_close_returns_witness:
  "\<exists>s z. (ws_step example_lib)\<^sup>*\<^sup>* (ws_started []) s \<and> closer s = WaitingForDone \<and>
     (ws_step example_lib)\<^sup>*\<^sup>* s z \<and> ws_over z"
proof -
  let ?s = "(ws_started [])\<lparr>interrupt_closed := True, closer := WaitingForDone\<rparr>"
  have "ws_step example_lib (ws_started []) ?s" by (rule ws_step.close_called) (simp add: ws_started_def)
  then have "(ws_step example_lib)\<^sup>*\<^sup>* (ws_started []) ?s" by (rule r_into_rtranclp)
  moreover obtain z where "(ws_step example_lib)\<^sup>*\<^sup>* ?s z" "ws_over z"
    using websocket_close_returns [OF calculation, of 0 ?s] by auto
  ultimately show ?thesis by (intro exI [of _ ?s] exI [of _ z]) simp
qed

end
