(* ===== verification/TestKit.thy ===== *)
theory TestKit
  imports Reader
begin

text \<open>
  What the integration tests are built from: waiting (\<open>integrationtests/util/util.go\<close>,
  \<open>testenv/util.go\<close>), the listeners that collect what the service reports
  (\<open>testenv/callback_listener.go\<close>, \<open>testenv/websocket_listener.go\<close>), the flag
  (\<open>util/atomicflag.go\<close>) and the searches of \<open>integrationtests/util.go\<close>.

  The state of a test is the list of messages \<open>t\<close> has recorded. \<open>t.Errorf\<close> records a failure and goes
  on, \<open>t.Fatalf\<close> records it and ends the test. The messages are shortened.
\<close>

subsection \<open>Tests\<close>

type_synonym check = "(string list, unit) call"

definition Errorf :: "string \<Rightarrow> check" where
  "Errorf msg t = (Ok (), t @ [msg])"

definition Fatalf :: "string \<Rightarrow> (string list, 'a) call" where
  "Fatalf msg t = (Panic ''t.Fatal'', t @ [msg])"

text \<open>\<open>if got != want\<close> then \<open>t.Errorf\<close>.\<close>

definition expect :: "bool \<Rightarrow> string \<Rightarrow> check" where
  "expect ok msg = (if ok then returnE () else Errorf msg)"

fun checks :: "check list \<Rightarrow> check" where
  "checks [] = returnE ()"
| "checks (c # cs) = bindE c (\<lambda>_. checks cs)"

text \<open>A check accepts if it records nothing and goes on.\<close>

definition accepts :: "check \<Rightarrow> bool" where
  "accepts c \<longleftrightarrow> (\<forall>t. c t = (Ok (), t))"

record txTestData =
  td_id :: uuid
  td_address :: string
  td_amount :: BTCAmount
  td_fee :: BTCAmount
  td_hash :: string
  td_blockHash :: string
  td_metainfo :: json
  td_confirmations :: int

subsection \<open>Flags\<close>

text \<open>A 32-bit integer that is read, written and compared atomically.\<close>

type_synonym AtomicFlag = "32 word"

definition Flag_Get :: "AtomicFlag \<Rightarrow> bool" where
  "Flag_Get af \<longleftrightarrow> af = 1"

definition Flag_Set :: "bool \<Rightarrow> AtomicFlag \<Rightarrow> AtomicFlag" where
  "Flag_Set val af = (if val then 1 else 0)"

definition Flag_SetIf :: "bool \<Rightarrow> bool \<Rightarrow> AtomicFlag \<Rightarrow> bool \<times> AtomicFlag" where
  "Flag_SetIf old new af =
     (let o' = (if old then 1 else 0); n = (if new then 1 else 0)
      in if af = o' then (True, n) else (False, af))"

text \<open>Of a flag that starts as zero the operations are those of a boolean variable.\<close>

lemma Flag_Get_Set [simp]: "Flag_Get (Flag_Set val af) = val"
  by (simp add: Flag_Get_def Flag_Set_def)

lemma Flag_SetIf_bool:
  assumes "af = Flag_Set b x"
  shows "Flag_SetIf old new af = (b = old, Flag_Set (if b = old then new else b) af)"
  using assms by (cases b; cases old; cases new) (simp_all add: Flag_SetIf_def Flag_Set_def)

subsection \<open>Waiting\<close>

definition waitForEventRetries :: nat where
  "waitForEventRetries = 120"

function wait_loop :: "('s, unit) call \<Rightarrow> nat \<Rightarrow> ('s, unit) call" where
  "wait_loop callback retries s =
     (case callback s of
        (Error err, s') \<Rightarrow> if retries - 1 = 0 then (Error err, s') else wait_loop callback (retries - 1) s'
      | (r, s') \<Rightarrow> (r, s'))"
  by pat_completeness auto
termination by (relation "measure (\<lambda>(_, n, _). n)") auto

declare wait_loop.simps [simp del]

definition WaitForEvent :: "('s, unit) call \<Rightarrow> ('s, unit) call" where
  "WaitForEvent callback = wait_loop callback waitForEventRetries"

definition waitForEventOrPanic :: "('s, unit) call \<Rightarrow> ('s, unit) call" where
  "waitForEventOrPanic callback s =
     (case WaitForEvent callback s of (Error err, s') \<Rightarrow> (Panic ''panic(err)'', s') | (r, s') \<Rightarrow> (r, s'))"

definition waitForEventOrFailTest :: "('s, unit) call \<Rightarrow> ('s \<times> string list, unit) call" where
  "waitForEventOrFailTest callback = (\<lambda>(s, t).
     case WaitForEvent callback s of
       (Ok _, s') \<Rightarrow> (Ok (), s', t)
     | (Error err, s') \<Rightarrow> (Panic ''t.Fatal'', s', t @ [''the last error''])
     | (Panic p, s') \<Rightarrow> (Panic p, s', t))"

text \<open>The state after the first \<open>k\<close> calls, if all of them failed.\<close>

fun after_failures :: "('s, unit) call \<Rightarrow> nat \<Rightarrow> 's \<Rightarrow> 's option" where
  "after_failures callback 0 s = Some s"
| "after_failures callback (Suc k) s =
     (case callback s of (Error err, s') \<Rightarrow> after_failures callback k s' | _ \<Rightarrow> None)"

lemma first_call_only:
  assumes "callback s = (r, s1)" "\<forall>err. r \<noteq> Error err"
  shows "(\<exists>k < Suc m. \<exists>u. after_failures callback k s = Some u \<and> P u) \<longleftrightarrow> P s"
  unfolding Ex_less_Suc2 using assms by (cases r) simp_all

lemma wait_loop_Ok:
  "wait_loop callback (Suc n) s = (Ok (), s') \<longleftrightarrow>
     (\<exists>k < Suc n. \<exists>u. after_failures callback k s = Some u \<and> callback u = (Ok (), s'))"
proof (induction n arbitrary: s)
  case 0
  show ?case by (subst wait_loop.simps) (auto split: res.split prod.split)
next
  case (Suc n)
  obtain r s1 where call: "callback s = (r, s1)" by fastforce
  show ?case
  proof (cases "\<exists>err. r = Error err")
    case True
    then have "wait_loop callback (Suc (Suc n)) s = wait_loop callback (Suc n) s1"
      using call by (auto simp: wait_loop.simps [of callback "Suc (Suc n)" s])
    moreover have "after_failures callback (Suc k) s = after_failures callback k s1" for k using call True by auto
    moreover have "callback s \<noteq> (Ok (), s')" using call True by auto
    ultimately show ?thesis
      unfolding Ex_less_Suc2 [of "Suc n"] using Suc.IH [of s1] by (simp only: after_failures.simps(1)) blast
  next
    case False
    then have "wait_loop callback (Suc (Suc n)) s = (r, s1)"
      using call by (cases r) (simp_all add: wait_loop.simps [of callback "Suc (Suc n)" s])
    with False call show ?thesis using first_call_only [of callback s r s1 "Suc n" "\<lambda>u. callback u = (Ok (), s')"] by simp
  qed
qed

text \<open>
  Waiting succeeds exactly when one of the first 120 calls does, with the calls before it failed.
\<close>

lemma WaitForEvent_Ok:
  "WaitForEvent callback s = (Ok (), s') \<longleftrightarrow>
     (\<exists>k < 120. \<exists>u. after_failures callback k s = Some u \<and> callback u = (Ok (), s'))"
  using wait_loop_Ok [of callback 119 s s'] by (simp add: WaitForEvent_def waitForEventRetries_def)

subsection \<open>Listeners\<close>

text \<open>
  Requests to the callback URL are queued, unless the test has set a handler of its own. The
  queues have room for \<open>listenersMessageQueueSize\<close> messages; a sender that finds no room waits
  (\<open>None\<close>).
\<close>

definition listenersMessageQueueSize :: nat where
  "listenersMessageQueueSize = 20000"

record callbackRequest =
  cb_Method :: string
  cb_URL :: string
  cb_body :: string

definition callbackRequest_unmarshal :: "lib \<Rightarrow> callbackRequest \<Rightarrow> go_error + TxNotification" where
  "callbackRequest_unmarshal L c =
     (case json_Unmarshal (cb_body c) of Inl err \<Rightarrow> Inl err | Inr j \<Rightarrow> unmarshal_TxNotification L j)"

definition UnmarshalOrFail :: "lib \<Rightarrow> callbackRequest \<Rightarrow> (string list, TxNotification) call" where
  "UnmarshalOrFail L c =
     (case callbackRequest_unmarshal L c of
        Inl err \<Rightarrow> Fatalf ''Failed to deserialize notification data from http callback request body''
      | Inr notification \<Rightarrow> returnE notification)"

record WebsocketListener =
  l_wsClient :: "nat option"
  l_stopped :: bool
  l_messages :: "NotificationWithSeq list"
  l_closed :: bool
  LastSeq :: int

definition NewWebsocketListener ::
  "('r URL \<Rightarrow> go_error option) \<Rightarrow> (string \<Rightarrow> go_error + 'r URL) \<Rightarrow> string \<Rightarrow> int \<Rightarrow> client_state \<Rightarrow>
   (go_error + WebsocketListener) \<times> client_state" where
  "NewWebsocketListener Dial Parse baseURL startSeq cli =
     (case NewWebsocketClient Dial Parse baseURL startSeq cli of
        (Inl err, cli') \<Rightarrow> (Inl err, cli')
      | (Inr (wsClient, _), cli') \<Rightarrow>
          (Inr \<lparr>l_wsClient = Some wsClient, l_stopped = False, l_messages = [], l_closed = False, LastSeq = 0\<rparr>, cli'))"

definition processMessage :: "NotificationWithSeq \<Rightarrow> WebsocketListener \<Rightarrow> WebsocketListener res option" where
  "processMessage message l =
     (let l' = l\<lparr>LastSeq := ns_Seq message\<rparr>
      in if l_closed l' then Some (Panic ''send on closed channel'')
         else if listenersMessageQueueSize \<le> length (l_messages l') then None
         else Some (Ok (l'\<lparr>l_messages := l_messages l' @ [message]\<rparr>)))"

definition Listener_Stop :: "WebsocketListener \<Rightarrow> client_state \<Rightarrow> WebsocketListener res \<times> client_state" where
  "Listener_Stop l cli =
     (if l_stopped l then (Ok l, cli)
      else
        (case l_wsClient l of
           None \<Rightarrow> (Panic ''nil pointer dereference'', cli)
         | Some wsClient \<Rightarrow>
             (if l_closed l then Panic ''close of closed channel'' else Ok (l\<lparr>l_wsClient := None, l_closed := True\<rparr>),
              websocketClient_Close wsClient cli)))"

text \<open>
  \<open>stopped\<close> is never set, so that the guard against a second call of \<open>Stop\<close> has no effect: it
  panics.
\<close>

lemma second_Stop_panics:
  assumes "Listener_Stop l cli = (Ok l', cli')" "\<not> l_stopped l"
  shows "fst (Listener_Stop l' cli'') = Panic ''nil pointer dereference''"
  using assms by (auto simp: Listener_Stop_def split: option.splits if_splits)

text \<open>The part of the test environment that holds the queues; the first listener is the one tests read.\<close>

record test_queues =
  callbackMessageQueue :: "callbackRequest list"
  listener :: WebsocketListener

definition callback_arrived ::
  "(callbackRequest \<Rightarrow> test_queues \<Rightarrow> test_queues) option \<Rightarrow> callbackRequest \<Rightarrow> test_queues \<Rightarrow> test_queues option" where
  "callback_arrived CallbackHandler r q =
     (case CallbackHandler of
        Some h \<Rightarrow> Some (h r q)
      | None \<Rightarrow>
          if listenersMessageQueueSize \<le> length (callbackMessageQueue q) then None
          else Some (q\<lparr>callbackMessageQueue := callbackMessageQueue q @ [r]\<rparr>))"

text \<open>\<open>None\<close> on an empty queue: the minute of waiting has passed.\<close>

definition GetNextCallbackRequestWithTimeout :: "(test_queues \<times> string list, callbackRequest) call" where
  "GetNextCallbackRequestWithTimeout = (\<lambda>(q, t).
     case callbackMessageQueue q of
       [] \<Rightarrow> (Panic ''t.Fatal'', q, t @ [''No message arrived before timeout''])
     | req # reqs \<Rightarrow> (Ok req, q\<lparr>callbackMessageQueue := reqs\<rparr>, t))"

definition GetNextMessageWithTimeout :: "(test_queues \<times> string list, NotificationWithSeq) call" where
  "GetNextMessageWithTimeout = (\<lambda>(q, t).
     case l_messages (listener q) of
       [] \<Rightarrow> (Panic ''t.Fatal'', q, t @ [''No message arrived before timeout''])
     | msg # msgs \<Rightarrow> (Ok msg, q\<lparr>listener := (listener q)\<lparr>l_messages := msgs\<rparr>\<rparr>, t))"

definition on_test :: "(string list, 'a) call \<Rightarrow> ('s \<times> string list, 'a) call" where
  "on_test m = (\<lambda>(s, t). case m t of (r, t') \<Rightarrow> (r, s, t'))"

definition GetNextCallbackNotificationWithTimeout :: "lib \<Rightarrow> (test_queues \<times> string list, TxNotification) call" where
  "GetNextCallbackNotificationWithTimeout L =
     bindE GetNextCallbackRequestWithTimeout (\<lambda>req. on_test (UnmarshalOrFail L req))"

fun collectNotificationsAndEvents ::
  "lib \<Rightarrow> nat \<Rightarrow> (test_queues \<times> string list, TxNotification list \<times> NotificationWithSeq list) call" where
  "collectNotificationsAndEvents L 0 = returnE ([], [])"
| "collectNotificationsAndEvents L (Suc n) =
     bindE (GetNextCallbackNotificationWithTimeout L) (\<lambda>x.
     bindE GetNextMessageWithTimeout (\<lambda>y.
     bindE (collectNotificationsAndEvents L n) (\<lambda>(xs, ys). returnE (x # xs, y # ys))))"

text \<open>\<open>event.Data.(*wallettypes.TxNotification)\<close>\<close>

definition tx_data :: "NotificationWithSeq \<Rightarrow> ('s, TxNotification) call" where
  "tx_data event = (case ns_Data event of TxData n \<Rightarrow> returnE n | _ \<Rightarrow> panicE ''interface conversion'')"

fun collectNotifications ::
  "lib \<Rightarrow> EventType \<Rightarrow> nat \<Rightarrow> (test_queues \<times> string list, TxNotification list \<times> TxNotification list) call" where
  "collectNotifications L eventType 0 = returnE ([], [])"
| "collectNotifications L eventType (Suc n) =
     bindE (GetNextCallbackNotificationWithTimeout L) (\<lambda>x.
     bindE GetNextMessageWithTimeout (\<lambda>event.
     if ns_Type event \<noteq> eventType then on_test (Fatalf ''Unexpected event type for event'')
     else bindE (tx_data event) (\<lambda>y.
       bindE (collectNotifications L eventType n) (\<lambda>(xs, ys). returnE (x # xs, y # ys)))))"

subsection \<open>Searches\<close>

definition notification_matches :: "txTestData \<Rightarrow> TxNotification \<Rightarrow> bool" where
  "notification_matches tx n \<longleftrightarrow>
     (if td_id tx \<noteq> uuid_Nil then ID (tn_Transaction n) = td_id tx
      else Hash (tn_Transaction n) = td_hash tx \<and> Amount (tn_Transaction n) = td_amount tx \<and>
           Address (tn_Transaction n) = td_address tx)"

fun findNotificationForTxOrFail :: "TxNotification list \<Rightarrow> txTestData \<Rightarrow> (string list, TxNotification) call" where
  "findNotificationForTxOrFail [] tx = Fatalf ''Failed to find relevant notification for tx''"
| "findNotificationForTxOrFail (n # notifications) tx =
     (if notification_matches tx n then returnE n else findNotificationForTxOrFail notifications tx)"

fun findEventWithTypeOrFail :: "NotificationWithSeq list \<Rightarrow> EventType \<Rightarrow> (string list, NotificationWithSeq) call" where
  "findEventWithTypeOrFail [] et = Fatalf ''Failed to find event with requested type''"
| "findEventWithTypeOrFail (e # evts) et = (if ns_Type e = et then returnE e else findEventWithTypeOrFail evts et)"

fun find_events :: "EventType \<Rightarrow> nat \<Rightarrow> NotificationWithSeq list \<Rightarrow> NotificationWithSeq list \<Rightarrow> (string list, NotificationWithSeq list) call" where
  "find_events et n result [] = Fatalf ''Failed to find events with requested type''"
| "find_events et n result (e # evts) =
     (let result' = (if ns_Type e = et then result @ [e] else result)
      in if n \<le> length result' then returnE result' else find_events et n result' evts)"

definition findAllEventsWithTypeOrFail :: "NotificationWithSeq list \<Rightarrow> EventType \<Rightarrow> nat \<Rightarrow> (string list, NotificationWithSeq list) call" where
  "findAllEventsWithTypeOrFail evts et n = find_events et n [] evts"

fun all_data :: "NotificationWithSeq list \<Rightarrow> ('s, TxNotification list) call" where
  "all_data [] = returnE []"
| "all_data (e # evts) = bindE (tx_data e) (\<lambda>x. bindE (all_data evts) (\<lambda>xs. returnE (x # xs)))"

definition findAllWsNotificationsWithTypeOrFail ::
  "NotificationWithSeq list \<Rightarrow> EventType \<Rightarrow> nat \<Rightarrow> (string list, TxNotification list) call" where
  "findAllWsNotificationsWithTypeOrFail evts et n = bindE (findAllEventsWithTypeOrFail evts et n) all_data"

definition stableBalanceOrFail :: "BalanceInfo \<Rightarrow> (string list, BTCAmount) call" where
  "stableBalanceOrFail bal =
     (if Balance bal \<noteq> BalanceWithUnconf bal
      then Fatalf ''Expected that confirmed and uncofirmed balance to be equal by this moment''
      else returnE (Balance bal))"

text \<open>A search succeeds exactly when there is something to find, and gives the first.\<close>

lemma findNotificationForTxOrFail_spec:
  "findNotificationForTxOrFail ns tx t =
     (case find (notification_matches tx) ns of
        Some n \<Rightarrow> (Ok n, t)
      | None \<Rightarrow> Fatalf ''Failed to find relevant notification for tx'' t)"
  by (induction ns) (simp_all add: returnE_def)

lemma find_events_spec:
  assumes "length result < n"
  shows "find_events et n result evts t =
    (let found = result @ filter (\<lambda>e. ns_Type e = et) evts
     in if n \<le> length found then (Ok (take n found), t) else Fatalf ''Failed to find events with requested type'' t)"
  using assms
proof (induction evts arbitrary: result)
  case (Cons e evts)
  show ?case
  proof (cases "ns_Type e = et \<and> Suc (length result) = n")
    case True
    then show ?thesis by (auto simp: Let_def returnE_def)
  next
    case False
    with Cons.prems Cons.IH [of "if ns_Type e = et then result @ [e] else result"] show ?thesis
      by (auto simp: Let_def)
  qed
qed (simp add: Let_def)

lemma findAllEventsWithTypeOrFail_spec:
  "0 < n \<Longrightarrow> findAllEventsWithTypeOrFail evts et n t =
     (let found = filter (\<lambda>e. ns_Type e = et) evts
      in if n \<le> length found then (Ok (take n found), t) else Fatalf ''Failed to find events with requested type'' t)"
  by (simp add: findAllEventsWithTypeOrFail_def find_events_spec)

end
