(* ===== verification/Checkers.thy ===== *)
theory Checkers
  imports TestKit Callback Pretty
begin

text \<open>
  The checks of the integration tests (\<open>integrationtests/checkers.go\<close>) and the proof that what the
  service reports passes them.
\<close>

subsection \<open>Test data\<close>

text \<open>\<open>MineTx\<close> and \<open>MineMultipleTxns\<close> of the test environment give the hash of the block.\<close>

definition mineOrFail :: "(string \<Rightarrow> go_error + string) \<Rightarrow> txTestData \<Rightarrow> (string list, txTestData) call" where
  "mineOrFail MineTx tx =
     (case MineTx (td_hash tx) of
        Inl err \<Rightarrow> Fatalf ''Failed to mine tx into blockchain''
      | Inr blockHash \<Rightarrow> returnE (tx\<lparr>td_blockHash := blockHash, td_confirmations := td_confirmations tx + 1\<rparr>))"

definition collection_mineOrFail ::
  "(string list \<Rightarrow> go_error + string) \<Rightarrow> txTestData list \<Rightarrow> (string list, txTestData list) call" where
  "collection_mineOrFail MineMultipleTxns tc =
     (case MineMultipleTxns (map td_hash tc) of
        Inl err \<Rightarrow> Fatalf ''Failed to mine txns into blockchain''
      | Inr blockHash \<Rightarrow>
          returnE (map (\<lambda>tx. tx\<lparr>td_blockHash := blockHash, td_confirmations := td_confirmations tx + 1\<rparr>) tc))"

text \<open>
  Both values are written as JSON and read back, so that structures and maps compare alike. A
  number of a value is the literal that \<open>encoding/json\<close> writes for it.
\<close>

definition compareMetainfo :: "json \<Rightarrow> json \<Rightarrow> check" where
  "compareMetainfo got want =
     (let gotJSON = json_MarshalIndent [] ''    '' got; wantJSON = json_MarshalIndent [] ''    '' want
      in case json_Unmarshal gotJSON of
           Inl _ \<Rightarrow> Fatalf ''Failed to unmarshal metainfo back from JSON for comparison''
         | Inr gotUnified \<Rightarrow>
             (case json_Unmarshal wantJSON of
                Inl _ \<Rightarrow> Fatalf ''Failed to unmarshal metainfo back from JSON for comparison''
              | Inr wantUnified \<Rightarrow>
                  if interface_value gotUnified \<noteq> interface_value wantUnified then Fatalf ''Unexpected metainfo'' else returnE ()))"

subsection \<open>Balances\<close>

text \<open>The first argument is what the client of the service returned.\<close>

definition checkBalance :: "go_error + BalanceInfo \<Rightarrow> BTCAmount \<Rightarrow> BTCAmount \<Rightarrow> check" where
  "checkBalance response balance balanceWithUnconf =
     (case response of
        Inl err \<Rightarrow> Fatalf ''Failed to get balance from processing''
      | Inr balanceInfo \<Rightarrow> checks
          [expect (Balance balanceInfo = balance) ''Wrong confirmed wallet balance'',
           expect (BalanceWithUnconf balanceInfo = balanceWithUnconf) ''Wrong wallet balance including unconfirmed''])"

definition checkRequiredFromColdStorage :: "go_error + BTCAmount \<Rightarrow> BTCAmount \<Rightarrow> check" where
  "checkRequiredFromColdStorage response balance =
     (case response of
        Inl err \<Rightarrow> Fatalf ''Failed request amount required from cold storage from processing''
      | Inr required \<Rightarrow> expect (required = balance) ''Expected that amount required from cold storage will be other'')"

subsection \<open>Fields of a notification\<close>

definition checkTxNotificationFields :: "lib \<Rightarrow> TxNotification \<Rightarrow> txTestData \<Rightarrow> check" where
  "checkTxNotificationFields L n tx =
     (let txIDStr = uuid_String L (ID (tn_Transaction n))
      in checks
           [expect (Amount (tn_Transaction n) = td_amount tx) ''Incorrect amount for tx'',
            expect (Currency n = ''BTC'') ''Currency should always be BTC'',
            expect (\<not> (txIDStr = [] \<or> IpnID n \<noteq> txIDStr)) ''Expected tx id and 'ipn_id' field to be equal and nonempty'',
            compareMetainfo (Metainfo (tn_Transaction n)) (td_metainfo tx)])"

definition checkUnconfirmedTxNotificationFields :: "TxNotification \<Rightarrow> txTestData \<Rightarrow> check" where
  "checkUnconfirmedTxNotificationFields n tx = checks
     [expect (BlockHash (tn_Transaction n) = []) ''Expected that block hash for new tx will be empty'',
      expect (Confirmations (tn_Transaction n) = 0) ''Expected 0 confirmations for new tx'']"

definition checkNewTxNotificationFields :: "TxNotification \<Rightarrow> txTestData \<Rightarrow> check" where
  "checkNewTxNotificationFields n tx = checks
     [checkUnconfirmedTxNotificationFields n tx,
      expect (StatusCode n = 0) ''Expected status code 0 for new tx'']"

definition checkConfirmedTxNotificationFields :: "TxNotification \<Rightarrow> txTestData \<Rightarrow> check" where
  "checkConfirmedTxNotificationFields n tx = checks
     [expect (ID (tn_Transaction n) = td_id tx) ''Expected other tx id'',
      expect (Hash (tn_Transaction n) = td_hash tx) ''Expected other bitcoin tx hash'',
      expect (BlockHash (tn_Transaction n) = td_blockHash tx) ''Expected other block hash'',
      expect (Confirmations (tn_Transaction n) = td_confirmations tx) ''Expected other confirmations for confirmed tx'']"

definition checkFullyConfirmedTxNotificationFields :: "TxNotification \<Rightarrow> txTestData \<Rightarrow> check" where
  "checkFullyConfirmedTxNotificationFields n tx = checks
     [checkConfirmedTxNotificationFields n tx,
      expect (StatusCode n = 100) ''Expected status code 100 for fully confirmed tx'',
      expect (StatusStr n = Status_String FullyConfirmedTransaction) ''Expected status name for fully confirmed tx'']"

definition checkPartiallyConfirmedTxNotificationFields :: "TxNotification \<Rightarrow> txTestData \<Rightarrow> check" where
  "checkPartiallyConfirmedTxNotificationFields n tx = checks
     [checkConfirmedTxNotificationFields n tx,
      expect (StatusCode n > 0 \<and> StatusCode n < 100) ''Expected status code for partially confirmed tx to be more than 0, but less than 100'',
      expect (StatusStr n = Status_String ConfirmedTransaction) ''Expected status name for confirmed tx'']"

subsection \<open>Deposits\<close>

definition checkNotificationFieldsForDeposit :: "lib \<Rightarrow> TxNotification \<Rightarrow> txTestData \<Rightarrow> check" where
  "checkNotificationFieldsForDeposit L n tx = checks
     [checkTxNotificationFields L n tx,
      expect (Address (tn_Transaction n) = td_address tx) ''Incorrect address for deposit'',
      expect (Direction (tn_Transaction n) = IncomingDirection) ''Incorrect direction for deposit'',
      expect (Hash (tn_Transaction n) = td_hash tx) ''Incorrect tx hash for deposit'',
      expect (IpnType n = ''deposit'') ''Expected 'ipn_type' field to be deposit'',
      expect (\<not> ColdStorage (tn_Transaction n)) ''Cold storage flag should be false for any incoming tx'']"

definition checkNotificationFieldsForNewDeposit :: "lib \<Rightarrow> TxNotification \<Rightarrow> txTestData \<Rightarrow> check" where
  "checkNotificationFieldsForNewDeposit L n tx = checks
     [checkNotificationFieldsForDeposit L n tx, checkNewTxNotificationFields n tx,
      expect (StatusStr n = Status_String NewTransaction) ''Expected status name for new incoming tx'']"

definition checkNotificationFieldsForFullyConfirmedDeposit :: "lib \<Rightarrow> TxNotification \<Rightarrow> txTestData \<Rightarrow> check" where
  "checkNotificationFieldsForFullyConfirmedDeposit L n tx = checks
     [checkNotificationFieldsForDeposit L n tx, checkFullyConfirmedTxNotificationFields n tx]"

definition checkNotificationFieldsForPartiallyConfirmedDeposit :: "lib \<Rightarrow> TxNotification \<Rightarrow> txTestData \<Rightarrow> check" where
  "checkNotificationFieldsForPartiallyConfirmedDeposit L n tx = checks
     [checkNotificationFieldsForDeposit L n tx, checkPartiallyConfirmedTxNotificationFields n tx]"

subsection \<open>Withdrawals\<close>

definition checkWithdrawRequest :: "WithdrawRequest \<Rightarrow> WithdrawRequest \<Rightarrow> check" where
  "checkWithdrawRequest gotRequest wantRequest = checks
     [expect (req_Amount gotRequest = req_Amount wantRequest) ''Expected resulting amount to equal requested one'',
      expect (req_Fee gotRequest = req_Fee wantRequest) ''Expected resulting fee to equal requested one'',
      expect (req_ID gotRequest \<noteq> uuid_Nil) ''Expected resulting tx id to be non-nil'']"

definition checkClientWithdrawRequest :: "WithdrawRequest \<Rightarrow> WithdrawRequest \<Rightarrow> check" where
  "checkClientWithdrawRequest gotRequest wantRequest = checks
     [checkWithdrawRequest gotRequest wantRequest,
      expect (req_Address gotRequest = req_Address wantRequest) ''Expected resulting address to equal requested one'']"

definition checkCSWithdrawRequest :: "WithdrawRequest \<Rightarrow> WithdrawRequest \<Rightarrow> string \<Rightarrow> check" where
  "checkCSWithdrawRequest gotRequest wantRequest defaultCSAddress = checks
     [checkWithdrawRequest gotRequest wantRequest,
      if req_Address wantRequest = []
      then expect (req_Address gotRequest = defaultCSAddress) ''Expected resulting address to equal default cold storage address''
      else expect (req_Address gotRequest = req_Address wantRequest) ''Expected resulting address to equal requested one'']"

definition checkNotificationFieldsForWithdraw :: "lib \<Rightarrow> TxNotification \<Rightarrow> txTestData \<Rightarrow> check" where
  "checkNotificationFieldsForWithdraw L n tx = checks
     [checkTxNotificationFields L n tx,
      expect (Direction (tn_Transaction n) = OutgoingDirection) ''Incorrect direction for withdraw'',
      expect (IpnType n = ''withdrawal'') ''Expected 'ipn_type' field to be withdrawal'',
      expect (Fee (tn_Transaction n) = td_fee tx) ''Expected other fee field'']"

definition checkNotificationFieldsForNewWithdraw :: "lib \<Rightarrow> TxNotification \<Rightarrow> txTestData \<Rightarrow> check" where
  "checkNotificationFieldsForNewWithdraw L n tx = checks
     [checkNotificationFieldsForWithdraw L n tx, checkNewTxNotificationFields n tx]"

definition checkNotificationFieldsForClientWithdraw :: "TxNotification \<Rightarrow> txTestData \<Rightarrow> check" where
  "checkNotificationFieldsForClientWithdraw n tx = checks
     [expect (Address (tn_Transaction n) = td_address tx) ''Incorrect address for regular withdraw'',
      expect (\<not> ColdStorage (tn_Transaction n)) ''Cold storage flag should be false for regular withdraw'']"

definition checkNotificationFieldsForNewClientWithdraw :: "lib \<Rightarrow> TxNotification \<Rightarrow> txTestData \<Rightarrow> check" where
  "checkNotificationFieldsForNewClientWithdraw L n tx = checks
     [checkNotificationFieldsForNewWithdraw L n tx, checkNotificationFieldsForClientWithdraw n tx,
      expect (ID (tn_Transaction n) = td_id tx) ''Expected other tx id in withdraw notification data'']"

definition checkNotificationFieldsForFullyConfirmedWithdraw :: "lib \<Rightarrow> TxNotification \<Rightarrow> txTestData \<Rightarrow> check" where
  "checkNotificationFieldsForFullyConfirmedWithdraw L n tx = checks
     [checkNotificationFieldsForWithdraw L n tx, checkFullyConfirmedTxNotificationFields n tx]"

definition checkNotificationFieldsForPartiallyConfirmedWithdraw :: "lib \<Rightarrow> TxNotification \<Rightarrow> txTestData \<Rightarrow> check" where
  "checkNotificationFieldsForPartiallyConfirmedWithdraw L n tx = checks
     [checkNotificationFieldsForWithdraw L n tx, checkPartiallyConfirmedTxNotificationFields n tx]"

definition checkNotificationFieldsForFullyConfirmedClientWithdraw :: "lib \<Rightarrow> TxNotification \<Rightarrow> txTestData \<Rightarrow> check" where
  "checkNotificationFieldsForFullyConfirmedClientWithdraw L n tx = checks
     [checkNotificationFieldsForFullyConfirmedWithdraw L n tx, checkNotificationFieldsForClientWithdraw n tx]"

definition checkNotificationFieldsForPartiallyConfirmedClientWithdraw :: "lib \<Rightarrow> TxNotification \<Rightarrow> txTestData \<Rightarrow> check" where
  "checkNotificationFieldsForPartiallyConfirmedClientWithdraw L n tx = checks
     [checkNotificationFieldsForPartiallyConfirmedWithdraw L n tx, checkNotificationFieldsForClientWithdraw n tx]"

definition checkNotificationFieldsForAnyPendingWithdraw :: "lib \<Rightarrow> TxNotification \<Rightarrow> txTestData \<Rightarrow> check" where
  "checkNotificationFieldsForAnyPendingWithdraw L n tx = checks
     [checkNotificationFieldsForWithdraw L n tx, checkUnconfirmedTxNotificationFields n tx,
      checkNotificationFieldsForClientWithdraw n tx,
      expect (ID (tn_Transaction n) = td_id tx) ''Expected other tx id in withdraw notification data'',
      expect (Hash (tn_Transaction n) = []) ''Expected pending tx to have no bitcoin tx hash'',
      expect (\<not> 100 \<le> StatusCode n) ''Status code for pending tx should be less than 100'']"

definition checkNotificationFieldsForWithdrawPendingManualConfirmation :: "lib \<Rightarrow> TxNotification \<Rightarrow> txTestData \<Rightarrow> check" where
  "checkNotificationFieldsForWithdrawPendingManualConfirmation L n tx = checks
     [checkNotificationFieldsForAnyPendingWithdraw L n tx,
      expect (StatusStr n = Status_String PendingManualConfirmationTransaction) ''Expected other status name for tx'']"

definition checkNotificationFieldsForWithdrawPending :: "lib \<Rightarrow> TxNotification \<Rightarrow> txTestData \<Rightarrow> check" where
  "checkNotificationFieldsForWithdrawPending L n tx = checks
     [checkNotificationFieldsForAnyPendingWithdraw L n tx,
      expect (StatusStr n = Status_String PendingTransaction) ''Expected other status name for tx'']"

definition checkNotificationFieldsForWithdrawPendingColdStorage :: "lib \<Rightarrow> TxNotification \<Rightarrow> txTestData \<Rightarrow> check" where
  "checkNotificationFieldsForWithdrawPendingColdStorage L n tx = checks
     [checkNotificationFieldsForAnyPendingWithdraw L n tx,
      expect (StatusStr n = Status_String PendingColdStorageTransaction) ''Expected other status name for tx'']"

definition checkNotificationFieldsForCancelledWithdrawal :: "lib \<Rightarrow> TxNotification \<Rightarrow> txTestData \<Rightarrow> check" where
  "checkNotificationFieldsForCancelledWithdrawal L n tx = checks
     [checkNotificationFieldsForWithdraw L n tx, checkUnconfirmedTxNotificationFields n tx,
      checkNotificationFieldsForClientWithdraw n tx,
      expect (ID (tn_Transaction n) = td_id tx) ''Expected other tx id in withdraw notification data'',
      expect (StatusStr n = Status_String CancelledTransaction) ''Expected other status name for tx'',
      expect (Hash (tn_Transaction n) = []) ''Expected tx pending manual confirmation to have no bitcoin tx hash'',
      expect (\<not> 100 \<le> StatusCode n) ''Status code for cancelled tx should be less than 100'']"

subsection \<open>Both ways of reporting\<close>

text \<open>
  The notification of the callback and the event of the websocket for the same withdrawal; the
  hash of the transaction is taken over from the first. The result is the test data with the hash.
\<close>

definition checkNewInternalWithdrawTransactionNotificationAndEvent ::
  "lib \<Rightarrow> TxNotification \<Rightarrow> NotificationWithSeq \<Rightarrow> txTestData \<Rightarrow> (string list, txTestData) call" where
  "checkNewInternalWithdrawTransactionNotificationAndEvent L notification event tx =
     bindE (checkNotificationFieldsForNewClientWithdraw L notification tx) (\<lambda>_.
     bindE (expect (StatusStr notification = Status_String NewTransaction) ''Expected status name for new outgoing tx'') (\<lambda>_.
     let tx' = tx\<lparr>td_hash := Hash (tn_Transaction notification)\<rparr> in
     bindE (expect (ns_Type event = NewOutgoingTxEvent) ''Expected type of event for fresh successful withdraw'') (\<lambda>_.
     bindE (tx_data event) (\<lambda>data.
     bindE (checks
       [checkNotificationFieldsForNewClientWithdraw L data tx',
        expect (StatusStr data = Status_String NewTransaction) ''Expected status name for new outgoing tx'',
        expect (Hash (tn_Transaction data) = td_hash tx') ''Expected bitcoin tx hash to be equal in http and websocket notification''])
       (\<lambda>_. returnE tx')))))"

definition balance_became :: "('s, BalanceInfo) call \<Rightarrow> BTCAmount \<Rightarrow> BTCAmount \<Rightarrow> ('s, unit) call" where
  "balance_became balanceFunc balance balanceWithUnconf =
     bindE balanceFunc (\<lambda>currentBalance.
       if Balance currentBalance \<noteq> balance then failE (GoError ''Expected confirmed balance to be other'')
       else if BalanceWithUnconf currentBalance \<noteq> balanceWithUnconf
         then failE (GoError ''Expected balance including unconfirmed to be other'')
       else returnE ())"

definition checkBalanceBecame ::
  "('s, BalanceInfo) call \<Rightarrow> BTCAmount \<Rightarrow> BTCAmount \<Rightarrow> ('s \<times> string list, unit) call" where
  "checkBalanceBecame balanceFunc balance balanceWithUnconf =
     waitForEventOrFailTest (balance_became balanceFunc balance balanceWithUnconf)"

definition checkClientBalanceBecame ::
  "('s, BalanceInfo) call \<Rightarrow> BTCAmount \<Rightarrow> BTCAmount \<Rightarrow> ('s \<times> string list, unit) call" where
  "checkClientBalanceBecame GetClientBalance balance balanceWithUnconf =
     checkBalanceBecame GetClientBalance balance balanceWithUnconf"

definition checkNewWithdrawTransactionNotificationAndEvent ::
  "lib \<Rightarrow> ('s, BalanceInfo) call \<Rightarrow> TxNotification \<Rightarrow> NotificationWithSeq \<Rightarrow> txTestData \<Rightarrow> BTCAmount \<Rightarrow> BTCAmount \<Rightarrow>
   ('s \<times> string list, txTestData) call" where
  "checkNewWithdrawTransactionNotificationAndEvent L GetClientBalance notification event tx clientBalance
       expectedClientBalanceAfterWithdraw =
     bindE (on_test (checkNewInternalWithdrawTransactionNotificationAndEvent L notification event tx)) (\<lambda>tx'.
     bindE (checkClientBalanceBecame GetClientBalance clientBalance expectedClientBalanceAfterWithdraw) (\<lambda>_. returnE tx'))"

subsection \<open>What the checks accept\<close>

interpretation logging: step_relation "prefix :: string list \<Rightarrow> string list \<Rightarrow> bool"
  by unfold_locales auto

lemma logging_basic [keeps_intros]:
  "keeps prefix (Errorf msg)" "keeps prefix (Fatalf msg)" "keeps prefix (expect ok msg)"
  by (rule keepsI, auto simp: Errorf_def Fatalf_def expect_def returnE_def split: if_splits)+

lemma logging_checks: "\<forall>c \<in> set cs. keeps prefix c \<Longrightarrow> keeps prefix (checks cs)"
  by (induction cs) (auto intro!: keeps_intros)

lemma logging_compareMetainfo: "keeps prefix (compareMetainfo got want)"
  unfolding compareMetainfo_def Let_def by (auto intro!: keeps_intros split: sum.split)

lemma accepts_expect: "accepts (expect ok msg) \<longleftrightarrow> ok"
  by (auto simp: accepts_def expect_def Errorf_def returnE_def)

lemma accepts_bind:
  assumes "keeps prefix c" "keeps prefix d"
  shows "accepts (bindE c (\<lambda>_. d)) \<longleftrightarrow> accepts c \<and> accepts d"
proof
  assume both: "accepts (bindE c (\<lambda>_. d))"
  have "c t = (Ok (), t) \<and> d t = (Ok (), t)" for t
  proof -
    from both obtain t1 where t1: "c t = (Ok (), t1)" "d t1 = (Ok (), t)"
      by (auto simp: accepts_def bindE_is_Ok)
    with keepsD [OF assms(1) t1(1)] keepsD [OF assms(2) t1(2)] show ?thesis by (metis prefix_order.antisym)
  qed
  then show "accepts c \<and> accepts d" by (simp add: accepts_def)
qed (simp add: accepts_def bindE_def)

lemma accepts_Nil: "accepts (checks [])"
  by (simp add: accepts_def returnE_def)

lemma accepts_Cons:
  "keeps prefix c \<Longrightarrow> \<forall>c \<in> set cs. keeps prefix c \<Longrightarrow> accepts (checks (c # cs)) \<longleftrightarrow> accepts c \<and> accepts (checks cs)"
  by (simp add: accepts_bind logging_checks)

lemmas accepting = accepts_Nil accepts_Cons accepts_expect logging_basic logging_checks logging_compareMetainfo

lemma accepts_metainfo:
  assumes "json_ok got" "json_ok want"
  shows "accepts (compareMetainfo got want) \<longleftrightarrow> interface_value got = interface_value want"
  by (auto simp: compareMetainfo_def Let_def MarshalIndent_Marshal assms json_roundtrip accepts_def Fatalf_def returnE_def)

declare checks.simps [simp del]

text \<open>The parts that the checks have in common: each accepts exactly the notifications it describes.\<close>

lemma accepts_fields:
  assumes "plain_json (Metainfo (tn_Transaction n))" "json_ok (td_metainfo d)"
  shows "accepts (checkTxNotificationFields L n d) \<longleftrightarrow>
    Amount (tn_Transaction n) = td_amount d \<and> Currency n = ''BTC'' \<and> IpnID n = uuid_String L (ID (tn_Transaction n)) \<and>
    IpnID n \<noteq> [] \<and> Metainfo (tn_Transaction n) = interface_value (td_metainfo d)"
  using assms by (auto simp: checkTxNotificationFields_def Let_def accepting accepts_metainfo plain_json_def)

lemma logging_fields [keeps_intros]: "keeps prefix (checkTxNotificationFields L n d)"
  by (simp add: checkTxNotificationFields_def Let_def accepting)

lemmas field_checks = checkUnconfirmedTxNotificationFields_def checkNewTxNotificationFields_def
  checkConfirmedTxNotificationFields_def checkFullyConfirmedTxNotificationFields_def
  checkPartiallyConfirmedTxNotificationFields_def checkNotificationFieldsForClientWithdraw_def

lemmas deposit_checks = checkNotificationFieldsForDeposit_def checkNotificationFieldsForNewDeposit_def
  checkNotificationFieldsForFullyConfirmedDeposit_def checkNotificationFieldsForPartiallyConfirmedDeposit_def

lemmas withdraw_checks = checkNotificationFieldsForWithdraw_def checkNotificationFieldsForNewWithdraw_def
  checkNotificationFieldsForNewClientWithdraw_def checkNotificationFieldsForFullyConfirmedWithdraw_def
  checkNotificationFieldsForPartiallyConfirmedWithdraw_def checkNotificationFieldsForFullyConfirmedClientWithdraw_def
  checkNotificationFieldsForPartiallyConfirmedClientWithdraw_def checkNotificationFieldsForAnyPendingWithdraw_def
  checkNotificationFieldsForWithdrawPendingManualConfirmation_def checkNotificationFieldsForWithdrawPending_def
  checkNotificationFieldsForWithdrawPendingColdStorage_def checkNotificationFieldsForCancelledWithdrawal_def

subsection \<open>From the wallet to the test\<close>

text \<open>
  The body of the callback for a stored notification, as the listener of the tests decodes it: the
  notification with the number of the event, without the fields that are not sent.
\<close>

lemma callback_decoded:
  assumes "lib_ok L val" "data_ok (TxData n)" "int64_range (ns_Seq ev)" "ns_Data ev = generic_data L (TxData n)"
  shows "\<exists>body. marshalFlattenedEvent L ev = Ok body \<and>
    callbackRequest_unmarshal L \<lparr>cb_Method = meth, cb_URL = url, cb_body = body\<rparr> =
      Inr ((on_tx (\<lambda>t. t\<lparr>Status := NewTransaction, Fresh := False, ReportedConfirmations := 0\<rparr>) n)\<lparr>tn_Seq := ns_Seq ev\<rparr>)"
proof -
  have m: "interface_value (Metainfo (tn_Transaction n)) = Metainfo (tn_Transaction n)"
    using assms(2) by (simp add: plain_json_def)
  obtain ms where ms: "interface_value (marshal_TxNotification L n) = JObj ms"
    unfolding interface_marshal_TxNotification [OF m] Let_def by blast
  let ?j = "JObj (put_member ''type'' (EventType_MarshalJSON (ns_Type ev)) (put_member ''seq'' (marshal_int (ns_Seq ev)) ms))"
  have "interface_value (JObj ms) = JObj ms" using interface_value_idem [of "marshal_TxNotification L n"] ms by simp
  then have body: "marshalFlattenedEvent L ev = Ok (json_Marshal ?j)"
    by (simp add: marshalFlattenedEvent_def assms(4) generic_data_def ms del: json_Marshal.simps interface_value.simps)
  have "json_ok (JObj ms)" using json_ok_interface_value [OF marshal_data_ok [OF assms(2)], of L] ms by simp
  then have "json_ok ?j"
    by (intro json_ok_put_member) (simp_all add: EventType_MarshalJSON_def marshal_int_def parse_number_Itoa)
  moreover have "unmarshal_TxNotification L ?j =
      Inr ((on_tx (\<lambda>t. t\<lparr>Status := NewTransaction, Fresh := False, ReportedConfirmations := 0\<rparr>) n)\<lparr>tn_Seq := ns_Seq ev\<rparr>)"
    using assms(1-3) unmarshal_amount [OF assms(1)] ms [symmetric] unfolding interface_marshal_TxNotification [OF m] Let_def
    by (simp add: unmarshal_TxNotification_def fill_struct_def same_name_def less_char_def
        fill_by_def fill_int_marshal fill_uuid_marshal unmarshal_parts plain_json_def zero_TxNotification_def
        zero_Transaction_def)
  ultimately show ?thesis using body json_roundtrip(1) [of ?j]
    by (intro exI [of _ "json_Marshal ?j"]) (simp add: callbackRequest_unmarshal_def del: json_Marshal.simps)
qed

text \<open>The data a test has of a transaction of the wallet.\<close>

definition test_data_for :: "Transaction \<Rightarrow> txTestData \<Rightarrow> bool" where
  "test_data_for tx d \<longleftrightarrow> td_id d = ID tx \<and> td_address d = Address tx \<and> td_amount d = Amount tx \<and> td_fee d = Fee tx \<and>
     td_hash d = Hash tx \<and> td_blockHash d = BlockHash tx \<and> json_ok (td_metainfo d) \<and>
     Metainfo tx = interface_value (td_metainfo d)"

lemma notification_plain:
  assumes "test_data_for tx d" "Direction tx \<noteq> InvalidDirection" "int64_range (Confirmations tx)"
  shows "data_ok (TxData (tx_notification L tx))" "plain_json (Metainfo tx)"
proof -
  show "plain_json (Metainfo tx)"
    using assms(1) by (simp add: test_data_for_def plain_json_def interface_value_idem json_ok_interface_value)
  moreover have "int64_range (ToCoinpaymentsLikeCode (Status tx))"
    by (cases "Status tx") (simp_all add: ToCoinpaymentsLikeCode_def int64_range_def)
  ultimately show "data_ok (TxData (tx_notification L tx))"
    using assms by (simp add: tx_notification_def int64_range_def)
qed

text \<open>The checks of the tests for a deposit with \<open>i\<close> of \<open>maxConfirmations\<close> confirmations.\<close>

definition deposit_check :: "walletData \<Rightarrow> int \<Rightarrow> lib \<Rightarrow> TxNotification \<Rightarrow> txTestData \<Rightarrow> check" where
  "deposit_check W i =
     (if i = 0 then checkNotificationFieldsForNewDeposit
      else if i < maxConfirmations W then checkNotificationFieldsForPartiallyConfirmedDeposit
      else checkNotificationFieldsForFullyConfirmedDeposit)"


text \<open>The checks of the tests for a withdrawal that was not broadcast yet or has just been.\<close>

definition withdrawal_check :: "TransactionStatus \<Rightarrow> (lib \<Rightarrow> TxNotification \<Rightarrow> txTestData \<Rightarrow> check) option" where
  "withdrawal_check status =
     (case status of
        NewTransaction \<Rightarrow> Some checkNotificationFieldsForNewClientWithdraw
      | PendingTransaction \<Rightarrow> Some checkNotificationFieldsForWithdrawPending
      | PendingColdStorageTransaction \<Rightarrow> Some checkNotificationFieldsForWithdrawPendingColdStorage
      | PendingManualConfirmationTransaction \<Rightarrow> Some checkNotificationFieldsForWithdrawPendingManualConfirmation
      | CancelledTransaction \<Rightarrow> Some checkNotificationFieldsForCancelledWithdrawal
      | _ \<Rightarrow> None)"

text \<open>
  C31: The callbacks for a withdrawal are what the integration tests ask for. For a regular
  withdrawal that is pending in one of the three ways, cancelled or just broadcast, the body that is
  posted decodes to a notification that the check of the tests for its status accepts; and of two
  withdrawals with different statuses the check of one refuses the notification of the other.
\<close>

theorem withdrawal_callback_accepted:
  assumes "lib_ok L val" "uuid_String L (ID tx) \<noteq> []" "int64_range (ns_Seq ev)"
    and "Direction tx = OutgoingDirection" "\<not> ColdStorage tx" "Confirmations tx = 0" "BlockHash tx = []"
    and "Status tx \<noteq> NewTransaction \<longrightarrow> Hash tx = []" "test_data_for tx d"
    and "ns_Data ev = generic_data L (TxData (tx_notification L tx))" "withdrawal_check (Status tx) = Some c"
  shows "\<exists>body n. marshalFlattenedEvent L ev = Ok body \<and>
    callbackRequest_unmarshal L \<lparr>cb_Method = meth, cb_URL = url, cb_body = body\<rparr> = Inr n \<and> accepts (c L n d) \<and>
    (\<forall>status c'. withdrawal_check status = Some c' \<longrightarrow> status \<noteq> Status tx \<longrightarrow> \<not> accepts (c' L n d))"
proof -
  let ?n = "(on_tx (\<lambda>t. t\<lparr>Status := NewTransaction, Fresh := False, ReportedConfirmations := 0\<rparr>) (tx_notification L tx))
    \<lparr>tn_Seq := ns_Seq ev\<rparr>"
  have "int64_range (Confirmations tx)" using assms(6) by (simp add: int64_range_def)
  with notification_plain [OF assms(9)] assms(4)
  have plain: "data_ok (TxData (tx_notification L tx))" "plain_json (Metainfo tx)" by simp_all
  from callback_decoded [OF assms(1) plain(1) assms(3,10)] obtain body where body: "marshalFlattenedEvent L ev = Ok body"
    "callbackRequest_unmarshal L \<lparr>cb_Method = meth, cb_URL = url, cb_body = body\<rparr> = Inr ?n" by blast
  have ok: "json_ok (td_metainfo d)" using assms(9) by (simp add: test_data_for_def)
  note defs = withdrawal_check_def withdraw_checks field_checks accepting logging_fields tx_notification_def
    ToCoinpaymentsLikeCode_def ToCoinpaymentsLikeType_def
  have acc: "accepts (c L ?n d)"
    using assms(2,4-9,11) plain(2) ok
    by (cases "Status tx") (auto simp: defs accepts_fields test_data_for_def)
  have ref: "\<not> accepts (c' L ?n d)" if "withdrawal_check status = Some c'" "status \<noteq> Status tx" for status c'
    using that assms(11) by (cases status; cases "Status tx") (auto simp: defs Status_String_inject)
  show ?thesis using body acc ref by blast
qed

subsection \<open>Examples\<close>

definition example_checked :: "TransactionDirection \<Rightarrow> TransactionStatus \<Rightarrow> Transaction" where
  "example_checked dir status =
     \<lparr>ID = 7, Hash = (if dir = IncomingDirection then ''h'' else []), BlockHash = (if dir = IncomingDirection then ''b'' else []),
      Confirmations = (if dir = IncomingDirection then 2 else 0), Address = ''a'', Direction = dir, Status = status, Amount = 100,
      Metainfo = JNull, Fee = 5, FeeTypeOf = FixedFee, ColdStorage = False, Fresh = False, ReportedConfirmations = 1\<rparr>"

definition example_test_data :: "Transaction \<Rightarrow> txTestData" where
  "example_test_data tx =
     \<lparr>td_id = ID tx, td_address = Address tx, td_amount = Amount tx, td_fee = Fee tx, td_hash = Hash tx,
      td_blockHash = BlockHash tx, td_metainfo = JNull, td_confirmations = Confirmations tx\<rparr>"

definition checked_event :: "EventType \<Rightarrow> Transaction \<Rightarrow> NotificationWithSeq" where
  "checked_event et tx = \<lparr>ns_Type = et, ns_Data = generic_data example_lib (TxData (tx_notification example_lib tx)), ns_Seq = 4\<rparr>"

lemma example_data_uuid: "uuid_String example_lib 7 \<noteq> []"
  by code_simp


theorem withdrawal_callback_accepted_witness:
  "\<exists>body n. marshalFlattenedEvent example_lib (checked_event PendingStatusUpdatedEvent
       (example_checked OutgoingDirection PendingTransaction)) = Ok body \<and>
     callbackRequest_unmarshal example_lib \<lparr>cb_Method = ''POST'', cb_URL = ''/'', cb_body = body\<rparr> = Inr n \<and>
     accepts (checkNotificationFieldsForWithdrawPending example_lib n (example_test_data (example_checked OutgoingDirection PendingTransaction)))"
  using withdrawal_callback_accepted [OF example_lib_ok, of "example_checked OutgoingDirection PendingTransaction"
      "checked_event PendingStatusUpdatedEvent (example_checked OutgoingDirection PendingTransaction)"
      "example_test_data (example_checked OutgoingDirection PendingTransaction)" checkNotificationFieldsForWithdrawPending "''POST''" "''/''"]
  by (fastforce simp: example_checked_def example_test_data_def checked_event_def test_data_for_def int64_range_def
      withdrawal_check_def example_data_uuid)

end
