(* ===== verification/PgMitm.thy ===== *)
theory PgMitm
  imports TestKit Runs
begin

text \<open>
  The proxy between the service and its database that the reliability tests use to break
  connections (\<open>integrationtests/testenv/pgmitm\<close>). For each connection two goroutines relay the
  messages, one in each direction; handlers of the tests see every message first and may shut the
  connection down.

  The protocol is \<open>jackc/pgx/pgproto3\<close>, the connections belong to \<open>net\<close>: the messages a peer sends
  are given, a receive or a send may fail at any time, and a peer may close its end at any time. A
  step is one call on a connection or one access to the flag \<open>exiting\<close>.
\<close>

subsection \<open>One connection\<close>

datatype side = ServerToClient | ClientToServer

text \<open>
  Where a goroutine is: waiting for the first message of the client; at \<open>Receive\<close>; after an end of
  file and the first look at the flag; with a message; past the switch without a message; done.
\<close>

datatype 'm pipe_state = AwaitStartup | Receiving | SawEOF | HasMessage 'm | WithoutMessage | PipeReturned | PipePanicked

record 'm pipe =
  inbox :: "'m list"
  peer_eof :: bool
  outbox :: "'m list"
  closed_write :: bool
  pos :: "'m pipe_state"

record 'm Connection =
  pipes :: "side \<Rightarrow> 'm pipe"
  exiting :: AtomicFlag

definition on_pipe :: "side \<Rightarrow> ('m pipe \<Rightarrow> 'm pipe) \<Rightarrow> 'm Connection \<Rightarrow> 'm Connection" where
  "on_pipe d f c = c\<lparr>pipes := (pipes c)(d := f (pipes c d))\<rparr>"

text \<open>\<open>Shutdown\<close> of a connection: \<open>CloseWrite\<close> on both ends, once.\<close>

definition conn_Shutdown :: "'m Connection \<Rightarrow> 'm Connection" where
  "conn_Shutdown c =
     (case Flag_SetIf False True (exiting c) of
        (wasNotShuttingDownAlready, f) \<Rightarrow>
          if \<not> wasNotShuttingDownAlready then c\<lparr>exiting := f\<rparr>
          else c\<lparr>exiting := f, pipes := (\<lambda>d. (pipes c d)\<lparr>closed_write := True\<rparr>)\<rparr>)"

text \<open>
  The handlers run in turn. All a handler can do with the connection is to shut it down; the list
  tells which of them do.
\<close>

fun runMsgHandlers :: "bool list \<Rightarrow> 'm Connection \<Rightarrow> 'm Connection" where
  "runMsgHandlers [] c = c"
| "runMsgHandlers (shut # handlers) c = runMsgHandlers handlers (if shut then conn_Shutdown c else c)"

inductive mitm_step :: "('m \<Rightarrow> bool) \<Rightarrow> 'm Connection \<Rightarrow> 'm Connection \<Rightarrow> bool" for is_Terminate :: "'m \<Rightarrow> bool" where
  peer_closed: "\<not> peer_eof (pipes c d) \<Longrightarrow> mitm_step is_Terminate c (on_pipe d (\<lambda>p. p\<lparr>peer_eof := True\<rparr>) c)"
| startup: "pos (pipes c d) = AwaitStartup \<Longrightarrow> inbox (pipes c d) = m # ms \<Longrightarrow>
    mitm_step is_Terminate c (on_pipe d (\<lambda>p. p\<lparr>inbox := ms, outbox := outbox p @ [m], pos := Receiving\<rparr>) c)"
| startup_failed: "pos (pipes c d) = AwaitStartup \<Longrightarrow> mitm_step is_Terminate c (on_pipe d (\<lambda>p. p\<lparr>pos := PipePanicked\<rparr>) c)"
| received: "pos (pipes c d) = Receiving \<Longrightarrow> inbox (pipes c d) = m # ms \<Longrightarrow>
    c' = (if d = ClientToServer \<and> is_Terminate m then c\<lparr>exiting := Flag_Set True (exiting c)\<rparr> else c) \<Longrightarrow>
    mitm_step is_Terminate c (on_pipe d (\<lambda>p. p\<lparr>inbox := ms, pos := HasMessage m\<rparr>) c')"
| receive_failed: "pos (pipes c d) = Receiving \<Longrightarrow> mitm_step is_Terminate c (on_pipe d (\<lambda>p. p\<lparr>pos := PipePanicked\<rparr>) c)"
| eof_expected: "pos (pipes c d) = Receiving \<Longrightarrow> inbox (pipes c d) = [] \<Longrightarrow> peer_eof (pipes c d) \<Longrightarrow> Flag_Get (exiting c) \<Longrightarrow>
    mitm_step is_Terminate c (on_pipe d (\<lambda>p. p\<lparr>pos := PipeReturned\<rparr>) c)"
| eof_seen: "pos (pipes c d) = Receiving \<Longrightarrow> inbox (pipes c d) = [] \<Longrightarrow> peer_eof (pipes c d) \<Longrightarrow> \<not> Flag_Get (exiting c) \<Longrightarrow>
    mitm_step is_Terminate c (on_pipe d (\<lambda>p. p\<lparr>pos := SawEOF\<rparr>) c)"
| eof_unexpected: "pos (pipes c d) = SawEOF \<Longrightarrow> \<not> Flag_Get (exiting c) \<Longrightarrow>
    mitm_step is_Terminate c (on_pipe d (\<lambda>p. p\<lparr>closed_write := True, pos := PipeReturned\<rparr>) (c\<lparr>exiting := Flag_Set True (exiting c)\<rparr>))"
| eof_raced: "pos (pipes c d) = SawEOF \<Longrightarrow> Flag_Get (exiting c) \<Longrightarrow>
    mitm_step is_Terminate c (on_pipe d (\<lambda>p. p\<lparr>pos := WithoutMessage\<rparr>) c)"
| forwarded: "pos (pipes c d) = HasMessage m \<Longrightarrow>
    mitm_step is_Terminate c (on_pipe d (\<lambda>p. p\<lparr>outbox := outbox p @ [m], pos := Receiving\<rparr>) (runMsgHandlers handlers c))"
| send_failed: "pos (pipes c d) = HasMessage m \<Longrightarrow> c' = runMsgHandlers handlers c \<Longrightarrow>
    mitm_step is_Terminate c (on_pipe d (\<lambda>p. p\<lparr>pos := (if Flag_Get (exiting c') then Receiving else PipePanicked)\<rparr>) c')"
| shut_down: "exiting c = 0 \<Longrightarrow> mitm_step is_Terminate c (conn_Shutdown c)"

text \<open>A new connection, with the messages its peers will send.\<close>

definition runProxyConnection :: "'m list \<Rightarrow> 'm list \<Rightarrow> 'm Connection" where
  "runProxyConnection from_client from_server =
     \<lparr>pipes = (\<lambda>d. \<lparr>inbox = (if d = ClientToServer then from_client else from_server), peer_eof = False, outbox = [],
        closed_write = False, pos = (if d = ClientToServer then AwaitStartup else Receiving)\<rparr>),
      exiting = 0\<rparr>"

subsection \<open>What the handlers leave alone\<close>

lemma on_pipe_simps [simp]:
  "pipes (on_pipe d f c) d' = (if d' = d then f (pipes c d) else pipes c d')" "exiting (on_pipe d f c) = exiting c"
  by (simp_all add: on_pipe_def)

lemma conn_Shutdown_frame [simp]:
  "inbox (pipes (conn_Shutdown c) d) = inbox (pipes c d)" "outbox (pipes (conn_Shutdown c) d) = outbox (pipes c d)"
  "pos (pipes (conn_Shutdown c) d) = pos (pipes c d)" "peer_eof (pipes (conn_Shutdown c) d) = peer_eof (pipes c d)"
  by (simp_all add: conn_Shutdown_def split: prod.split)

lemma runMsgHandlers_frame [simp]:
  "inbox (pipes (runMsgHandlers hs c) d) = inbox (pipes c d)" "outbox (pipes (runMsgHandlers hs c) d) = outbox (pipes c d)"
  "pos (pipes (runMsgHandlers hs c) d) = pos (pipes c d)" "peer_eof (pipes (runMsgHandlers hs c) d) = peer_eof (pipes c d)"
  by (induction hs arbitrary: c) simp_all

lemma conn_Shutdown_exiting: "exiting c \<in> {0, 1} \<Longrightarrow> exiting (conn_Shutdown c) = 1"
  by (auto simp: conn_Shutdown_def Flag_SetIf_def Let_def split: prod.split)

lemma runMsgHandlers_exiting: "exiting c \<in> {0, 1} \<Longrightarrow> exiting (runMsgHandlers hs c) = (if True \<in> set hs then 1 else exiting c)"
proof (induction hs arbitrary: c)
  case (Cons h hs)
  then show ?case using conn_Shutdown_exiting [of c] by (cases h) auto
qed simp

subsection \<open>Messages are relayed in order\<close>

fun in_hand :: "'m pipe_state \<Rightarrow> 'm list" where
  "in_hand (HasMessage m) = [m]"
| "in_hand _ = []"

text \<open>
  What a goroutine has sent, holds and has not received yet are messages its peer sent, in order;
  none is missing unless the connection is going down or the goroutine panicked.
\<close>

definition pipe_ok :: "bool \<Rightarrow> 'm list \<Rightarrow> 'm pipe \<Rightarrow> bool" where
  "pipe_ok going_down msgs p \<longleftrightarrow>
     (let all = outbox p @ in_hand (pos p) @ inbox p
      in subseq all msgs \<and> (\<not> going_down \<longrightarrow> pos p \<noteq> PipePanicked \<longrightarrow> all = msgs) \<and>
         (pos p = PipeReturned \<or> pos p = WithoutMessage \<longrightarrow> going_down))"

definition relaying :: "(side \<Rightarrow> 'm list) \<Rightarrow> 'm Connection \<Rightarrow> bool" where
  "relaying msgs c \<longleftrightarrow> exiting c \<in> {0, 1} \<and> (\<forall>d. pipe_ok (Flag_Get (exiting c)) (msgs d) (pipes c d))"

lemma pipe_ok_mono:
  assumes "pipe_ok e msgs p" "e \<longrightarrow> e'" "inbox p' = inbox p" "outbox p' = outbox p" "pos p' = pos p"
  shows "pipe_ok e' msgs p'"
  using assms by (auto simp: pipe_ok_def Let_def)

text \<open>A step of one goroutine, after the flag may have been set.\<close>

lemma relaying_step:
  assumes "relaying msgs c" "exiting c' \<in> {0, 1}" "Flag_Get (exiting c) \<longrightarrow> Flag_Get (exiting c')"
    and same: "\<And>d. inbox (pipes c' d) = inbox (pipes c d)" "\<And>d. outbox (pipes c' d) = outbox (pipes c d)"
      "\<And>d. pos (pipes c' d) = pos (pipes c d)"
    and "pipe_ok (Flag_Get (exiting c')) (msgs d) (pipes c' d) \<Longrightarrow> pipe_ok (Flag_Get (exiting c')) (msgs d) (f (pipes c' d))"
  shows "relaying msgs (on_pipe d f c')"
proof -
  have "pipe_ok (Flag_Get (exiting c')) (msgs d') (pipes c' d')" for d'
    using assms(1) by (intro pipe_ok_mono [OF _ assms(3) same]) (simp add: relaying_def)
  with assms(2,7) show ?thesis by (simp add: relaying_def)
qed

lemma relaying_flag: "relaying msgs c \<Longrightarrow> exiting c \<in> {0, 1}"
  by (simp add: relaying_def)

lemma Flag_Set_bit [simp]: "Flag_Set True af = 1" "Flag_Set False af = 0"
  by (simp_all add: Flag_Set_def)

lemma Flag_Get_bit [simp]: "Flag_Get 1" "\<not> Flag_Get 0"
  by (simp_all add: Flag_Get_def)

lemma handlers_flag:
  assumes "exiting c \<in> {0, 1}"
  shows "exiting (runMsgHandlers hs c) \<in> {0, 1}" "Flag_Get (exiting c) \<longrightarrow> Flag_Get (exiting (runMsgHandlers hs c))"
  using assms by (auto simp: runMsgHandlers_exiting Flag_Get_def)

lemma subseq_skip: "subseq (xs @ y # zs) ws \<Longrightarrow> subseq (xs @ zs) ws"
  by (rule subseq_order.trans [rotated]) (auto intro: list_emb_append_mono)

lemma mitm_step_relaying: "mitm_step T c c' \<Longrightarrow> relaying msgs c \<Longrightarrow> relaying msgs c'"
proof (induction rule: mitm_step.induct)
  case (forwarded c d m handlers)
  with handlers_flag [OF relaying_flag, of msgs c handlers] show ?case
    by (intro relaying_step [of msgs c]) (auto simp: pipe_ok_def Let_def)
next
  case (send_failed c d m c' handlers)
  with handlers_flag [OF relaying_flag, of msgs c handlers] show ?case
    by (intro relaying_step [of msgs c]) (auto simp: pipe_ok_def Let_def intro: subseq_skip)
next
  case (shut_down c)
  then have flag: "exiting (conn_Shutdown c) = 1" by (intro conn_Shutdown_exiting) simp
  have "pipe_ok (Flag_Get (exiting c)) (msgs d) (pipes c d)" for d using shut_down.prems by (simp add: relaying_def)
  then have "pipe_ok (Flag_Get (exiting (conn_Shutdown c))) (msgs d) (pipes (conn_Shutdown c) d)" for d
    by (rule pipe_ok_mono) (simp_all add: flag Flag_Get_def)
  with flag show ?case by (simp add: relaying_def)
next
  case (received c d m ms c')
  then show ?case using relaying_flag [OF received.prems]
    by (intro relaying_step [of msgs c]) (auto simp: pipe_ok_def Let_def)
next
  case (eof_unexpected c d)
  then show ?case by (intro relaying_step [of msgs c]) (auto simp: pipe_ok_def Let_def)
qed (rule relaying_step [OF _ relaying_flag], assumption, assumption, auto simp: pipe_ok_def Let_def)+

lemma relaying_start:
  "relaying (\<lambda>d. if d = ClientToServer then from_client else from_server) (runProxyConnection from_client from_server)"
  by (simp add: relaying_def runProxyConnection_def pipe_ok_def)

subsection \<open>Connections end\<close>

fun pipe_weight :: "'m pipe_state \<Rightarrow> nat" where
  "pipe_weight (HasMessage m) = 4"
| "pipe_weight AwaitStartup = 3"
| "pipe_weight Receiving = 3"
| "pipe_weight SawEOF = 2"
| "pipe_weight _ = 0"

definition side_weight :: "'m pipe \<Rightarrow> nat" where
  "side_weight p = 2 * length (inbox p) + (if peer_eof p then 0 else 1) + pipe_weight (pos p)"

definition mitm_weight :: "'m Connection \<Rightarrow> nat" where
  "mitm_weight c = side_weight (pipes c ServerToClient) + side_weight (pipes c ClientToServer) +
     (if Flag_Get (exiting c) then 0 else 1)"

lemma mitm_weight_pipe:
  assumes "Flag_Get (exiting c) \<longrightarrow> Flag_Get (exiting c')" "\<And>d. side_weight (pipes c' d) = side_weight (pipes c d)"
    and "side_weight (f (pipes c' d)) < side_weight (pipes c d)"
  shows "mitm_weight (on_pipe d f c') < mitm_weight c"
  using assms by (cases d) (simp_all add: mitm_weight_def)

text \<open>The flag is never taken back.\<close>

lemma conn_Shutdown_keeps_flag: "Flag_Get (exiting c) \<Longrightarrow> Flag_Get (exiting (conn_Shutdown c))"
  by (simp add: conn_Shutdown_def Flag_SetIf_def Flag_Get_def Let_def)

lemma runMsgHandlers_keeps_flag: "Flag_Get (exiting c) \<Longrightarrow> Flag_Get (exiting (runMsgHandlers hs c))"
  by (induction hs arbitrary: c) (simp_all add: conn_Shutdown_keeps_flag)

lemma side_weight_frame [simp]:
  "side_weight (pipes (conn_Shutdown c) d) = side_weight (pipes c d)"
  "side_weight (pipes (runMsgHandlers hs c) d) = side_weight (pipes c d)"
  by (simp_all add: side_weight_def)

lemma mitm_step_lighter: "mitm_step T c c' \<Longrightarrow> mitm_weight c' < mitm_weight c"
proof (induction rule: mitm_step.induct)
  case (shut_down c)
  then have "exiting (conn_Shutdown c) = 1" by (intro conn_Shutdown_exiting) simp
  with shut_down show ?case by (simp add: mitm_weight_def Flag_Get_def)
qed (rule mitm_weight_pipe; auto simp: side_weight_def runMsgHandlers_keeps_flag split: if_splits)+

definition mitm_over :: "'m Connection \<Rightarrow> bool" where
  "mitm_over c \<longleftrightarrow> (\<forall>d. pos (pipes c d) \<in> {PipeReturned, WithoutMessage, PipePanicked})"

lemma mitm_progress:
  assumes "\<not> mitm_over c"
  shows "\<exists>c'. mitm_step T c c'"
proof -
  from assms obtain d where d: "pos (pipes c d) \<notin> {PipeReturned, WithoutMessage, PipePanicked}" by (auto simp: mitm_over_def)
  then show ?thesis
  proof (cases "pos (pipes c d)")
    case Receiving
    then show ?thesis by (blast intro: mitm_step.receive_failed)
  qed (blast intro: mitm_step.intros)+
qed

interpretation mitm: ending_system "mitm_step T" "relaying msgs" mitm_over mitm_weight for T msgs
  by unfold_locales (auto intro: mitm_step_lighter mitm_step_relaying mitm_progress)

text \<open>
  C40: The proxy of the tests relays faithfully until it is told to break the connection. In every
  reachable state what was sent on to one peer are messages of the other, in their order; as long as
  nobody shuts the connection down, no peer has said that it terminates, and the goroutine did not
  panic, none is missing. Every run ends, after at most two steps for each message and nine more.
\<close>

theorem proxy_relays:
  assumes "(mitm_step T ^^ n) (runProxyConnection from_client from_server) c"
  shows "subseq (outbox (pipes c ClientToServer)) from_client \<and> subseq (outbox (pipes c ServerToClient)) from_server \<and>
    (\<not> Flag_Get (exiting c) \<longrightarrow> pos (pipes c ClientToServer) = Receiving \<longrightarrow>
       outbox (pipes c ClientToServer) @ inbox (pipes c ClientToServer) = from_client) \<and>
    (\<not> Flag_Get (exiting c) \<longrightarrow> pos (pipes c ServerToClient) = Receiving \<longrightarrow>
       outbox (pipes c ServerToClient) @ inbox (pipes c ServerToClient) = from_server) \<and>
    n \<le> 2 * (length from_client + length from_server) + 9 \<and> (\<exists>z. (mitm_step T)\<^sup>*\<^sup>* c z \<and> mitm_over z)"
proof -
  let ?msgs = "\<lambda>d. if d = ClientToServer then from_client else from_server"
  have ok: "relaying ?msgs c" by (rule mitm.run_keeps [OF assms relaying_start])
  then have "pipe_ok (Flag_Get (exiting c)) (?msgs d) (pipes c d)" for d by (simp add: relaying_def)
  from this [of ClientToServer] this [of ServerToClient] have
    "subseq (outbox (pipes c ClientToServer)) from_client" "subseq (outbox (pipes c ServerToClient)) from_server"
    "\<not> Flag_Get (exiting c) \<longrightarrow> pos (pipes c ClientToServer) = Receiving \<longrightarrow>
       outbox (pipes c ClientToServer) @ inbox (pipes c ClientToServer) = from_client"
    "\<not> Flag_Get (exiting c) \<longrightarrow> pos (pipes c ServerToClient) = Receiving \<longrightarrow>
       outbox (pipes c ServerToClient) @ inbox (pipes c ServerToClient) = from_server"
    by (auto simp: pipe_ok_def Let_def dest: list_emb_appendD)
  moreover have "mitm_weight (runProxyConnection from_client from_server) = 2 * (length from_client + length from_server) + 9"
    by (simp add: mitm_weight_def side_weight_def runProxyConnection_def Flag_Get_def)
  ultimately show ?thesis using mitm.run_length [OF assms] mitm.run_ends [OF ok, of T] by auto
qed

text \<open>
  The flag is read twice after an end of file. A \<open>Shutdown\<close> between the two sends the goroutine past
  the switch without a message, which it then hands to the handlers and to \<open>Send\<close>.
\<close>

lemma shutdown_races_with_eof:
  "\<exists>c. (mitm_step T)\<^sup>*\<^sup>* (runProxyConnection from_client []) c \<and> pos (pipes c ServerToClient) = WithoutMessage"
proof -
  let ?d = ServerToClient
  let ?c0 = "runProxyConnection from_client []"
  let ?c1 = "on_pipe ?d (\<lambda>p. p\<lparr>peer_eof := True\<rparr>) ?c0"
  let ?c2 = "on_pipe ?d (\<lambda>p. p\<lparr>pos := SawEOF\<rparr>) ?c1"
  let ?c3 = "conn_Shutdown ?c2"
  let ?c4 = "on_pipe ?d (\<lambda>p. p\<lparr>pos := WithoutMessage\<rparr>) ?c3"
  have flag: "exiting ?c3 = 1" by (rule conn_Shutdown_exiting) (simp add: runProxyConnection_def)
  have "mitm_step T ?c0 ?c1" by (rule mitm_step.peer_closed) (simp add: runProxyConnection_def)
  also have "(mitm_step T)\<^sup>*\<^sup>* ?c1 ?c2"
    by (rule r_into_rtranclp, rule mitm_step.eof_seen) (simp_all add: runProxyConnection_def Flag_Get_def)
  also have "(mitm_step T)\<^sup>*\<^sup>* ?c2 ?c3"
    by (rule r_into_rtranclp, rule mitm_step.shut_down) (simp add: runProxyConnection_def)
  also have "(mitm_step T)\<^sup>*\<^sup>* ?c3 ?c4"
    by (rule r_into_rtranclp, rule mitm_step.eof_raced) (use flag in \<open>simp_all add: Flag_Get_def\<close>)
  finally show ?thesis by (intro exI [of _ ?c4]) simp
qed

theorem proxy_relays_witness:
  "\<exists>c. (mitm_step (\<lambda>m. m = ''X'') ^^ Suc 0) (runProxyConnection [''start''] []) c \<and>
     subseq (outbox (pipes c ClientToServer)) [''start''] \<and> (\<exists>z. (mitm_step (\<lambda>m. m = ''X''))\<^sup>*\<^sup>* c z \<and> mitm_over z)"
proof -
  have "mitm_step (\<lambda>m. m = ''X'') (runProxyConnection [''start''] []) (on_pipe ClientToServer
      (\<lambda>p. p\<lparr>inbox := [], outbox := outbox p @ [''start''], pos := Receiving\<rparr>) (runProxyConnection [''start''] []))"
    (is "mitm_step _ _ ?c") by (rule mitm_step.startup) (simp_all add: runProxyConnection_def)
  then have "(mitm_step (\<lambda>m. m = ''X'') ^^ Suc 0) (runProxyConnection [''start''] []) ?c"
    by auto
  with proxy_relays [OF this] show ?thesis by blast
qed

subsection \<open>The proxy\<close>

record PgMITM =
  BindAddr :: string
  UpstreamAddr :: string
  AllowUpstreamConnFailure :: bool
  listener_open :: bool
  connections :: "nat list"
  shuttingDown :: AtomicFlag

definition NewPgMITM :: "string \<Rightarrow> string \<Rightarrow> bool \<Rightarrow> go_error + PgMITM" where
  "NewPgMITM bindAddr upstreamAddr allowUpstreamConnFailure =
     (if upstreamAddr = [] then Inl (GoError ''UpstreamAddr can't be empty'')
      else Inr \<lparr>BindAddr = bindAddr, UpstreamAddr = upstreamAddr, AllowUpstreamConnFailure = allowUpstreamConnFailure,
                listener_open = False, connections = [], shuttingDown = 0\<rparr>)"

text \<open>\<open>Listen\<close> is \<open>net.Listen\<close>.\<close>

definition mitm_Start :: "(string \<Rightarrow> go_error option) \<Rightarrow> PgMITM \<Rightarrow> go_error option \<times> PgMITM" where
  "mitm_Start Listen p =
     (case Listen (BindAddr p) of Some err \<Rightarrow> (Some err, p) | None \<Rightarrow> (None, p\<lparr>listener_open := True\<rparr>))"

text \<open>
  One turn of \<open>handleConnections\<close> on the result of \<open>Accept\<close> (whether the error is a \<open>net.OpError\<close>):
  \<open>Ok True\<close> to go on, \<open>Ok False\<close> when the loop returns.
\<close>

definition accept_turn :: "bool + unit \<Rightarrow> PgMITM \<Rightarrow> bool res" where
  "accept_turn accepted p =
     (case accepted of
        Inr _ \<Rightarrow> Ok True
      | Inl is_OpError \<Rightarrow> if is_OpError \<and> Flag_Get (shuttingDown p) then Ok False else Panic ''Accept'')"

text \<open>
  \<open>runProxyConnection\<close> up to the goroutines, and its end. \<open>Dial\<close> is \<open>net.Dial\<close>; without the upstream
  server the connection is dropped if that is allowed.
\<close>

definition register_connection :: "(string \<Rightarrow> go_error option) \<Rightarrow> nat \<Rightarrow> PgMITM \<Rightarrow> bool res \<times> PgMITM" where
  "register_connection Dial conn p =
     (case Dial (UpstreamAddr p) of
        Some err \<Rightarrow> (if AllowUpstreamConnFailure p then Ok False else Panic ''Dial'', p)
      | None \<Rightarrow> (Ok True, p\<lparr>connections := conn # connections p\<rparr>))"

definition forget_connection :: "nat \<Rightarrow> PgMITM \<Rightarrow> PgMITM" where
  "forget_connection conn p = p\<lparr>connections := removeAll conn (connections p)\<rparr>"

definition mitm_Shutdown :: "PgMITM \<Rightarrow> (nat \<Rightarrow> 'm Connection) \<Rightarrow> PgMITM \<times> (nat \<Rightarrow> 'm Connection)" where
  "mitm_Shutdown p conns =
     (case Flag_SetIf False True (shuttingDown p) of
        (wasNotShuttingDownAlready, f) \<Rightarrow>
          if \<not> wasNotShuttingDownAlready then (p\<lparr>shuttingDown := f\<rparr>, conns)
          else (p\<lparr>shuttingDown := f, listener_open := False\<rparr>,
                \<lambda>i. if i \<in> set (connections p) then conn_Shutdown (conns i) else conns i))"

text \<open>
  The first \<open>Shutdown\<close> reaches every connection that is registered, and \<open>handleConnections\<close> returns
  without a panic; a connection that registers afterwards is not shut down.
\<close>

lemma mitm_Shutdown_reaches:
  assumes "mitm_Shutdown p conns = (p', conns')" "shuttingDown p = 0"
  shows "i \<in> set (connections p) \<Longrightarrow> exiting (conns i) \<in> {0, 1} \<Longrightarrow> Flag_Get (exiting (conns' i))"
    and "accept_turn (Inl True) p' = Ok False"
    and "i \<notin> set (connections p) \<Longrightarrow> register_connection Dial i p' = (Ok True, p'') \<Longrightarrow>
      conns' i = conns i \<and> mitm_Shutdown p'' conns' = (p'', conns')"
  using assms conn_Shutdown_exiting [of "conns i"]
  by (auto simp: mitm_Shutdown_def Flag_SetIf_def Flag_Get_def accept_turn_def register_connection_def Let_def
      split: option.splits)

end
