(* ===== verification/Tools.thy ===== *)
theory Tools
  imports Client
begin

text \<open>
  The tools beside the service: \<open>tools/regtest/auto-paying-proxy.go\<close>, a proxy in front of a node of
  a test network that pays to every address the node hands out, and \<open>tools/racer.go\<close>, which puts load
  on a service from several goroutines.

  Connections, the commands of \<open>docker\<close> and random numbers are arguments.
\<close>

section \<open>The paying proxy\<close>

text \<open>A body that is \<open>nil\<close> is \<open>None\<close>; reading a body may fail.\<close>

record proxied_request =
  rq_Body :: "(go_error + string) option"
  rq_authorization :: string

record proxied_response =
  rs_Status :: int
  rs_Body :: "(go_error + string) option"

definition decode_bitcoindRequest :: "string \<Rightarrow> go_error + string" where
  "decode_bitcoindRequest text =
     (case json_Unmarshal text of
        Inl err \<Rightarrow> Inl err
      | Inr j \<Rightarrow> fill_struct (\<lambda>k v m. if same_name k ''method'' then fill_string v (\<lambda>s. s) m else Inr m) j [])"

text \<open>The result, and the error with its code and message if there is one.\<close>

definition decode_bitcoind_error :: "json \<Rightarrow> go_error + (int \<times> string) option" where
  "decode_bitcoind_error j =
     (if j = JNull then Inr None
      else case fill_struct (\<lambda>k v (code, msg).
             if same_name k ''code'' then fill_int v (\<lambda>n. (n, msg)) (code, msg)
             else if same_name k ''message'' then fill_string v (\<lambda>s. (code, s)) (code, msg)
             else Inr (code, msg)) j (0, []) of
             Inl err \<Rightarrow> Inl err
           | Inr e \<Rightarrow> Inr (Some e))"

definition decode_bitcoindResponse :: "string \<Rightarrow> go_error + string \<times> (int \<times> string) option" where
  "decode_bitcoindResponse text =
     (case json_Unmarshal text of
        Inl err \<Rightarrow> Inl err
      | Inr j \<Rightarrow>
          fill_struct (\<lambda>k v (result, e).
            if same_name k ''result'' then fill_string v (\<lambda>s. (s, e)) (result, e)
            else if same_name k ''error'' then fill_by decode_bitcoind_error v (\<lambda>e'. (result, e'))
            else Inr (result, e)) j ([], None))"

text \<open>
  \<open>RoundTrip\<close>: what the client of the proxy gets, and the address and authorization of the payment
  that is started, if any.
\<close>

definition watch_response :: "string \<Rightarrow> proxied_response \<Rightarrow> (go_error + proxied_response) \<times> (string \<times> string) option" where
  "watch_response authorization res =
     (case rs_Body res of
        None \<Rightarrow> (Inr res, None)
      | Some (Inl err) \<Rightarrow> (Inl err, None)
      | Some (Inr bodyBytes) \<Rightarrow>
          (let res' = res\<lparr>rs_Body := Some (Inr bodyBytes)\<rparr>
           in case decode_bitcoindResponse bodyBytes of
                Inl err \<Rightarrow> (Inr res', None)
              | Inr (address, Some e) \<Rightarrow> (Inr res', None)
              | Inr (address, None) \<Rightarrow> (Inr res', Some (address, authorization))))"

definition RoundTrip ::
  "(proxied_request \<Rightarrow> go_error + proxied_response) \<Rightarrow> proxied_request \<Rightarrow>
   (go_error + proxied_response) \<times> (string \<times> string) option" where
  "RoundTrip transport req =
     (let forward = (\<lambda>req isGetNewAddress.
            case transport req of
              Inl err \<Rightarrow> (Inl err, None)
            | Inr res \<Rightarrow> if \<not> isGetNewAddress then (Inr res, None) else watch_response (rq_authorization req) res)
      in case rq_Body req of
           None \<Rightarrow> forward req False
         | Some (Inl err) \<Rightarrow> (Inl err, None)
         | Some (Inr bodyBytes) \<Rightarrow>
             (case decode_bitcoindRequest bodyBytes of
                Inl err \<Rightarrow> (Inl err, None)
              | Inr meth \<Rightarrow> forward (req\<lparr>rq_Body := Some (Inr bodyBytes)\<rparr>) (meth = ''getnewaddress'')))"

text \<open>The payment: the request that is posted to the paying node, and whether it was accepted.\<close>

definition sendToAddressRequest :: "string \<Rightarrow> json" where
  "sendToAddressRequest address =
     JObj [(''method'', JStr ''sendtoaddress''), (''params'', JArr [JStr address, JNum ''2''])]"

definition addMoneyToWalletAfterDelay ::
  "(string \<Rightarrow> string \<Rightarrow> string \<Rightarrow> go_error + string) \<Rightarrow> string \<Rightarrow> string \<Rightarrow> string \<Rightarrow> bool" where
  "addMoneyToWalletAfterDelay Do payingNodeAddr address authorization =
     (case Do (''http://'' @ payingNodeAddr) authorization (json_Marshal (sendToAddressRequest address)) of
        Inl err \<Rightarrow> False
      | Inr respBody \<Rightarrow>
          (case decode_bitcoindResponse respBody of
             Inl err \<Rightarrow> False
           | Inr (_, e) \<Rightarrow> e = None))"

subsection \<open>The proxy does not change what passes\<close>

text \<open>
  Whatever a client gets through the proxy is what the node answered to the same request, or an
  error; and an answer of the node only fails to arrive if its body cannot be read.
\<close>

lemma RoundTrip_answer:
  "fst (RoundTrip transport req) = Inr res \<Longrightarrow> transport req = Inr res"
  "RoundTrip transport req = (Inl err, pay) \<Longrightarrow> transport req = Inr res \<Longrightarrow>
     (\<exists>e. rs_Body res = Some (Inl e)) \<or> (\<exists>e. rq_Body req = Some (Inl e)) \<or>
     (\<exists>text e. rq_Body req = Some (Inr text) \<and> decode_bitcoindRequest text = Inl e)"
proof -
  have same: "rq_Body req = Some x \<Longrightarrow> req\<lparr>rq_Body := Some x\<rparr> = req" for x by (cases req) simp
  have same': "rs_Body r = Some x \<Longrightarrow> r\<lparr>rs_Body := Some x\<rparr> = r" for x and r :: proxied_response by (cases r) simp
  show "fst (RoundTrip transport req) = Inr res \<Longrightarrow> transport req = Inr res"
    by (auto simp: RoundTrip_def watch_response_def Let_def same same' split: option.splits sum.splits if_splits)
  show "RoundTrip transport req = (Inl err, pay) \<Longrightarrow> transport req = Inr res \<Longrightarrow>
     (\<exists>e. rs_Body res = Some (Inl e)) \<or> (\<exists>e. rq_Body req = Some (Inl e)) \<or>
     (\<exists>text e. rq_Body req = Some (Inr text) \<and> decode_bitcoindRequest text = Inl e)"
    by (auto simp: RoundTrip_def watch_response_def Let_def same split: option.splits sum.splits if_splits)
qed

text \<open>
  A payment is started for the address in the answer to \<open>getnewaddress\<close> and for nothing else, and
  the request it posts asks the paying node for two bitcoins to this address.
\<close>

lemma RoundTrip_pays:
  assumes "RoundTrip transport req = (answer, Some (address, auth))"
  shows "\<exists>text res reply. rq_Body req = Some (Inr text) \<and> decode_bitcoindRequest text = Inr ''getnewaddress'' \<and>
    answer = Inr res \<and> rs_Body res = Some (Inr reply) \<and> decode_bitcoindResponse reply = Inr (address, None) \<and>
    auth = rq_authorization req"
  using assms by (auto simp: RoundTrip_def watch_response_def Let_def split: option.splits sum.splits if_splits)

lemma payment_request_reads:
  "decode_bitcoindRequest (json_Marshal (sendToAddressRequest address)) = Inr ''sendtoaddress''"
proof -
  have "json_ok (sendToAddressRequest address)"
    by (simp add: sendToAddressRequest_def) code_simp
  from json_roundtrip(1) [OF this] show ?thesis
    by (simp add: decode_bitcoindRequest_def sendToAddressRequest_def fill_struct_def same_name_def)
qed

section \<open>The load generator\<close>

text \<open>Two pools of addresses, each behind a mutex; an empty pool gives the empty string.\<close>

record racer =
  accounts :: "string list"
  clientAddresses :: "string list"

definition take_last :: "string list \<Rightarrow> string \<times> string list" where
  "take_last xs = (if xs = [] then ([], xs) else (last xs, butlast xs))"

definition addAccountAddress :: "string \<Rightarrow> racer \<Rightarrow> racer" where
  "addAccountAddress address r = r\<lparr>accounts := accounts r @ [address]\<rparr>"

definition getAccountAddress :: "racer \<Rightarrow> string \<times> racer" where
  "getAccountAddress r = (case take_last (accounts r) of (res, rest) \<Rightarrow> (res, r\<lparr>accounts := rest\<rparr>))"

definition addClientAddress :: "string \<Rightarrow> racer \<Rightarrow> racer" where
  "addClientAddress address r = r\<lparr>clientAddresses := clientAddresses r @ [address]\<rparr>"

definition getClientAddress :: "racer \<Rightarrow> string \<times> racer" where
  "getClientAddress r = (case take_last (clientAddresses r) of (res, rest) \<Rightarrow> (res, r\<lparr>clientAddresses := rest\<rparr>))"

text \<open>An error of the service is logged, and the address is empty.\<close>

definition makeWallet :: "('u, 's) connection \<Rightarrow> ('s, string) call" where
  "makeWallet C s =
     (case client_NewWallet C (JObj [(''Test'', JStr ''123'')]) s of
        (Ok w, s') \<Rightarrow> (Ok (acc_Address w), s')
      | (Error err, s') \<Rightarrow> (Ok [], s')
      | (Panic p, s') \<Rightarrow> (Panic p, s'))"

definition makeAndStoreWallet :: "('u, 's) connection \<Rightarrow> ('s \<times> racer, unit) call" where
  "makeAndStoreWallet C = (\<lambda>(s, r).
     case makeWallet C s of
       (Ok address, s') \<Rightarrow> (Ok (), s', if address \<noteq> [] then addAccountAddress address r else r)
     | (Error err, s') \<Rightarrow> (Error err, s', r)
     | (Panic p, s') \<Rightarrow> (Panic p, s', r))"

text \<open>
  \<open>newAddress\<close> is what the command for a new address of the client's node printed, without white
  space around it; it is empty if the command failed.
\<close>

definition makeWithdraw :: "lib \<Rightarrow> ('u, 's) connection \<Rightarrow> string \<Rightarrow> ('s \<times> racer, unit) call" where
  "makeWithdraw L C newAddress = (\<lambda>(s, r).
     case getClientAddress r of
       (pooled, r1) \<Rightarrow>
         (let addrWasCreated = (pooled = []); addr = (if addrWasCreated then newAddress else pooled)
          in if addr = [] then (Ok (), s, r1)
             else
               (case (BTCAmountFromStringedFloat (lib_decimal L) ''0.24'', BTCAmountFromStringedFloat (lib_decimal L) ''0.0003'') of
                  (Inr amount, Inr fee) \<Rightarrow>
                    (case client_Withdraw L C (zero_request\<lparr>req_Address := addr, req_Amount := amount, req_Fee := fee\<rparr>) s of
                       (Panic p, s') \<Rightarrow> (Panic p, s', r1)
                     | (_, s') \<Rightarrow> (Ok (), s', if addrWasCreated then addClientAddress addr r1 else r1))
                | _ \<Rightarrow> (Panic ''log.Fatal'', s, r1))))"

text \<open>The payment to the account is made by a node outside; \<open>docker\<close> is what became of the command.\<close>

definition makeDeposit :: "('u, 's) connection \<Rightarrow> (string \<Rightarrow> 's \<Rightarrow> 's) \<Rightarrow> ('s \<times> racer, unit) call" where
  "makeDeposit C docker = (\<lambda>(s, r).
     case getAccountAddress r of
       (pooled, r1) \<Rightarrow>
         (case (if pooled = [] then makeWallet C s else (Ok pooled, s)) of
            (Ok accountAddr, s') \<Rightarrow>
              if accountAddr = [] then (Ok (), s', r1)
              else (Ok (), docker accountAddr s', if pooled = [] then addAccountAddress accountAddr r1 else r1)
          | (Error err, s') \<Rightarrow> (Error err, s', r1)
          | (Panic p, s') \<Rightarrow> (Panic p, s', r1)))"

text \<open>
  A withdrawal takes the last address of its pool, which does not come back; only an address that
  was created for it is kept.
\<close>

lemma makeWithdraw_pool:
  assumes "makeWithdraw L C newAddress (s, r) = (Ok (), s', r')" "[] \<notin> set (clientAddresses r)"
  shows "accounts r' = accounts r" "clientAddresses r' =
    (if clientAddresses r \<noteq> [] then butlast (clientAddresses r) else if newAddress = [] then [] else [newAddress])"
proof -
  have "clientAddresses r \<noteq> [] \<Longrightarrow> last (clientAddresses r) \<noteq> []" using assms(2) by (metis last_in_set)
  with assms(1) show "accounts r' = accounts r" "clientAddresses r' =
      (if clientAddresses r \<noteq> [] then butlast (clientAddresses r) else if newAddress = [] then [] else [newAddress])"
    by (auto simp: makeWithdraw_def getClientAddress_def take_last_def addClientAddress_def Let_def
        split: if_splits sum.splits prod.splits res.splits)
qed

text \<open>
  Several goroutines use a pool at once. What happens to the addresses of one pool: a goroutine takes
  one, or creates one because the pool was empty; it uses it; and it returns it only if it was created.
  An account that is only created goes to the pool at once.
\<close>

record pool_state =
  pool :: "string list"
  held :: "(string \<times> bool) list"
  used :: "string list"
  created :: "string list"

inductive pool_step :: "pool_state \<Rightarrow> pool_state \<Rightarrow> bool" where
  taken: "pool s \<noteq> [] \<Longrightarrow>
    pool_step s (s\<lparr>pool := butlast (pool s), held := (last (pool s), False) # held s\<rparr>)"
| fresh: "a \<notin> set (created s) \<Longrightarrow> pool_step s (s\<lparr>held := (a, True) # held s, created := a # created s\<rparr>)"
| stored: "a \<notin> set (created s) \<Longrightarrow> pool_step s (s\<lparr>pool := pool s @ [a], created := a # created s\<rparr>)"
| released: "(a, new) \<in> set (held s) \<Longrightarrow>
    pool_step s (s\<lparr>held := remove1 (a, new) (held s), used := a # used s, pool := (if new then pool s @ [a] else pool s)\<rparr>)"

text \<open>Every address is used, is in the pool or will still be used, at most twice in all.\<close>

definition share :: "string \<Rightarrow> pool_state \<Rightarrow> nat" where
  "share a s = count_list (used s) a + count_list (pool s) a + count_list (held s) (a, False) + 2 * count_list (held s) (a, True)"

lemma count_list_remove1: "count_list (remove1 x xs) y = count_list xs y - (if x = y \<and> x \<in> set xs then 1 else 0)"
  by (induction xs) (auto simp: count_list_0_iff)

lemma count_list_last: "xs \<noteq> [] \<Longrightarrow> count_list xs a = count_list (butlast xs) a + (if last xs = a then 1 else 0)"
  by (cases xs rule: rev_cases) simp_all

lemma count_list_distinct: "distinct xs \<Longrightarrow> count_list xs a \<le> 1"
  by (induction xs) auto

lemma pool_share: "pool_step s t \<Longrightarrow> share b s \<le> 2 * count_list (created s) b \<Longrightarrow> share b t \<le> 2 * count_list (created t) b"
proof (induction rule: pool_step.induct)
  case (taken s)
  then show ?case using count_list_last [of "pool s" b] by (simp add: share_def split: if_splits)
next
  case (released a new s)
  then have "0 < count_list (held s) (a, new)" by (simp add: count_list_0_iff flip: neq0_conv)
  with released show ?case by (cases new; cases "a = b") (auto simp: share_def count_list_remove1)
qed (auto simp: share_def)

lemma pool_created: "pool_step s t \<Longrightarrow> distinct (created s) \<Longrightarrow> distinct (created t)"
  by (induction rule: pool_step.induct) auto

text \<open>However the goroutines are interleaved, no address is used more than twice.\<close>

lemma addresses_used_twice:
  assumes "pool_step\<^sup>*\<^sup>* \<lparr>pool = [], held = [], used = [], created = []\<rparr> s"
  shows "count_list (used s) a \<le> 2"
proof -
  from assms have "share a s \<le> 2 * count_list (created s) a \<and> distinct (created s)"
    by (induction rule: rtranclp_induct) (auto simp: share_def [of _ "\<lparr>pool = [], held = [], used = [], created = []\<rparr>"]
        intro: pool_share pool_created)
  moreover from this have "count_list (created s) a \<le> 1" by (intro count_list_distinct) simp
  ultimately show ?thesis by (simp add: share_def)
qed

end
