(* ===== verification/Spec2Isabelle.thy ===== *)
theory Spec2Isabelle
  imports Sender NodeFees WalletMemory Api Reporting Shortfall Retries Startup Payments Websocket Callback
    Commands Closing Checkers PgMitm Tools
begin

text \<open>
  Verification of bitcoin-processing, a service that receives and sends bitcoins for other
  programs: it hands out addresses, watches the node for deposits, sends withdrawals, and tells
  its clients about both. This development models the service in Isabelle/HOL, follows its
  source (under \<open>src/\<close>) function by function, and proves what makes it safe to run.

  \<^bold>\<open>The parts and how they interact.\<close> The wallet (\<open>wallet/\<close>) runs one goroutine, the updater,
  that polls the node and serves queued requests; the event broker (\<open>events/\<close>) runs another, that
  posts events to a callback URL and hands them to websocket subscribers; the API (\<open>api/\<close>) serves
  each client in a goroutine of its own and queues work for the other two. They share a
  PostgreSQL database, or structures in memory when none is configured. The node is reached
  through \<open>bitcoin/nodeapi\<close>.

  \<^bold>\<open>Model.\<close> A Go call returns \<open>Ok\<close>, \<open>Error\<close> or \<open>Panic\<close> (type \<open>res\<close>) and the state it leaves;
  \<open>bindE\<close> is the idiom of returning early on an error. The state \<open>world\<close> (theory Database) holds
  the tables, the sequence behind the event numbers, the trigger channels, the timers, the gauges
  and a trace of the effects on the outside: commits, payments asked of the node, callbacks
  posted. What the program cannot control is the argument \<open>env\<close>: for each statement or commit
  whether it succeeds, fails without effect, or takes effect and reports an error all the same;
  each answer of the node and of the callback URL; each new UUID; the order \<open>sort.Slice\<close> produces;
  and the libraries \<open>gofrs/uuid\<close> and \<open>shopspring/decimal\<close> (record \<open>lib\<close>). Amounts are 64-bit words.

  \<^bold>\<open>Theories.\<close>
  \<^item> Prelude, GoStd: Go values, calls, \<open>strconv\<close>, tables of names (locale \<open>enum_names\<close>).
    Json, Encoding: \<open>encoding/json\<close>, a parser and a printer with their round trip for every layout
    of white space (locale \<open>json_layout\<close>).
  \<^item> Bitcoin, Amounts: \<open>bitcoin/fee.go\<close>, \<open>bitcoin/formats.go\<close>, \<open>util\<close>. WalletTypes, EventTypes:
    \<open>wallet/types\<close>, \<open>events/types.go\<close>. Wire: the JSON forms of transactions, accounts and events.
  \<^item> Database: \<open>storage/storage.go\<close>, transactions with rollback and uncertain commits.
    EventStorage, WalletStorage: \<open>events/postgresstorage.go\<close>, \<open>wallet/postgresstorage.go\<close>.
    WalletMemory: \<open>wallet/memorystorage.go\<close>, with a store for the objects that callers share, and
    the locale \<open>transaction_store\<close> that both storages implement.
  \<^item> Notify, Withdraw, Pending, Updates, WalletAdmin: \<open>wallet/notify.go\<close>, \<open>withdraw.go\<close>,
    \<open>pending.go\<close>, \<open>updates.go\<close>, and \<open>accounts.go\<close>, \<open>hotwallet.go\<close>, \<open>coldwallet.go\<close>, \<open>info.go\<close>,
    \<open>integrity.go\<close>, \<open>wallet.go\<close>.
  \<^item> Broadcaster: \<open>events/broadcaster.go\<close> and \<open>events/memorystorage.go\<close>; what the broadcaster
    relies on is the locale \<open>event_log\<close>, interpreted on both event storages. Broker:
    \<open>events/broker.go\<close>, \<open>httpcallback.go\<close>, \<open>mute.go\<close>, \<open>websocket.go\<close>, \<open>integrity.go\<close>.
  \<^item> NodeRPC, NodeFees: \<open>bitcoin/nodeapi/rpc.go\<close>. Api: \<open>api/http.go\<close>. Websocket:
    \<open>api/websocket.go\<close>. System: \<open>cmd/bitcoin-processing/main.go\<close> and the life of an installation.
  \<^item> Process: the goroutines of \<open>main.go\<close> and \<open>componentrunner.go\<close>, with \<open>Run\<close> and \<open>Stop\<close> of the
    components, as a step relation. Settings: \<open>settings/\<close> and the construction of the parts
    (\<open>NewNodeAPI\<close>, \<open>storage.Open\<close>, \<open>NewEventBroker\<close>, \<open>NewWallet\<close>, \<open>NewServer\<close>).
  \<^item> Client, Reader: the client library \<open>api/client/\<close>, its HTTP methods and its websocket client;
    Closing: the goroutines of the websocket client and how it is closed. Pretty:
    \<open>util/prettyprint.go\<close>. Commands: the command line client \<open>cmd/bitcoin-processing-client/\<close>.
  \<^item> Beside the service: TestKit and Checkers, the listeners, helpers and checks of the integration
    tests (\<open>integrationtests/util.go\<close>, \<open>checkers.go\<close>, \<open>testenv/\<close>); PgMitm, their database proxy
    (\<open>testenv/pgmitm/\<close>); Tools, the load generator \<open>tools/racer.go\<close> and the paying proxy of test
    networks. Runs: the contract of systems whose runs end (locale \<open>ending_system\<close>), which Process,
    Closing and PgMitm implement.

  \<^bold>\<open>The life of an installation\<close> is the inductive predicate \<open>life\<close> of System: the process starts
  (checks of the locks, initialisation), performs operations - a turn of the updater, of the
  broker, or a call of the API - and may crash between any two effects and be started again on
  the database that was last committed. Operations of different goroutines are interleaved in any
  order, each as one step. \<open>admissible\<close> says of the node that the hash of a new payment is new,
  and of the installation that event numbers stay within 63 bits.

  \<^bold>\<open>What is shown.\<close>
  \<^item> Payments (this theory, on Frame, TxView, Safety, SafeWallet): no withdrawal is paid twice; a
    crash loses no payment; what is settled is never sent again; the table stays well-formed. The
    invariant is kept by every operation (\<open>safe_at\<close>, with rules for sequencing) and by a crash at
    every point. Payments: with a working database a withdrawal completes, waits for money, or is
    transferred inside the wallet. Shortfall: the money required from the cold storage, and
    cancelling. Retries: how often a result is stored again.
  \<^item> Notifications (this theory, on BrokerFrame, SafeBroker, Footprint; Sender, Retries,
    Callback): delivered in order and at most once across crashes; all of them when nothing fails;
    given up after the configured number of retries; the body tells the whole event. Reporting:
    one event per confirmation, no deposit missed. Startup: the start-up checks, event numbers,
    queries and muting. Broadcaster, Websocket: what a subscriber receives. Wire: events survive
    their JSON text.
  \<^item> Storage (WalletMemory): both storages refine one contract and answer alike. Node (NodeFees):
    fees are exact and a payment is broadcast at most once. Api: every request is a step of the
    life, and what a withdrawal request must pass. Amounts: the text form of amounts.
  \<^item> Process: after a signal or the end of a component the process ends, in a bounded number of
    steps, and its exit status tells why. Settings: the process starts only with complete settings.
    Client: a call through the client library is the call of the wallet. Reader: from the table of
    events to the callback of a websocket client no event is lost or changed. Closing: closing the
    client ends, whatever the server does. Pretty, Commands: what a command sends and prints, and
    that the output is the JSON text of the result.
  \<^item> Checkers: what the service posts for deposits and withdrawals passes the checks of the
    integration tests. PgMitm: the database proxy relays in order until it is told to break a
    connection. Tools: the paying proxy changes nothing that passes through it.

  \<^bold>\<open>Bounds.\<close> Loops over lists are structural recursions. The retry loops have the bounds of the
  code (ten retries). The JSON parser recurses on the length of the text. Nothing uses fuel.

  \<^bold>\<open>Not modelled.\<close> Goroutine scheduling inside an operation of the wallet or the broker and the
  order in which transactions of different goroutines commit (a later commit with a smaller event
  number is possible with accounts created by the API); delays and the timeout of the HTTP server's
  shutdown; log output; the packages \<open>viper\<close> and \<open>cobra\<close>, the HTTP and websocket transport and the
  metrics page. Of the integration tests the scripts and the code that starts containers of
  PostgreSQL and of nodes: they only call \<open>docker\<close> and the parts above.
\<close>

section \<open>Payments\<close>

text \<open>A wallet with one withdrawal waiting, which the start-up sends.\<close>

definition example_wallet :: walletData where
  "example_wallet =
     \<lparr>hotWalletAddress = [], coldWalletAddress = [], minWithdraw = 100, minFeePerKb = 10,
      minFeeFixed = 10, minWithdrawWithoutManualConfirmation = 5000, maxConfirmations = 6\<rparr>"

definition example_request :: WithdrawRequest where
  "example_request =
     \<lparr>req_ID = 5, req_Address = ''dest'', req_Amount = 1000, req_Fee = 20,
      req_FeeType = ''fixed'', req_Metainfo = JNull\<rparr>"

definition waiting_db :: database where
  "waiting_db = example_db\<lparr>transactions_t :=
     [row_of_tx ((outgoing_tx example_request FixedFee ''dest'' False)
                   \<lparr>Status := PendingTransaction\<rparr>)]\<rparr>"

definition example_wallet' :: walletData where
  "example_wallet' = example_wallet\<lparr>hotWalletAddress := ''h''\<rparr>"

definition example_start :: "walletData res \<times> world" where
  "example_start = start example_env ''h'' [] example_wallet (example_world\<lparr>db := waiting_db\<rparr>)"

lemma example_start_runs:
  "case example_start of (r, w) \<Rightarrow>
     r = Ok example_wallet' \<and> paid (trace w) = [5] \<and> admissible waiting_db w \<and>
     settled (durable waiting_db (drop 1 (trace w))) 5"
  by code_simp

lemmas example_start_facts = example_start_runs [unfolded case_prod_beta]

lemma example_env_ok: "uuid_ok example_env" "sort_ok example_env"
  by (auto simp: uuid_ok_def sort_ok_def example_env_def comp_def)

lemma waiting_db_ok: "init_ok waiting_db"
  by code_simp

lemma example_installed: "life example_env waiting_db None (example_world\<lparr>db := waiting_db\<rparr>)"
  by (rule life.installed) (simp add: example_world_def, simp add: example_world_def,
    simp add: example_world_def, code_simp+)

lemma example_life:
  "life example_env waiting_db (Some (example_wallet', NewEventBroker 3)) (snd example_start)"
proof (rule life.started [OF example_installed])
  show "start example_env ''h'' [] example_wallet (example_world\<lparr>db := waiting_db\<rparr>) =
      (Ok example_wallet', snd example_start)"
    using example_start_facts by (simp add: example_start_def prod_eq_iff)
  show "admissible waiting_db (snd example_start)" using example_start_facts by simp
qed

lemma example_paid: "paid (trace (snd example_start)) = [5]"
  using example_start_facts by simp





text \<open>
  C3: Nothing is sent for a withdrawal that has left the pending statuses - one that was
  cancelled, or is already broadcast: once the database records this, no later effect hands
  a payment with its identifier to the node, across crashes and restarts.
\<close>

theorem settled_never_sent:
  assumes "life E d0 ph w" and "init_ok d0" and "uuid_ok E" and "sort_ok E"
    and "trace w = later @ earlier" and "settled (durable d0 earlier) i"
  shows "EffSend i a m f r \<notin> set later \<and> settled (durable d0 (trace w)) i"
proof -
  from life_Midway [OF assms(1-4)] assms(5) have "orderly d0 (later @ earlier)" by (simp add: Midway_def Sound_def)
  with orderly_not_paid orderly_settled assms(5,6) show ?thesis by metis
qed

theorem settled_never_sent_witness:
  "\<forall>a m f r. EffSend 5 a m f r \<notin> set (take 1 (trace (snd example_start))) \<and>
     settled (durable waiting_db (trace (snd example_start))) 5"
proof (intro allI)
  fix a m f r
  show "EffSend 5 a m f r \<notin> set (take 1 (trace (snd example_start))) \<and>
      settled (durable waiting_db (trace (snd example_start))) 5"
    by (rule settled_never_sent [OF example_life waiting_db_ok example_env_ok,
          where earlier = "drop 1 (trace (snd example_start))"])
      (use example_start_facts in simp_all)
qed

lemma all_good_commit: "all_good t \<Longrightarrow> EffCommit d \<in> set t \<Longrightarrow> good d"
  by (induction t rule: all_good.induct) auto

fun is_commit :: "effect \<Rightarrow> bool" where
  "is_commit (EffCommit _) = True"
| "is_commit _ = False"

lemma example_commits: "list_ex is_commit (trace (snd example_start))"
  by code_simp

text \<open>
  C4: The table of transactions stays well-formed. In every database that is ever committed the
  identifiers are distinct and none is the nil UUID, and a transaction in a pending status has no
  hash: it was not handed to the network.
\<close>

theorem transactions_well_formed:
  assumes "life E d0 ph w" and "init_ok d0" and "uuid_ok E" and "sort_ok E" and "EffCommit d \<in> set (trace w)"
  shows "distinct (map r_id (transactions_t d)) \<and> uuid_Nil \<notin> r_id ` set (transactions_t d) \<and>
    (\<forall>r \<in> set (transactions_t d). pending_name (r_status r) \<longrightarrow> r_hash r = [])"
proof -
  from life_Midway [OF assms(1-4)] have "all_good (trace w)" by (simp add: Midway_def Sound_def)
  from all_good_commit [OF this assms(5)] show ?thesis by (simp add: good_def pk_def ids_def)
qed

theorem transactions_well_formed_witness:
  "\<exists>d. EffCommit d \<in> set (trace (snd example_start)) \<and> distinct (map r_id (transactions_t d)) \<and>
     uuid_Nil \<notin> r_id ` set (transactions_t d)"
proof -
  from example_commits obtain d where d: "EffCommit d \<in> set (trace (snd example_start))"
    by (auto simp: list_ex_iff elim: is_commit.elims)
  with transactions_well_formed [OF example_life waiting_db_ok example_env_ok d] show ?thesis by blast
qed

section \<open>Notifications\<close>

text \<open>
  C5: Notifications are delivered in order and at most once. Over the whole life of the
  installation, with failing statements, answers of the callback URL of every kind, crashes
  and restarts, the sequence numbers of the HTTP notifications that the client has
  acknowledged increase strictly.
\<close>

theorem notifications_in_order:
  assumes "life E d0 ph w" and "init_ok d0" and "uuid_ok E" and "sort_ok E"
  shows "sorted_wrt (<) (rev (delivered (trace w)))"
  using life_Midway [OF assms] by (simp add: Midway_def HSound_def sorted_wrt_rev)

theorem notifications_in_order_witness:
  "\<exists>e w. life example_env one_event_db (Some (event_wallet, e)) w \<and> delivered (trace w) = [1] \<and>
     sorted_wrt (<) (rev (delivered (trace w)))"
  using event_told notifications_in_order [OF _ one_event_ok example_env_ok] by blast

text \<open>
  C6: Crashes forget no delivery. After any prefix of the effects, the database that a crash
  would leave counts every acknowledged notification as sent, or the callback is locked, so
  that the start-up check of the broker refuses.
\<close>

theorem notifications_crash_consistent:
  assumes "life E d0 ph w" and "init_ok d0" and "uuid_ok E" and "sort_ok E"
    and "suffix t (trace w)" and "seq \<in> set (delivered t)"
  shows "sent_up_to (durable d0 t) seq \<or>
    (http_locked (durable d0 t) \<and> (\<forall>v. db v = durable d0 t \<longrightarrow> \<not> is_ok (fst (broker_Check E v))))"
proof -
  from life_Midway [OF assms(1-4)] have "HSound d0 w" by (simp add: Midway_def)
  from HSound_suffix [OF this assms(5)] have "http_crash_safe d0 t" by (simp add: HSound_def crashed_def)
  then have "http_safe_now d0 t" by (cases t) (auto simp: http_safe_now_def)
  with assms(6) have "http_locked (durable d0 t) \<or> sent_up_to (durable d0 t) seq"
    by (auto simp: http_safe_now_def)
  moreover have "\<not> is_ok (fst (broker_Check E v))" if "http_locked (db v)" for v
    using that broker_Check_Ok [of E v] by (cases "broker_Check E v"; cases "fst (broker_Check E v)") auto
  ultimately show ?thesis by auto
qed

theorem notifications_crash_consistent_witness:
  "\<exists>e w. life example_env one_event_db (Some (event_wallet, e)) w \<and> 1 \<in> set (delivered (trace w)) \<and>
     (sent_up_to (durable one_event_db (trace w)) 1 \<or>
      (http_locked (durable one_event_db (trace w)) \<and>
       (\<forall>v. db v = durable one_event_db (trace w) \<longrightarrow> \<not> is_ok (fst (broker_Check example_env v)))))"
proof -
  from event_told obtain e w where w: "life example_env one_event_db (Some (event_wallet, e)) w"
    "delivered (trace w) = [1]" by blast
  with notifications_crash_consistent [OF w(1) one_event_ok example_env_ok, of "trace w" 1]
  show ?thesis by (intro exI [of _ e] exI [of _ w]) simp
qed

end
